(* ===== verification/Prelude.thy ===== *)
theory Prelude
  imports Main "HOL-Library.Word" "HOL-Library.Multiset" "HOL-Library.Monad_Syntax"
begin

text \<open>
  Shared vocabulary of the development: the machine types of the Go program
  (\<open>int64\<close> and Go's 64-bit \<open>int\<close> as \<open>64 word\<close>), a model of Go's built-in
  \<open>map[string]V\<close> whose iteration order is left open, the index loop that fills a
  fixed-size slice, and the generic lemmas on lists and words the component
  theories share.  The collection \<open>go_simps\<close> gathers the evaluation rules of the
  runtime model so that component proofs can say \<open>simp add: go_simps\<close>.
\<close>

named_theorems go_simps "evaluation rules of the Go runtime model"

type_synonym int64 = "64 word"

subsection \<open>Go maps with an unspecified iteration order\<close>

text \<open>
  A Go map \<open>map[string]V\<close> is modelled by an association list with distinct keys,
  kept in first-insertion order.  Reading a missing key yields the zero value, and
  \<open>m[k] += v\<close> updates the entry in place or adds it.  Go randomises the order of
  \<open>for k := range m\<close>; the model takes that order as a parameter, a ranking of the
  keys: \<open>range\<close> lists the keys sorted by rank, ties in insertion order.  Every
  permutation of the keys is the range order of some ranking
  (\<open>gomap_range_realises\<close>), so a theorem proved for all rankings holds for every
  iteration order the Go runtime may choose.
\<close>

type_synonym 'v gomap = "(string \<times> 'v) list"
type_synonym rank = "string \<Rightarrow> nat"

definition gomap_get :: "('v::zero) gomap \<Rightarrow> string \<Rightarrow> 'v" where
  "gomap_get m k = (case map_of m k of None \<Rightarrow> 0 | Some v \<Rightarrow> v)"

fun gomap_add :: "('v::monoid_add) gomap \<Rightarrow> string \<Rightarrow> 'v \<Rightarrow> 'v gomap" where
  "gomap_add [] k v = [(k, 0 + v)]"
| "gomap_add ((k', v') # m) k v =
     (if k' = k then (k', v' + v) # m else (k', v') # gomap_add m k v)"

definition gomap_range :: "rank \<Rightarrow> 'v gomap \<Rightarrow> string list" where
  "gomap_range r m = sort_key r (map fst m)"

text \<open>Position of a key in a list of keys, used to build the ranking of a given order.\<close>

primrec position :: "string list \<Rightarrow> string \<Rightarrow> nat" where
  "position [] k = 0"
| "position (x # xs) k = (if x = k then 0 else Suc (position xs k))"

text \<open>
  Filling a fixed-size slice by an index loop,
  \<open>for i := 0; i < n; i++ { out[i] = xs[i] }\<close>, over a slice made with
  \<open>make([]T, size)\<close>.
\<close>

definition fill_slots :: "nat \<Rightarrow> 'a list \<Rightarrow> 'a list \<Rightarrow> 'a list" where
  "fill_slots n xs out = fold (\<lambda>i ys. ys[i := xs ! i]) [0..<n] out"

text \<open>The distinct elements of a list in the order they are first met: the keys of a
  map built by \<open>m[k] += v\<close> over a sequence of keys, in insertion order.\<close>

primrec first_seen :: "'a list \<Rightarrow> 'a list" where
  "first_seen [] = []"
| "first_seen (x # xs) = x # filter (\<lambda>y. y \<noteq> x) (first_seen xs)"

subsection \<open>Lemmas on the map model\<close>

lemma gomap_get_Nil [simp, go_simps]: "gomap_get [] k = 0"
  by (simp add: gomap_get_def)

lemma gomap_get_Cons [simp, go_simps]:
  "gomap_get ((k', v) # m) k = (if k' = k then v else gomap_get m k)"
  by (simp add: gomap_get_def)

lemma gomap_get_add [simp]:
  "gomap_get (gomap_add m k v) k' = (if k = k' then gomap_get m k + v else gomap_get m k')"
  by (induction m) auto

lemma keys_gomap_add_old [simp]:
  "k \<in> set (map fst m) \<Longrightarrow> map fst (gomap_add m k v) = map fst m"
  by (induction m k v rule: gomap_add.induct) auto

lemma keys_gomap_add_new [simp]:
  "k \<notin> set (map fst m) \<Longrightarrow> map fst (gomap_add m k v) = map fst m @ [k]"
  by (induction m) auto

lemma set_keys_gomap_add [simp]:
  "fst ` set (gomap_add m k v) = insert k (fst ` set m)"
proof -
  have "set (map fst (gomap_add m k v)) = insert k (set (map fst m))"
    by (cases "k \<in> set (map fst m)") auto
  then show ?thesis by simp
qed

lemma distinct_keys_gomap_add:
  "distinct (map fst m) \<Longrightarrow> distinct (map fst (gomap_add m k v))"
  by (cases "k \<in> set (map fst m)") auto

lemma gomap_get_notin: "k \<notin> set (map fst m) \<Longrightarrow> gomap_get m k = 0"
  by (induction m) auto

lemma set_gomap_range [simp]: "set (gomap_range r m) = set (map fst m)"
  by (simp add: gomap_range_def)

lemma distinct_gomap_range [simp]:
  "distinct (gomap_range r m) = distinct (map fst m)"
  by (simp add: gomap_range_def)

lemma mset_gomap_range [simp]: "mset (gomap_range r m) = mset (map fst m)"
  by (simp add: gomap_range_def)

lemma length_gomap_range [simp]: "length (gomap_range r m) = length m"
  by (simp add: gomap_range_def)

text \<open>The constant ranking iterates in first-insertion order.\<close>

lemma gomap_range_const [simp]: "gomap_range (\<lambda>_. c) m = map fst m"
  by (simp add: gomap_range_def sort_key_const)

lemma position_nth: "distinct ks \<Longrightarrow> i < length ks \<Longrightarrow> position ks (ks ! i) = i"
  by (induction ks arbitrary: i) (auto simp: nth_Cons split: nat.splits)

lemma position_less: "k \<in> set ks \<Longrightarrow> position ks k < length ks"
  by (induction ks) auto

lemma inj_on_position: "inj_on (position ks) (set ks)"
proof (rule inj_onI)
  fix a b assume "a \<in> set ks" "b \<in> set ks" "position ks a = position ks b"
  then show "a = b" by (induction ks) (auto split: if_splits)
qed

lemma map_position_self: "distinct ks \<Longrightarrow> map (position ks) ks = [0..<length ks]"
  by (rule nth_equalityI) (simp_all add: position_nth)

lemma gomap_range_realises:
  assumes "distinct ks" and "mset ks = mset (map fst m)"
  shows "gomap_range (position ks) m = ks"
proof -
  have "inj_on (position ks) (set (map fst m))"
    using assms(2) inj_on_position by (metis mset_eq_setD)
  moreover have "map (position ks) ks = [0..<length ks]"
    using assms(1) by (rule map_position_self)
  ultimately show ?thesis
    unfolding gomap_range_def
    by (intro sort_key_inj_key_eq) (simp_all add: assms(2))
qed

subsection \<open>Lemmas on the slot-filling loop\<close>

lemma fill_slots_Suc:
  "fill_slots (Suc n) xs out = (fill_slots n xs out)[n := xs ! n]"
  by (simp add: fill_slots_def)

lemma length_fill_slots [simp]: "length (fill_slots n xs out) = length out"
  by (induction n) (simp_all add: fill_slots_def)

lemma fold_pair:
  "fold (\<lambda>i (a, b). (f i a, g i b)) xs (a0, b0) = (fold f xs a0, fold g xs b0)"
  by (induction xs arbitrary: a0 b0) auto

lemma fill_slots_eq:
  assumes "n \<le> length xs" and "n \<le> length out"
  shows "fill_slots n xs out = take n xs @ drop n out"
  using assms
proof (induction n)
  case 0
  then show ?case by (simp add: fill_slots_def)
next
  case (Suc n)
  then have "fill_slots (Suc n) xs out = (take n xs @ drop n out)[n := xs ! n]"
    by (simp add: fill_slots_Suc)
  also have "\<dots> = take (Suc n) xs @ drop (Suc n) out"
    using Suc.prems by (simp add: list_update_append take_Suc_conv_app_nth
        upd_conv_take_nth_drop)
  finally show ?case .
qed

text \<open>The loop over \<open>min 5 (length xs)\<close> indices of a 5-slot default slice.\<close>

lemma fill_slots_replicate:
  assumes "n = min k (length xs)"
  shows "fill_slots n xs (replicate k d) = take k xs @ replicate (k - length xs) d"
  using assms by (simp add: fill_slots_eq min_def)

subsection \<open>Lemmas on 64-bit counters\<close>

lemma sint_int64_of_nat:
  assumes "n < 2 ^ 63"
  shows "sint (word_of_nat n :: int64) = int n"
proof -
  from assms have "int n < 2 ^ 63" by simp
  moreover have "(word_of_nat n :: int64) = word_of_int (int n)" by simp
  ultimately show ?thesis
    by (simp only: sint_sbintrunc') (simp add: signed_take_bit_int_eq_self)
qed

lemma sint_int64_of_int:
  "- (2 ^ 63) \<le> v \<Longrightarrow> v < 2 ^ 63 \<Longrightarrow> sint (word_of_int v :: int64) = v"
  by (simp only: sint_sbintrunc') (simp add: signed_take_bit_int_eq_self)

lemma unat_int64_of_nat:
  "n < 2 ^ 64 \<Longrightarrow> unat (word_of_nat n :: int64) = n"
  by (simp add: unat_of_nat)

lemma word_of_int_sint [simp]: "word_of_int (sint w) = (w :: 'a::len word)"
  by (metis scast_eq scast_id)

subsection \<open>Lemmas on stable sorting\<close>

lemma map_key_sort_key: "map f (sort_key f xs) = sort (map f xs)"
  by (rule properties_for_sort [symmetric]) (simp_all add: mset_map)

lemma sort_key_cong: "(\<And>x. x \<in> set xs \<Longrightarrow> f x = g x) \<Longrightarrow> sort_key f xs = sort_key g xs"
proof (induction xs)
  case (Cons x xs)
  have "\<And>ys. set ys \<subseteq> set xs \<Longrightarrow> insort_key f x ys = insort_key g x ys"
  proof -
    fix ys assume "set ys \<subseteq> set xs"
    then show "insort_key f x ys = insort_key g x ys"
      using Cons.prems by (induction ys) auto
  qed
  with Cons show ?case by simp
qed simp

lemma sort_mset_eq: "mset xs = mset ys \<Longrightarrow> sort xs = sort ys"
  by (metis properties_for_sort mset_sort sorted_sort)

subsection \<open>First-seen order\<close>

lemma set_first_seen [simp]: "set (first_seen xs) = set xs"
  by (induction xs) auto

lemma distinct_first_seen [simp]: "distinct (first_seen xs)"
  by (induction xs) (auto simp: distinct_filter)

lemma gomap_get_fold_add:
  "gomap_get (fold (\<lambda>(k, v) m. gomap_add m k v) kvs m) x =
     gomap_get m x + sum_list (map snd (filter (\<lambda>kv. fst kv = x) kvs))"
  by (induction kvs arbitrary: m) (auto simp: add.assoc)

lemma filter_notin_filter_neq:
  "x \<in> K \<Longrightarrow> filter (\<lambda>y. y \<notin> K) (filter (\<lambda>y. y \<noteq> x) l) = filter (\<lambda>y. y \<notin> K) l"
  by (induction l) auto

lemma keys_fold_add_pairs:
  "map fst (fold (\<lambda>(k, v) m. gomap_add m k v) kvs m) =
     map fst m @ filter (\<lambda>y. y \<notin> set (map fst m)) (first_seen (map fst kvs))"
proof (induction kvs arbitrary: m)
  case Nil
  then show ?case by simp
next
  case (Cons kv kvs)
  obtain k v where kv: "kv = (k, v)" by (cases kv)
  show ?case
  proof (cases "k \<in> set (map fst m)")
    case True
    with Cons.IH [of "gomap_add m k v"] kv show ?thesis
      by (simp add: filter_notin_filter_neq)
  next
    case False
    with Cons.IH [of "gomap_add m k v"] kv show ?thesis
      by (simp add: filter_filter conj_commute)
  qed
qed

lemma mset_eq_pair: "mset xs = mset [a, b] \<Longrightarrow> xs = [a, b] \<or> xs = [b, a]"
proof -
  assume m: "mset xs = mset [a, b]"
  then have "length xs = 2" by (metis size_mset length_Cons list.size(3) numeral_2_eq_2)
  then obtain x y where xs: "xs = [x, y]"
    by (metis (no_types, lifting) One_nat_def Suc_1 length_0_conv length_Suc_conv)
  show ?thesis
  proof (cases "x = a")
    case True
    with m xs have "mset [y] = mset [b]" by simp
    with True xs show ?thesis by simp
  next
    case False
    from m xs have "x \<in> set [a, b]" by (metis list.set_intros(1) set_mset_mset)
    with False have x: "x = b" by simp
    with m xs have "mset [y] = mset [a]" by (simp add: add_mset_commute)
    with x xs show ?thesis by simp
  qed
qed

end
