(* ===== verification/GoStrings.thy ===== *)
theory GoStrings
  imports Prelude
begin

text \<open>
  The two functions of Go's \<open>strings\<close> package that the line parser calls, on
  byte strings (a Go \<open>string\<close> is a byte sequence; a HOL \<open>char\<close> is a byte):
  \<^item> \<open>Split s c\<close> is \<open>strings.Split(s, sep)\<close> for a one-byte separator: the
    pieces between the occurrences of \<open>c\<close>, always one more than the number of
    occurrences, so \<open>Split '''' c = ['''']\<close>;
  \<^item> \<open>TrimSpace\<close> is \<open>strings.TrimSpace\<close> on its ASCII path: the six ASCII
    white-space bytes are dropped at both ends.  Go also trims the multi-byte UTF-8
    encodings of Unicode spaces (U+0085, U+00A0, U+2000 and others); the model does not,
    so it is exact for inputs whose ends are ASCII.
  \<open>Join\<close>, the inverse of \<open>Split\<close>, is \<open>strings.Join\<close> with a one-byte separator;
  the code does not call it, it states the round trip.
\<close>

fun Split :: "string \<Rightarrow> char \<Rightarrow> string list" where
  "Split [] c = [[]]"
| "Split (x # xs) c =
     (if x = c then [] # Split xs c
      else (let r = Split xs c in (x # hd r) # tl r))"

definition asciiSpace :: "char \<Rightarrow> bool" where
  "asciiSpace ch \<longleftrightarrow> of_char ch \<in> {9, 10, 11, 12, 13, 32 :: nat}"

definition TrimSpace :: "string \<Rightarrow> string" where
  "TrimSpace s = rev (dropWhile asciiSpace (rev (dropWhile asciiSpace s)))"

fun Join :: "string list \<Rightarrow> char \<Rightarrow> string" where
  "Join [] c = []"
| "Join [w] c = w"
| "Join (w # ws) c = w @ c # Join ws c"

subsection \<open>strings.Split\<close>

lemma Split_not_Nil [simp]: "Split s c \<noteq> []"
  by (induction s) (auto simp: Let_def)

lemma length_Split [simp]: "length (Split s c) = Suc (count_list s c)"
  by (induction s) (auto simp: Let_def)

lemma Split_pieces_no_sep: "w \<in> set (Split s c) \<Longrightarrow> c \<notin> set w"
proof (induction s arbitrary: w)
  case Nil
  then show ?case by simp
next
  case (Cons x xs)
  obtain r rs where r: "Split xs c = r # rs"
    using Split_not_Nil by (cases "Split xs c") auto
  show ?case
  proof (cases "x = c")
    case True
    with Cons show ?thesis by auto
  next
    case False
    with Cons.prems r have "w = x # r \<or> w \<in> set rs" by simp
    with False Cons.IH r show ?thesis by auto
  qed
qed

text \<open>A prefix without the separator becomes the first piece.\<close>

lemma Split_append_sep:
  "c \<notin> set a \<Longrightarrow> Split (a @ c # b) c = a # Split b c"
  by (induction a) (auto simp: Let_def)

lemma Split_append_nosep:
  "c \<notin> set a \<Longrightarrow> Split (a @ b) c = (a @ hd (Split b c)) # tl (Split b c)"
  by (induction a) (auto simp: Let_def)

lemma Split_no_sep: "c \<notin> set a \<Longrightarrow> Split a c = [a]"
  by (induction a) (auto simp: Let_def)

lemma Join_Split: "Join (Split s c) c = s"
proof (induction s)
  case Nil
  then show ?case by simp
next
  case (Cons x xs)
  obtain r rs where r: "Split xs c = r # rs"
    using Split_not_Nil by (cases "Split xs c") auto
  show ?case
  proof (cases "x = c")
    case True
    with Cons.IH r show ?thesis by (cases rs) auto
  next
    case False
    with Cons.IH r show ?thesis by (cases rs) auto
  qed
qed

lemma Split_Join:
  "ws \<noteq> [] \<Longrightarrow> (\<forall>w \<in> set ws. c \<notin> set w) \<Longrightarrow> Split (Join ws c) c = ws"
proof (induction ws c rule: Join.induct)
  case (3 w v vs)
  then show ?case by (simp add: Split_append_sep)
qed (simp_all add: Split_no_sep)

lemma hd_Split: "hd (Split s c) = takeWhile (\<lambda>x. x \<noteq> c) s"
  by (induction s) (auto simp: Let_def)

lemma nth0_Split: "Split s c ! 0 = takeWhile (\<lambda>x. x \<noteq> c) s"
  by (simp add: hd_Split [symmetric] hd_conv_nth)

lemma Split_piece_subset: "w \<in> set (Split s c) \<Longrightarrow> set w \<subseteq> set s"
proof (induction s arbitrary: w)
  case Nil
  then show ?case by simp
next
  case (Cons x xs)
  obtain r rs where r: "Split xs c = r # rs"
    using Split_not_Nil by (cases "Split xs c") auto
  from Cons.prems r have "w = [] \<or> w = x # r \<or> w \<in> set (Split xs c)"
    by (auto split: if_splits)
  with Cons.IH r show ?case by fastforce
qed


lemma nth_Split_no_sep: "i < length (Split s c) \<Longrightarrow> c \<notin> set (Split s c ! i)"
  by (meson Split_pieces_no_sep nth_mem)

lemma nth_Split_subset: "i < length (Split s c) \<Longrightarrow> set (Split s c ! i) \<subseteq> set s"
  by (meson Split_piece_subset nth_mem)

subsection \<open>strings.TrimSpace\<close>

lemma TrimSpace_prefix: "dropWhile asciiSpace s = TrimSpace s @ rev (takeWhile asciiSpace (rev (dropWhile asciiSpace s)))"
proof -
  let ?d = "dropWhile asciiSpace s"
  have "?d = rev (dropWhile asciiSpace (rev ?d)) @ rev (takeWhile asciiSpace (rev ?d))"
    by (metis rev_append rev_rev_ident takeWhile_dropWhile_id)
  then show ?thesis by (simp add: TrimSpace_def)
qed

lemma TrimSpace_no_leading: "TrimSpace s = x # xs \<Longrightarrow> \<not> asciiSpace x"
proof -
  assume "TrimSpace s = x # xs"
  with TrimSpace_prefix [of s] obtain t where "dropWhile asciiSpace s = x # t"
    by auto
  then show ?thesis by (simp add: dropWhile_eq_Cons_conv)
qed

lemma TrimSpace_no_trailing: "TrimSpace s = xs @ [x] \<Longrightarrow> \<not> asciiSpace x"
proof -
  assume eq: "TrimSpace s = xs @ [x]"
  then have "dropWhile asciiSpace (rev (dropWhile asciiSpace s)) = x # rev xs"
    by (simp add: TrimSpace_def rev_swap)
  then show ?thesis by (metis dropWhile_eq_Cons_conv)
qed

lemma TrimSpace_id:
  assumes "\<forall>x xs. s = x # xs \<longrightarrow> \<not> asciiSpace x"
    and "\<forall>x xs. s = xs @ [x] \<longrightarrow> \<not> asciiSpace x"
  shows "TrimSpace s = s"
proof (cases s rule: rev_cases)
  case Nil
  then show ?thesis by (simp add: TrimSpace_def)
next
  case (snoc ys y)
  from assms(1) have "dropWhile asciiSpace s = s"
    by (cases s) auto
  moreover from snoc assms(2) have "dropWhile asciiSpace (rev s) = rev s"
    by simp
  ultimately show ?thesis by (simp add: TrimSpace_def)
qed

lemma set_TrimSpace: "set (TrimSpace s) \<subseteq> set s"
proof
  fix x assume "x \<in> set (TrimSpace s)"
  then have "x \<in> set (dropWhile asciiSpace (rev (dropWhile asciiSpace s)))"
    by (simp add: TrimSpace_def)
  then show "x \<in> set s" by (auto dest!: set_dropWhileD)
qed

text \<open>Padding a trimmed string with white space is undone by \<open>TrimSpace\<close>.\<close>

lemma TrimSpace_pad:
  assumes "TrimSpace s = s" and "\<forall>c \<in> set a. asciiSpace c" and "\<forall>c \<in> set b. asciiSpace c"
  shows "TrimSpace (a @ s @ b) = s"
proof (cases "s = []")
  case True
  with assms(2,3) show ?thesis
    by (auto simp: TrimSpace_def dropWhile_eq_Nil_conv dest: set_dropWhileD)
next
  case False
  then obtain x xs where s: "s = x # xs" by (cases s) auto
  obtain y ys where s': "s = ys @ [y]" using False by (cases s rule: rev_cases) auto
  have x: "\<not> asciiSpace x" using assms(1) s TrimSpace_no_leading by metis
  have y: "\<not> asciiSpace y" using assms(1) s' TrimSpace_no_trailing by metis
  have "dropWhile asciiSpace (a @ s @ b) = s @ b"
    using assms(2) x s by (simp add: dropWhile_append3)
  moreover have "dropWhile asciiSpace (rev (s @ b)) = rev s"
    using assms(3) y s' by (simp add: dropWhile_append3)
  ultimately show ?thesis by (simp add: TrimSpace_def)
qed

lemma TrimSpace_space_left: "TrimSpace s = s \<Longrightarrow> TrimSpace (CHR '' '' # s) = s"
  using TrimSpace_pad [of s "[CHR '' '']" "[]"] by (simp add: asciiSpace_def)

lemma TrimSpace_space_right: "TrimSpace s = s \<Longrightarrow> TrimSpace (s @ [CHR '' '']) = s"
  using TrimSpace_pad [of s "[]" "[CHR '' '']"] by (simp add: asciiSpace_def)

lemma TrimSpace_space_both: "TrimSpace s = s \<Longrightarrow> TrimSpace (CHR '' '' # s @ [CHR '' '']) = s"
  using TrimSpace_pad [of s "[CHR '' '']" "[CHR '' '']"] by (simp add: asciiSpace_def)

lemma TrimSpace_Cons_space: "asciiSpace c \<Longrightarrow> TrimSpace (c # s) = TrimSpace s"
  by (simp add: TrimSpace_def)

lemma TrimSpace_idem [simp]: "TrimSpace (TrimSpace s) = TrimSpace s"
  by (rule TrimSpace_id) (auto dest: TrimSpace_no_leading TrimSpace_no_trailing)

end
