(* ===== verification/GoStrconv.thy ===== *)
theory GoStrconv
  imports Prelude
begin

text \<open>
  Go's \<open>strconv.ParseInt(s, base, bitSize)\<close> and the \<open>ParseUint\<close> it calls, as the
  Go library implements them, on byte strings.  The line parser calls
  \<open>ParseInt(s, 0, 16)\<close>: base 0 reads a sign, then a base prefix (\<open>0b\<close>, \<open>0o\<close>,
  \<open>0x\<close>, or a bare leading \<open>0\<close> for octal), allows \<open>_\<close> between digits, and
  range-checks against 16 bits.  Like Go, both functions return the value together with
  an optional error; on a range error the value is the clamped bound.
  \<open>Itoa\<close> is \<open>strconv.Itoa\<close> on naturals; the code does not call it, it states the
  round trip \<open>ParseInt_Itoa\<close>.
\<close>

unbundle bit_operations_syntax

datatype num_error = ErrSyntax | ErrRange | ErrBase | ErrBitSize

text \<open>Go's \<open>lower(c) = c | ('x' - 'X')\<close>, on byte values.\<close>

definition lower :: "char \<Rightarrow> nat" where
  "lower c = of_char c OR 32"

definition digitVal :: "char \<Rightarrow> nat option" where
  "digitVal c =
     (let n = of_char c :: nat; l = lower c in
      if 48 \<le> n \<and> n \<le> 57 then Some (n - 48)
      else if 97 \<le> l \<and> l \<le> 122 then Some (l - 97 + 10)
      else None)"

text \<open>The base prefix of \<open>ParseUint\<close> with base 0.\<close>

definition base_prefix :: "string \<Rightarrow> nat \<times> string" where
  "base_prefix s =
     (if s \<noteq> [] \<and> hd s = CHR ''0'' then
        (if 3 \<le> length s \<and> lower (s ! 1) = of_char CHR ''b'' then (2, drop 2 s)
         else if 3 \<le> length s \<and> lower (s ! 1) = of_char CHR ''o'' then (8, drop 2 s)
         else if 3 \<le> length s \<and> lower (s ! 1) = of_char CHR ''x'' then (16, drop 2 s)
         else (8, drop 1 s))
      else (10, s))"

text \<open>
  The digit loop of \<open>ParseUint\<close>: \<open>Inl (v, e)\<close> is an early return with value and
  error, \<open>Inr (n, us)\<close> the value and whether an underscore was skipped.  The loop
  works on \<open>uint64\<close>: \<open>n \<ge> cutoff\<close> is the overflow of \<open>n * base\<close>, and the sum
  \<open>n * base + d\<close> overflows exactly when it reaches \<open>2^64\<close>.
\<close>

fun ParseUint_loop ::
  "bool \<Rightarrow> nat \<Rightarrow> nat \<Rightarrow> nat \<Rightarrow> bool \<Rightarrow> nat \<Rightarrow> string \<Rightarrow> (nat \<times> num_error) + (nat \<times> bool)" where
  "ParseUint_loop base0 base cutoff maxVal us n [] = Inr (n, us)"
| "ParseUint_loop base0 base cutoff maxVal us n (c # cs) =
     (if c = CHR ''_'' \<and> base0 then ParseUint_loop base0 base cutoff maxVal True n cs
      else case digitVal c of
        None \<Rightarrow> Inl (0, ErrSyntax)
      | Some d \<Rightarrow>
          if base \<le> d then Inl (0, ErrSyntax)
          else if cutoff \<le> n then Inl (maxVal, ErrRange)
          else if 2 ^ 64 \<le> n * base + d \<or> maxVal < n * base + d then Inl (maxVal, ErrRange)
          else ParseUint_loop base0 base cutoff maxVal us (n * base + d) cs)"

text \<open>\<open>underscoreOK\<close>: underscores only between digits or after a base prefix.\<close>

datatype saw = SawStart | SawDigit | SawUnderscore | SawOther

fun underscore_scan :: "bool \<Rightarrow> saw \<Rightarrow> string \<Rightarrow> bool" where
  "underscore_scan hex st [] = (st \<noteq> SawUnderscore)"
| "underscore_scan hex st (c # cs) =
     (if (48 \<le> (of_char c :: nat) \<and> (of_char c :: nat) \<le> 57)
         \<or> hex \<and> 97 \<le> lower c \<and> lower c \<le> 102
      then underscore_scan hex SawDigit cs
      else if c = CHR ''_'' then
        (if st \<noteq> SawDigit then False else underscore_scan hex SawUnderscore cs)
      else if st = SawUnderscore then False
      else underscore_scan hex SawOther cs)"

definition underscoreOK :: "string \<Rightarrow> bool" where
  "underscoreOK s0 =
     (let s = (if s0 \<noteq> [] \<and> (hd s0 = CHR ''-'' \<or> hd s0 = CHR ''+'') then tl s0 else s0) in
      if 2 \<le> length s \<and> hd s = CHR ''0'' \<and> lower (s ! 1) \<in> {of_char CHR ''b'', of_char CHR ''o'', of_char CHR ''x''}
      then underscore_scan (lower (s ! 1) = of_char CHR ''x'') SawDigit (drop 2 s)
      else underscore_scan False SawStart s)"

definition maxUint64 :: nat where
  "maxUint64 = 2 ^ 64 - 1"

definition ParseUint :: "string \<Rightarrow> nat \<Rightarrow> nat \<Rightarrow> nat \<times> num_error option" where
  "ParseUint s0 base bitSize =
     (if s0 = [] then (0, Some ErrSyntax)
      else if \<not> (base = 0 \<or> 2 \<le> base \<and> base \<le> 36) then (0, Some ErrBase)
      else
        let base0 = (base = 0);
            (base', s) = (if base0 then base_prefix s0 else (base, s0));
            bitSize' = (if bitSize = 0 then 64 else bitSize)
        in if 64 < bitSize' then (0, Some ErrBitSize)
        else
          let cutoff = maxUint64 div base' + 1;
              maxVal = 2 ^ bitSize' - 1
          in case ParseUint_loop base0 base' cutoff maxVal False 0 s of
               Inl (v, e) \<Rightarrow> (v, Some e)
             | Inr (n, us) \<Rightarrow>
                 if us \<and> \<not> underscoreOK s0 then (0, Some ErrSyntax) else (n, None))"

definition ParseInt :: "string \<Rightarrow> nat \<Rightarrow> nat \<Rightarrow> int \<times> num_error option" where
  "ParseInt s0 base bitSize =
     (if s0 = [] then (0, Some ErrSyntax)
      else
        let (neg, s) = (if hd s0 = CHR ''+'' then (False, tl s0)
                        else if hd s0 = CHR ''-'' then (True, tl s0) else (False, s0));
            (un, err) = ParseUint s base bitSize
        in if err \<noteq> None \<and> err \<noteq> Some ErrRange then (0, err)
        else
          let bitSize' = (if bitSize = 0 then 64 else bitSize);
              cutoff = (2 :: nat) ^ (bitSize' - 1)
          in if \<not> neg \<and> cutoff \<le> un then (int cutoff - 1, Some ErrRange)
          else if neg \<and> cutoff < un then (- int cutoff, Some ErrRange)
          else (if neg then - int un else int un, None))"

fun Itoa :: "nat \<Rightarrow> string" where
  "Itoa n = (if n < 10 then [char_of (48 + n)] else Itoa (n div 10) @ [char_of (48 + n mod 10)])"

declare Itoa.simps [simp del]

definition isDigit :: "char \<Rightarrow> bool" where
  "isDigit c \<longleftrightarrow> 48 \<le> (of_char c :: nat) \<and> (of_char c :: nat) \<le> 57"

text \<open>The value of a string of decimal digits appended to an accumulator.\<close>

definition dec_acc :: "nat \<Rightarrow> string \<Rightarrow> nat" where
  "dec_acc a ds = foldl (\<lambda>a c. a * 10 + (of_char c - 48)) a ds"

subsection \<open>Decimal round trip\<close>

lemma char_of_zero_digit: "char_of (48::nat) = CHR ''0''"
  using char_of_char [of "CHR ''0''"] by simp

lemma of_char_digit: "k < 10 \<Longrightarrow> (of_char (char_of (48 + k)) :: nat) = 48 + k"
  by simp

lemma Itoa_digits: "\<forall>c \<in> set (Itoa n). isDigit c"
proof (induction n rule: Itoa.induct)
  case (1 n)
  then show ?case
    by (subst Itoa.simps) (auto simp: isDigit_def of_char_digit)
qed

lemma dec_acc_Itoa: "dec_acc a (Itoa n) = a * 10 ^ length (Itoa n) + n"
proof (induction n arbitrary: a rule: Itoa.induct)
  case (1 n)
  show ?case
  proof (cases "n < 10")
    case True
    then have "Itoa n = [char_of (48 + n)]" by (subst Itoa.simps) simp
    with True show ?thesis by (simp add: dec_acc_def of_char_digit)
  next
    case False
    then have "Itoa n = Itoa (n div 10) @ [char_of (48 + n mod 10)]"
      by (subst Itoa.simps) simp
    with False "1.IH" show ?thesis
      by (simp add: dec_acc_def of_char_digit algebra_simps)
  qed
qed

lemma dec_acc_mono: "a \<le> dec_acc a ds"
  unfolding dec_acc_def
proof (induction ds arbitrary: a)
  case (Cons c cs)
  have "a \<le> a * 10 + (of_char c - 48)" by simp
  also have "\<dots> \<le> foldl (\<lambda>a c. a * 10 + (of_char c - 48)) (a * 10 + (of_char c - 48)) cs"
    by (rule Cons.IH)
  finally show ?case by simp
qed simp

lemma digitVal_digit: "isDigit c \<Longrightarrow> digitVal c = Some (of_char c - 48)"
  by (simp add: digitVal_def isDigit_def)

lemma ParseUint_loop_decimal:
  assumes "\<forall>c \<in> set ds. isDigit c" and "dec_acc a ds \<le> maxVal" and "maxVal < cutoff"
    and "maxVal < 2 ^ 64"
  shows "ParseUint_loop b0 10 cutoff maxVal us a ds = Inr (dec_acc a ds, us)"
  using assms
proof (induction ds arbitrary: a)
  case Nil
  then show ?case by (simp add: dec_acc_def)
next
  case (Cons c cs)
  let ?d = "of_char c - 48 :: nat"
  have dig: "isDigit c" and "c \<noteq> CHR ''_''" using Cons.prems(1) by (auto simp: isDigit_def)
  have acc: "dec_acc a (c # cs) = dec_acc (a * 10 + ?d) cs" by (simp add: dec_acc_def)
  have le: "a * 10 + ?d \<le> maxVal"
    using Cons.prems(2) dec_acc_mono [of "a * 10 + ?d" cs] acc by linarith
  have "?d < 10" using dig unfolding isDigit_def by linarith
  moreover have "a < cutoff" using le Cons.prems(3) by linarith
  moreover have "\<not> (2 ^ 64 \<le> a * 10 + ?d \<or> maxVal < a * 10 + ?d)"
    using le Cons.prems(4) by linarith
  moreover have "ParseUint_loop b0 10 cutoff maxVal us (a * 10 + ?d) cs = Inr (dec_acc a (c # cs), us)"
    using Cons.IH [of "a * 10 + ?d"] Cons.prems acc by simp
  ultimately show ?case
    using \<open>c \<noteq> CHR ''_''\<close> by (simp add: digitVal_digit [OF dig] mult.commute)
qed

lemma Itoa_hd_not_zero: "n \<noteq> 0 \<Longrightarrow> hd (Itoa n) \<noteq> CHR ''0''"
proof (induction n rule: Itoa.induct)
  case (1 n)
  show ?case
  proof (cases "n < 10")
    case True
    have "char_of (48 + n) \<noteq> CHR ''0''"
    proof
      assume "char_of (48 + n) = CHR ''0''"
      then have "(of_char (char_of (48 + n)) :: nat) = of_char CHR ''0''" by (rule arg_cong)
      with True "1.prems" show False by (simp add: of_char_digit)
    qed
    with True show ?thesis by (subst Itoa.simps) simp
  next
    case False
    have "Itoa (n div 10) \<noteq> []" by (subst Itoa.simps) simp
    with False "1.IH" show ?thesis by (subst Itoa.simps) simp
  qed
qed

lemma Itoa_hd_sign: "hd (Itoa n) \<noteq> CHR ''+'' \<and> hd (Itoa n) \<noteq> CHR ''-''"
proof -
  have "Itoa n \<noteq> []" by (subst Itoa.simps) simp
  then have "isDigit (hd (Itoa n))" using Itoa_digits [of n] by simp
  then show ?thesis by (auto simp: isDigit_def)
qed

lemma Itoa_not_Nil [simp]: "Itoa n \<noteq> []"
  by (subst Itoa.simps) simp

theorem ParseInt_Itoa:
  assumes "n < 2 ^ 15"
  shows "ParseInt (Itoa n) 0 16 = (int n, None)"
proof -
  have val: "dec_acc 0 (Itoa n) = n" by (simp add: dec_acc_Itoa)
  have loop: "ParseUint_loop True 10 (maxUint64 div 10 + 1) (2 ^ 16 - 1) False 0 (Itoa n) = Inr (n, False)"
    using ParseUint_loop_decimal [OF Itoa_digits] assms val
    by (simp add: maxUint64_def)
  show ?thesis
  proof (cases "n = 0")
    case True
    then have "Itoa n = ''0''" by (simp add: Itoa.simps char_of_zero_digit)
    then show ?thesis using True by (simp add: ParseInt_def ParseUint_def base_prefix_def)
  next
    case False
    then have "base_prefix (Itoa n) = (10, Itoa n)"
      using Itoa_hd_not_zero by (simp add: base_prefix_def)
    then show ?thesis
      using loop assms Itoa_hd_sign [of n] by (simp add: ParseInt_def ParseUint_def)
  qed
qed


text \<open>
  A successful \<open>ParseInt\<close> returns a value in the signed range of the bit size.
\<close>

lemma ParseInt_bounds:
  assumes "ParseInt s base bitSize = (v, None)" and "0 < bitSize"
  shows "- (2 ^ (bitSize - 1)) \<le> v \<and> v < 2 ^ (bitSize - 1)"
proof -
  obtain neg s' where sign: "(if hd s = CHR ''+'' then (False, tl s)
      else if hd s = CHR ''-'' then (True, tl s) else (False, s)) = (neg, s')"
    by (cases "if hd s = CHR ''+'' then (False, tl s)
      else if hd s = CHR ''-'' then (True, tl s) else (False, s)") auto
  obtain un err where pu: "ParseUint s' base bitSize = (un, err)" by fastforce
  from assms(1) have ne: "s \<noteq> []" by (auto simp: ParseInt_def)
  let ?c = "(2::nat) ^ (bitSize - 1)"
  from assms sign pu ne have res: "(if \<not> neg \<and> ?c \<le> un then (int ?c - 1, Some ErrRange)
      else if neg \<and> ?c < un then (- int ?c, Some ErrRange)
      else (if neg then - int un else int un, None)) = (v, None)"
    by (auto simp: ParseInt_def split: if_splits)
  have c: "int ?c = 2 ^ (bitSize - 1)" and pos: "(0::int) < 2 ^ (bitSize - 1)" by simp_all
  from res consider (nonneg) "\<not> neg" "un < ?c" "v = int un"
    | (negative) "neg" "un \<le> ?c" "v = - int un"
    by (auto split: if_splits)
  then show ?thesis
  proof cases
    case nonneg
    then have "int un < int ?c" by (simp only: of_nat_less_iff)
    moreover have "0 \<le> int un" by simp
    ultimately show ?thesis using nonneg c pos by linarith
  next
    case negative
    then have "int un \<le> int ?c" by (simp only: of_nat_le_iff)
    moreover have "0 \<le> int un" by simp
    ultimately show ?thesis using negative c pos by linarith
  qed
qed


lemma ParseInt_nonneg:
  assumes "CHR ''-'' \<notin> set s" and "ParseInt s base bitSize = (v, None)"
  shows "0 \<le> v"
proof -
  from assms(2) have ne: "s \<noteq> []" by (auto simp: ParseInt_def)
  with assms(1) have "hd s \<noteq> CHR ''-''" by (metis hd_in_set)
  with assms(2) ne show ?thesis
    by (auto simp: ParseInt_def Let_def split: if_splits prod.splits)
qed

end
