(* ===== verification/LineParser.thy ===== *)
theory LineParser
  imports GoStrings GoStrconv
begin

text \<open>
  The line parser, \<open>parseLogMessage\<close> of \<open>src/main.go\<close> (lines 42--72), and the
  \<open>LogMessage\<close> struct it fills (lines 17--24).  A line has the shape
  \<open>timestamp | severity | module:function:lineNumber - message\<close>.  The parser splits
  on every \<open>|\<close> and demands exactly three pieces, splits the third on every \<open>:\<close>
  and keeps only pieces 0, 1 and 2, splits piece 2 on every \<open>-\<close> and keeps only
  pieces 0 and 1, trims each field, and reads the line number with
  \<open>strconv.ParseInt(_, 0, 16)\<close>.  A Go error return is \<open>Inl\<close> here; the Go code also
  returns the half-filled struct, which its only caller discards.
\<close>

record LogMessage =
  timestamp :: string
  severity :: string
  module :: string
  function' :: string
  lineNumber :: int64
  message :: string

datatype parse_error = EmptyMessage | MalformedMessage | LineNumberError num_error

definition parseLogMessage :: "string \<Rightarrow> parse_error + LogMessage" where
  "parseLogMessage logRow =
     (let leftParts = Split logRow CHR ''|'' in
      if length leftParts \<noteq> 3 then Inl EmptyMessage else
      let ts = TrimSpace (leftParts ! 0);
          sev = TrimSpace (leftParts ! 1) in
      if sev = [] then Inl MalformedMessage else
      let rightParts = Split (leftParts ! 2) CHR '':'' in
      if length rightParts < 3 then Inl MalformedMessage else
      let md = TrimSpace (rightParts ! 0);
          fn = TrimSpace (rightParts ! 1);
          messageRaw = Split (rightParts ! 2) CHR ''-'' in
      if length messageRaw < 2 then Inl MalformedMessage else
      let lineNumRaw = Split (rightParts ! 2) CHR ''-'' ! 0;
          msg = Split (rightParts ! 2) CHR ''-'' ! 1;
          (lineNum, err) = ParseInt (TrimSpace lineNumRaw) 0 16
      in case err of
           Some e \<Rightarrow> Inl (LineNumberError e)
         | None \<Rightarrow> Inr \<lparr>timestamp = ts, severity = sev, module = md, function' = fn,
                        lineNumber = word_of_int lineNum, message = TrimSpace msg\<rparr>)"

text \<open>
  The writer side, from the repository's README: Python's logging format
  \<open>%(asctime)s | %(levelname)s | %(name)s:%(funcName)s:%(lineno)d - %(message)s\<close>
  (the level padding is white space, which the parser trims).
\<close>

definition logLine :: "string \<Rightarrow> string \<Rightarrow> string \<Rightarrow> string \<Rightarrow> nat \<Rightarrow> string \<Rightarrow> string" where
  "logLine ts sev md fn n msg =
     ts @ '' | '' @ sev @ '' | '' @ md @ '':'' @ fn @ '':'' @ Itoa n @ '' - '' @ msg"

text \<open>A field that is already trimmed and free of the given separators.\<close>

definition field_ok :: "string \<Rightarrow> string \<Rightarrow> bool" where
  "field_ok seps s \<longleftrightarrow> TrimSpace s = s \<and> (\<forall>c \<in> set seps. c \<notin> set s)"

text \<open>
  The records the parser can produce: trimmed fields free of the separators that
  delimit them, a non-empty severity, and a line number in \<open>[0, 2^15)\<close>: the
  16-bit range, without its negative half, since a \<open>-\<close> always ends the number.
\<close>

definition wf_LogMessage :: "LogMessage \<Rightarrow> bool" where
  "wf_LogMessage r \<longleftrightarrow>
     field_ok ''|'' (timestamp r) \<and> severity r \<noteq> [] \<and> field_ok ''|'' (severity r) \<and>
     field_ok ''|:'' (module r) \<and> field_ok ''|:'' (function' r) \<and>
     field_ok ''|:-'' (message r) \<and> 0 \<le> sint (lineNumber r) \<and> sint (lineNumber r) < 2 ^ 15"

subsection \<open>Lemmas\<close>

lemmas lp_eval = parseLogMessage_def ParseInt_def ParseUint_def base_prefix_def digitVal_def
  lower_def maxUint64_def underscoreOK_def TrimSpace_def asciiSpace_def field_ok_def

lemma Itoa_no_sep: "c \<in> set (Itoa n) \<Longrightarrow> isDigit c"
  using Itoa_digits by blast

lemma Itoa_field_ok: "field_ok ''|:-'' (Itoa n)"
proof -
  have "\<not> isDigit CHR ''|''" "\<not> isDigit CHR '':''" "\<not> isDigit CHR ''-''"
    by (simp_all add: isDigit_def)
  moreover have "TrimSpace (Itoa n) = Itoa n"
  proof (rule TrimSpace_id)
    have nd: "\<And>c. isDigit c \<Longrightarrow> \<not> asciiSpace c"
      by (auto simp: isDigit_def asciiSpace_def)
    show "\<forall>x xs. Itoa n = x # xs \<longrightarrow> \<not> asciiSpace x"
      by (metis nd Itoa_no_sep list.set_intros(1))
    show "\<forall>x xs. Itoa n = xs @ [x] \<longrightarrow> \<not> asciiSpace x"
      by (metis nd Itoa_no_sep in_set_conv_decomp)
  qed
  ultimately show ?thesis using Itoa_no_sep unfolding field_ok_def by auto
qed

lemma field_ok_TrimSpace: "\<forall>c \<in> set seps. c \<notin> set p \<Longrightarrow> field_ok seps (TrimSpace p)"
  using set_TrimSpace by (fastforce simp: field_ok_def)

text \<open>A piece of a split, trimmed, is a well-formed field when the other separators do not
  occur in the split string.\<close>

lemma field_ok_Split:
  "i < length (Split s c) \<Longrightarrow> \<forall>d \<in> set seps. d = c \<or> d \<notin> set s \<Longrightarrow>
   field_ok seps (TrimSpace (Split s c ! i))"
proof (rule field_ok_TrimSpace)
  assume i: "i < length (Split s c)" and seps: "\<forall>d \<in> set seps. d = c \<or> d \<notin> set s"
  have "c \<notin> set (Split s c ! i)" "set (Split s c ! i) \<subseteq> set s"
    using i by (simp_all add: nth_Split_no_sep nth_Split_subset)
  with seps show "\<forall>d \<in> set seps. d \<notin> set (Split s c ! i)" by fastforce
qed

text \<open>The shape of a successful parse: the three splits passed their guards and
  \<open>ParseInt\<close> succeeded.\<close>

lemma parseLogMessage_InrE:
  assumes "parseLogMessage row = Inr r"
  obtains L R D v where "L = Split row CHR ''|''" and "R = Split (L ! 2) CHR '':''"
    and "D = Split (R ! 2) CHR ''-''"
    and "length L = 3" "TrimSpace (L ! 1) \<noteq> []" "3 \<le> length R" "2 \<le> length D"
    and "ParseInt (TrimSpace (D ! 0)) 0 16 = (v, None)"
    and "r = \<lparr>timestamp = TrimSpace (L ! 0), severity = TrimSpace (L ! 1),
                module = TrimSpace (R ! 0), function' = TrimSpace (R ! 1),
                lineNumber = word_of_int v, message = TrimSpace (D ! 1)\<rparr>"
  using assms unfolding parseLogMessage_def Let_def
  by (auto split: if_splits prod.splits option.splits intro!: that)

lemma parseLogMessage_logLine_general:
  assumes "field_ok ''|'' ts" and "field_ok ''|'' sev" and "sev \<noteq> []"
    and "field_ok ''|:'' md" and "field_ok ''|:'' fn" and "CHR ''|'' \<notin> set msg"
    and "n < 2 ^ 15"
  shows "parseLogMessage (logLine ts sev md fn n msg) =
    Inr \<lparr>timestamp = ts, severity = sev, module = md, function' = fn, lineNumber = of_nat n,
         message = TrimSpace (takeWhile (\<lambda>c. c \<noteq> CHR '':'' \<and> c \<noteq> CHR ''-'') msg)\<rparr>"
proof -
  have num: "field_ok ''|:-'' (Itoa n)" by (rule Itoa_field_ok)
  note ok = assms(1,2,4,5) num
  let ?h = "hd (Split msg CHR '':'')"
  have left: "Split (logLine ts sev md fn n msg) CHR ''|'' =
      [ts @ '' '', '' '' @ sev @ '' '', '' '' @ md @ '':'' @ fn @ '':'' @ Itoa n @ '' - '' @ msg]"
    using ok assms(6) by (simp add: logLine_def field_ok_def Split_append_nosep Split_no_sep)
  have right: "Split ('' '' @ md @ '':'' @ fn @ '':'' @ Itoa n @ '' - '' @ msg) CHR '':'' =
      ['' '' @ md, fn, Itoa n @ '' - '' @ ?h] @ tl (Split msg CHR '':'')"
    using ok by (simp add: field_ok_def Split_append_nosep Let_def)
  have dash: "Split (Itoa n @ '' - '' @ ?h) CHR ''-'' =
      [Itoa n @ '' '', '' '' @ hd (Split ?h CHR ''-'')] @ tl (Split ?h CHR ''-'')"
    using ok by (simp add: field_ok_def Split_append_nosep Let_def)
  have cut: "hd (Split ?h CHR ''-'') = takeWhile (\<lambda>c. c \<noteq> CHR '':'' \<and> c \<noteq> CHR ''-'') msg"
    by (simp add: hd_Split takeWhile_takeWhile conj_commute)
  have parse: "ParseInt (Itoa n) 0 16 = (int n, None)"
    using assms(7) by (rule ParseInt_Itoa)
  have "(word_of_int (int n) :: int64) = of_nat n" by simp
  then show ?thesis
    using ok assms(3) left right dash cut parse
    by (simp add: parseLogMessage_def field_ok_def TrimSpace_space_left TrimSpace_space_right
        TrimSpace_space_both TrimSpace_Cons_space asciiSpace_def)
qed

text \<open>
  C1: a line written in the repository's log format, with trimmed fields
  free of the separators that delimit them and a line number below \<open>2^15\<close>, is parsed
  back into exactly the fields it was written from.
\<close>

theorem parseLogMessage_logLine:
  assumes "field_ok ''|'' ts" and "field_ok ''|'' sev" and "sev \<noteq> []"
    and "field_ok ''|:'' md" and "field_ok ''|:'' fn" and "field_ok ''|:-'' msg"
    and "n < 2 ^ 15"
  shows "parseLogMessage (logLine ts sev md fn n msg) =
    Inr \<lparr>timestamp = ts, severity = sev, module = md, function' = fn,
         lineNumber = of_nat n, message = msg\<rparr>"
proof -
  from assms(6) have tw: "takeWhile (\<lambda>c. c \<noteq> CHR '':'' \<and> c \<noteq> CHR ''-'') msg = msg"
    and tm: "TrimSpace msg = msg" and bar: "CHR ''|'' \<notin> set msg"
    by (auto simp: field_ok_def)
  from parseLogMessage_logLine_general [OF assms(1-5) bar assms(7)] show ?thesis
    by (simp only: tw tm)
qed

text \<open>
  C2: every record the parser returns is well formed: its fields are trimmed
  and free of their delimiters, the severity is non-empty, and the line number lies in
  \<open>[0, 2^15)\<close>.
\<close>

theorem parseLogMessage_wf:
  assumes "parseLogMessage row = Inr r"
  shows "wf_LogMessage r"
  using assms
proof (rule parseLogMessage_InrE)
  fix L R D v
  assume L: "L = Split row CHR ''|''" and R: "R = Split (L ! 2) CHR '':''"
    and D: "D = Split (R ! 2) CHR ''-''"
    and len: "length L = 3" "TrimSpace (L ! 1) \<noteq> []" "3 \<le> length R" "2 \<le> length D"
    and pi: "ParseInt (TrimSpace (D ! 0)) 0 16 = (v, None)"
    and r: "r = \<lparr>timestamp = TrimSpace (L ! 0), severity = TrimSpace (L ! 1),
                module = TrimSpace (R ! 0), function' = TrimSpace (R ! 1),
                lineNumber = word_of_int v, message = TrimSpace (D ! 1)\<rparr>"
  have L2: "CHR ''|'' \<notin> set (L ! 2)" using len(1) by (simp add: L nth_Split_no_sep)
  have R2: "CHR ''|'' \<notin> set (R ! 2)" "CHR '':'' \<notin> set (R ! 2)"
    using len(3) L2 nth_Split_subset [of 2 "L ! 2" "CHR '':''"] by (auto simp: R nth_Split_no_sep)
  have "field_ok ''|'' (timestamp r)" "field_ok ''|'' (severity r)"
    using len(1) by (simp_all add: r L field_ok_Split)
  moreover have "field_ok ''|:'' (module r)" "field_ok ''|:'' (function' r)"
    using len(3) L2 by (simp_all add: r R field_ok_Split)
  moreover have "field_ok ''|:-'' (message r)"
    using len(4) R2 by (simp add: r D field_ok_Split)
  moreover have v: "0 \<le> v" "v < 2 ^ 15"
  proof -
    have "CHR ''-'' \<notin> set (D ! 0)" using len(4) unfolding D by (simp add: nth_Split_no_sep)
    then have "CHR ''-'' \<notin> set (TrimSpace (D ! 0))" using set_TrimSpace by blast
    then show "0 \<le> v" using pi by (rule ParseInt_nonneg)
    show "v < 2 ^ 15" using ParseInt_bounds [OF pi] by simp
  qed
  moreover have "sint (word_of_int v :: int64) = v"
    using v by (intro sint_int64_of_int) simp_all
  ultimately show ?thesis using len(2) r by (simp add: wf_LogMessage_def)
qed

text \<open>
  C3: the parser rejects a line exactly when one of its guards fails: the
  line does not have exactly two \<open>|\<close>, the trimmed severity is empty, the third
  \<open>|\<close>-piece has fewer than two \<open>:\<close>, the third \<open>:\<close>-piece has no \<open>-\<close>, or
  \<open>ParseInt\<close> reports an error on the trimmed text before the first \<open>-\<close>.
\<close>

theorem parseLogMessage_fails_iff:
  "isl (parseLogMessage row) \<longleftrightarrow>
     count_list row CHR ''|'' \<noteq> 2 \<or> TrimSpace (Split row CHR ''|'' ! 1) = [] \<or>
     count_list (Split row CHR ''|'' ! 2) CHR '':'' < 2 \<or>
     CHR ''-'' \<notin> set (Split (Split row CHR ''|'' ! 2) CHR '':'' ! 2) \<or>
     snd (ParseInt (TrimSpace (takeWhile (\<lambda>x. x \<noteq> CHR ''-'')
        (Split (Split row CHR ''|'' ! 2) CHR '':'' ! 2))) 0 16) \<noteq> None"
  by (auto simp: parseLogMessage_def Let_def count_list_0_iff nth0_Split
      split: prod.splits option.splits)

text \<open>
  C4: the message field is cut at the first \<open>:\<close> or \<open>-\<close> it
  contains, because the parser keeps only piece 2 of the \<open>:\<close>-split and piece 1 of the
  \<open>-\<close>-split; the spec says only the first delimiters are structural.
\<close>

theorem parseLogMessage_truncates_message:
  assumes "field_ok ''|'' ts" and "field_ok ''|'' sev" and "sev \<noteq> []"
    and "field_ok ''|:'' md" and "field_ok ''|:'' fn" and "field_ok ''|:-'' a"
    and "CHR ''|'' \<notin> set b" and "c = CHR '':'' \<or> c = CHR ''-''" and "n < 2 ^ 15"
  shows "parseLogMessage (logLine ts sev md fn n (a @ c # b)) =
    Inr \<lparr>timestamp = ts, severity = sev, module = md, function' = fn,
         lineNumber = of_nat n, message = a\<rparr>"
proof -
  let ?P = "\<lambda>x. x \<noteq> CHR '':'' \<and> x \<noteq> CHR ''-''"
  have "takeWhile ?P (a @ c # b) = a @ takeWhile ?P (c # b)"
    by (rule takeWhile_append2) (use assms(6) in \<open>auto simp: field_ok_def\<close>)
  then have "takeWhile ?P (a @ c # b) = a"
    using assms(8) by auto
  moreover have "CHR ''|'' \<notin> set (a @ c # b)" using assms(6,7,8) by (auto simp: field_ok_def)
  moreover have "TrimSpace a = a" using assms(6) by (simp add: field_ok_def)
  ultimately show ?thesis
    using parseLogMessage_logLine_general [OF assms(1-5) _ assms(9), of "a @ c # b"] by simp
qed

subsection \<open>Witnesses and the Go unit tests\<close>

theorem parseLogMessage_logLine_witness:
  "field_ok ''|'' ''2024-01-01 00:00:00.000'' \<and> field_ok ''|'' ''INFO'' \<and> ''INFO'' \<noteq> [] \<and>
   field_ok ''|:'' ''app.module'' \<and> field_ok ''|:'' ''function'' \<and>
   field_ok ''|:-'' ''User logged in'' \<and> (123::nat) < 2 ^ 15 \<and>
   parseLogMessage (logLine ''2024-01-01 00:00:00.000'' ''INFO'' ''app.module'' ''function'' 123
     ''User logged in'') =
   Inr \<lparr>timestamp = ''2024-01-01 00:00:00.000'', severity = ''INFO'', module = ''app.module'',
        function' = ''function'', lineNumber = 123, message = ''User logged in''\<rparr>"
proof -
  have h: "field_ok ''|'' ''2024-01-01 00:00:00.000''" "field_ok ''|'' ''INFO''"
    "field_ok ''|:'' ''app.module''" "field_ok ''|:'' ''function''"
    "field_ok ''|:-'' ''User logged in''"
    by (simp_all add: field_ok_def TrimSpace_def asciiSpace_def)
  show ?thesis
    using h parseLogMessage_logLine [OF h(1,2) _ h(3,4,5), of 123] by simp
qed

theorem parseLogMessage_wf_witness:
  "parseLogMessage ''2024-01-02 15:04:05.999 | INFO | app.module: function: 123 - User logged in'' =
     Inr \<lparr>timestamp = ''2024-01-02 15:04:05.999'', severity = ''INFO'', module = ''app.module'',
          function' = ''function'', lineNumber = 123, message = ''User logged in''\<rparr> \<and>
   wf_LogMessage \<lparr>timestamp = ''2024-01-02 15:04:05.999'', severity = ''INFO'',
          module = ''app.module'', function' = ''function'', lineNumber = 123,
          message = ''User logged in''\<rparr>"
proof -
  have p: "parseLogMessage ''2024-01-02 15:04:05.999 | INFO | app.module: function: 123 - User logged in'' =
     Inr \<lparr>timestamp = ''2024-01-02 15:04:05.999'', severity = ''INFO'', module = ''app.module'',
          function' = ''function'', lineNumber = 123, message = ''User logged in''\<rparr>"
    by (simp add: lp_eval)
  show ?thesis using p parseLogMessage_wf [OF p] by simp
qed

theorem parseLogMessage_truncates_message_witness:
  "field_ok ''|'' ''2024-01-01 00:00:00.000'' \<and> field_ok ''|'' ''INFO'' \<and> ''INFO'' \<noteq> [] \<and>
   field_ok ''|:'' ''app'' \<and> field_ok ''|:'' ''login'' \<and> field_ok ''|:-'' ''User'' \<and>
   CHR ''|'' \<notin> set ''logged in'' \<and> (CHR ''-'' = CHR '':'' \<or> CHR ''-'' = CHR ''-'') \<and>
   (12::nat) < 2 ^ 15 \<and>
   parseLogMessage (logLine ''2024-01-01 00:00:00.000'' ''INFO'' ''app'' ''login'' 12
     (''User'' @ CHR ''-'' # ''logged in'')) =
   Inr \<lparr>timestamp = ''2024-01-01 00:00:00.000'', severity = ''INFO'', module = ''app'',
        function' = ''login'', lineNumber = 12, message = ''User''\<rparr>"
proof -
  have h: "field_ok ''|'' ''2024-01-01 00:00:00.000''" "field_ok ''|'' ''INFO''"
    "field_ok ''|:'' ''app''" "field_ok ''|:'' ''login''" "field_ok ''|:-'' ''User''"
    by (simp_all add: field_ok_def TrimSpace_def asciiSpace_def)
  show ?thesis
    using h parseLogMessage_truncates_message [OF h(1,2) _ h(3,4,5), of "''logged in''" "CHR ''-''" 12]
    by simp
qed

theorem parseLogMessage_fails_iff_witness:
  "isl (parseLogMessage '''') \<and> count_list '''' CHR ''|'' \<noteq> 2"
  using parseLogMessage_fails_iff [of "''''"] by simp


text \<open>The four cases of \<open>TestParseLogMessage\<close> (\<open>src/main-tests.go\<close>, lines 10--62).\<close>

lemma test_parse_valid:
  "parseLogMessage ''2024-01-02 15:04:05.999 | INFO | app.module: function: 123 - User logged in'' =
     Inr \<lparr>timestamp = ''2024-01-02 15:04:05.999'', severity = ''INFO'', module = ''app.module'',
          function' = ''function'', lineNumber = 123, message = ''User logged in''\<rparr>"
  by (simp add: lp_eval)

lemma test_parse_empty: "parseLogMessage '''' = Inl EmptyMessage"
  by (simp add: lp_eval)

lemma test_parse_missing_severity:
  "parseLogMessage ''2024-01-02 15:04:05.999 | | app.module: function: 123 - User logged in'' =
     Inl MalformedMessage"
  by (simp add: lp_eval)

lemma test_parse_missing_line_number:
  "parseLogMessage ''2024-01-02 15:04:05.999 | INFO | app.module: function: - User logged in'' =
     Inl (LineNumberError ErrSyntax)"
  by (simp add: lp_eval)

text \<open>
  Line numbers are read with base 0: a leading \<open>0\<close> means octal and \<open>0x\<close>
  hexadecimal, so \<open>010\<close> is line 8 and \<open>089\<close> drops the whole line.  The timestamp
  is never checked: a line without one is accepted.
\<close>

lemma parse_octal_line_number:
  "parseLogMessage ''t | INFO | m:f:010 - x'' =
     Inr \<lparr>timestamp = ''t'', severity = ''INFO'', module = ''m'', function' = ''f'',
          lineNumber = 8, message = ''x''\<rparr>"
  by (simp add: lp_eval)

lemma parse_rejects_decimal_with_leading_zero:
  "parseLogMessage ''t | INFO | m:f:089 - x'' = Inl (LineNumberError ErrSyntax)"
  by (simp add: lp_eval)

lemma parse_accepts_empty_timestamp:
  "parseLogMessage '' | INFO | m:f:1 - x'' =
     Inr \<lparr>timestamp = [], severity = ''INFO'', module = ''m'', function' = ''f'',
          lineNumber = 1, message = ''x''\<rparr>"
  by (simp add: lp_eval)

end
