(* ===== verification/GoTime.thy ===== *)
theory GoTime
  imports GoStrconv
begin

text \<open>
  Go's \<open>time.Parse(layout, value)\<close> for the one layout the program uses,
  \<open>"2006-01-02 15:04:05.999"\<close> (\<open>src/main.go\<close> line 14), and the comparisons
  \<open>After\<close>/\<open>Before\<close> the reducer applies to the results.  A \<open>time.Time\<close> is modelled
  by the instant it denotes, in nanoseconds since 0001-01-01 00:00:00 UTC, so Go's zero
  \<open>Time{}\<close> is \<open>0\<close>; parsed times carry no zone (UTC) and no monotonic reading, so
  \<open>After\<close> and \<open>Before\<close> compare instants.

  The parser follows Go's \<open>parse\<close> loop over the layout's chunks: \<open>2006\<close> takes exactly
  four digits; \<open>01\<close>, \<open>02\<close>, \<open>04\<close>, \<open>05\<close> take exactly two digits; \<open>15\<close> takes one or two;
  a literal space in the layout matches a run of spaces (\<open>skip\<close>); \<open>.999\<close> takes an
  optional \<open>.\<close> or \<open>,\<close> followed by any number of digits, of which the first nine
  count; the month, hour, minute and second are range-checked as they are read, the day
  against the month's length at the end, and text left over is an error.  Every error is
  \<open>None\<close>: the program turns any of them into a panic.
\<close>

type_synonym gotime = int

definition zeroTime :: gotime where
  "zeroTime = 0"

definition After :: "gotime \<Rightarrow> gotime \<Rightarrow> bool" where
  "After t u \<longleftrightarrow> u < t"

definition Before :: "gotime \<Rightarrow> gotime \<Rightarrow> bool" where
  "Before t u \<longleftrightarrow> t < u"

text \<open>\<open>skip(value, prefix)\<close>: a space in the prefix matches any run of spaces.\<close>

function skip :: "string \<Rightarrow> string \<Rightarrow> string option" where
  "skip v [] = Some v"
| "skip v (p # ps) =
     (if p = CHR '' '' then
        (if v \<noteq> [] \<and> hd v \<noteq> CHR '' '' then None
         else skip (dropWhile (\<lambda>c. c = CHR '' '') v) (dropWhile (\<lambda>c. c = CHR '' '') ps))
      else if v = [] \<or> hd v \<noteq> p then None
      else skip (tl v) ps)"
  by pat_completeness auto
termination
  by (relation "measure (\<lambda>(v, ps). length ps)") (auto simp: le_imp_less_Suc length_dropWhile_le)

definition digit :: "char \<Rightarrow> nat" where
  "digit c = of_char c - 48"

text \<open>\<open>getnum(s, fixed)\<close>: one or two digits; with \<open>fixed\<close>, exactly two.\<close>

definition getnum :: "string \<Rightarrow> bool \<Rightarrow> (nat \<times> string) option" where
  "getnum s fixed =
     (if s = [] \<or> \<not> isDigit (hd s) then None
      else if length s < 2 \<or> \<not> isDigit (s ! 1) then
        (if fixed then None else Some (digit (hd s), tl s))
      else Some (digit (hd s) * 10 + digit (s ! 1), drop 2 s))"

text \<open>\<open>stdLongYear\<close>: four characters, the first a digit, read by \<open>atoi\<close>.\<close>

definition longYear :: "string \<Rightarrow> (nat \<times> string) option" where
  "longYear s =
     (if length s < 4 \<or> \<not> isDigit (hd s) then None
      else if \<forall>c \<in> set (take 4 s). isDigit c then Some (dec_acc 0 (take 4 s), drop 4 s)
      else None)"

text \<open>\<open>stdFracSecond9\<close> with \<open>parseNanoseconds\<close>: the first nine digits, scaled to nanoseconds.\<close>

definition fracSecond9 :: "string \<Rightarrow> nat \<times> string" where
  "fracSecond9 s =
     (if length s < 2 \<or> (hd s \<noteq> CHR ''.'' \<and> hd s \<noteq> CHR '','') \<or> \<not> isDigit (s ! 1) then (0, s)
      else let ds = takeWhile isDigit (tl s); i = length ds
           in (dec_acc 0 (take 9 ds) * 10 ^ (9 - min 9 i), drop (1 + i) s))"

definition isLeap :: "int \<Rightarrow> bool" where
  "isLeap y \<longleftrightarrow> y mod 4 = 0 \<and> (y mod 100 \<noteq> 0 \<or> y mod 400 = 0)"

definition daysBefore :: "nat \<Rightarrow> nat" where
  "daysBefore m = [0, 31, 59, 90, 120, 151, 181, 212, 243, 273, 304, 334, 365] ! m"

definition daysIn :: "nat \<Rightarrow> int \<Rightarrow> nat" where
  "daysIn m y = (if m = 2 then (if isLeap y then 29 else 28) else daysBefore m - daysBefore (m - 1))"

text \<open>
  \<open>time.Date(year, month, day, hour, min, sec, nsec, UTC)\<close> for in-range fields: the
  proleptic Gregorian day count from 0001-01-01, then the time of day.
\<close>

definition daysSinceEpoch :: "int \<Rightarrow> nat \<Rightarrow> nat \<Rightarrow> int" where
  "daysSinceEpoch y m d =
     (let y' = y - 1 in 365 * y' + y' div 4 - y' div 100 + y' div 400)
     + int (daysBefore (m - 1)) + (if 2 < m \<and> isLeap y then 1 else 0) + int d - 1"

definition Date :: "int \<Rightarrow> nat \<Rightarrow> nat \<Rightarrow> nat \<Rightarrow> nat \<Rightarrow> nat \<Rightarrow> nat \<Rightarrow> gotime" where
  "Date y m d h mi s ns =
     ((daysSinceEpoch y m d * 24 + int h) * 60 + int mi) * 60 * 1000000000
     + int s * 1000000000 + int ns"

definition timeParse :: "string \<Rightarrow> gotime option" where
  "timeParse v0 = do {
     (year, v1) \<leftarrow> longYear v0;
     v2 \<leftarrow> skip v1 ''-'';
     (month, v3) \<leftarrow> getnum v2 True;
     if month < 1 \<or> 12 < month then None else do {
     v4 \<leftarrow> skip v3 ''-'';
     (day, v5) \<leftarrow> getnum v4 True;
     v6 \<leftarrow> skip v5 '' '';
     (hour, v7) \<leftarrow> getnum v6 False;
     if 24 \<le> hour then None else do {
     v8 \<leftarrow> skip v7 '':'';
     (mi, v9) \<leftarrow> getnum v8 True;
     if 60 \<le> mi then None else do {
     v10 \<leftarrow> skip v9 '':'';
     (sec, v11) \<leftarrow> getnum v10 True;
     if 60 \<le> sec then None else
     (case fracSecond9 v11 of (ns, v12) \<Rightarrow>
       if v12 \<noteq> [] then None
       else if day < 1 \<or> daysIn month (int year) < day then None
       else Some (Date (int year) month day hour mi sec ns)) }}}}"

subsection \<open>Lemmas\<close>

lemmas time_eval = timeParse_def longYear_def getnum_def fracSecond9_def daysIn_def isLeap_def
  daysBefore_def Date_def daysSinceEpoch_def isDigit_def dec_acc_def digit_def

lemma daysSinceEpoch_nonneg:
  assumes "1 \<le> y" and "1 \<le> d"
  shows "0 \<le> daysSinceEpoch y m d"
proof -
  let ?y = "y - 1"
  have "?y div 100 \<le> ?y div 4" using assms(1) by (simp add: zdiv_mono2)
  moreover have "0 \<le> ?y div 400" using assms(1) by simp
  moreover have "0 \<le> 365 * ?y" using assms(1) by simp
  ultimately show ?thesis using assms(2) by (simp add: daysSinceEpoch_def Let_def)
qed

lemma Date_nonneg: "1 \<le> y \<Longrightarrow> 1 \<le> d \<Longrightarrow> 0 \<le> Date y m d h mi s ns"
  using daysSinceEpoch_nonneg [of y d m] by (simp add: Date_def)

lemma getnum_Nil [simp]: "getnum [] fixed = None"
  by (simp add: getnum_def)

lemma timeParse_SomeE:
  assumes "timeParse v = Some t"
  obtains year rest month day hour mi sec ns where "longYear v = Some (year, rest)"
    and "t = Date (int year) month day hour mi sec ns"
    and "1 \<le> month" "month \<le> 12" "1 \<le> day" "day \<le> daysIn month (int year)"
    and "hour < 24" "mi < 60" "sec < 60"
  using assms
  by (auto simp: timeParse_def bind_eq_Some_conv prod.case_eq_if split: if_splits intro!: that)

lemma timeParse_nonneg:
  assumes "timeParse v = Some t" and "longYear v = Some (year, rest)" and "1 \<le> year"
  shows "zeroTime \<le> t"
  using assms(1)
proof (rule timeParse_SomeE)
  fix year' rest' month day hour mi sec ns
  assume "longYear v = Some (year', rest')" and "t = Date (int year') month day hour mi sec ns"
    and "1 \<le> day"
  with assms(2,3) show ?thesis using Date_nonneg by (simp add: zeroTime_def)
qed

text \<open>Evaluations: a leap day that does not exist, an hour past 23, a run of spaces
  and a short fraction, and the zero instant.\<close>

lemma timeParse_examples:
  "timeParse ''2024-01-01 00:00:00.000'' = Some (Date 2024 1 1 0 0 0 0)"
  "timeParse ''2023-02-29 00:00:00.000'' = None"
  "timeParse ''2024-01-01 24:00:00.000'' = None"
  "timeParse ''2024-01-01  5:00:00.12'' = Some (Date 2024 1 1 5 0 0 120000000)"
  "timeParse ''0001-01-01 00:00:00'' = Some zeroTime"
  "timeParse '''' = None"
  by (simp_all add: time_eval zeroTime_def)

end
