(* ===== verification/FileAggregator.thy ===== *)
theory FileAggregator
  imports LineParser GoTime
begin

text \<open>
  The per-file aggregator of \<open>src/main.go\<close>: \<open>parseLogFile\<close> (lines 74--89),
  \<open>getNumEntries\<close> (91--94), \<open>getLogSeverityFrequency\<close> (96--112),
  \<open>getTopFiveLogMessages\<close> (114--142), \<open>getStartTime\<close>/\<open>getEndTime\<close> (144--164) and
  their composition \<open>analyzeLogFile\<close> (166--176, without the channel send and the
  \<open>waitGroup.Done()\<close>, which belong to the dispatcher), with the structs
  \<open>LogAnalysis\<close> and \<open>LogSeverityFrequency\<close> (26--40).

  The file system is a map from paths to contents, \<open>None\<close> where \<open>os.ReadFile\<close>
  fails.  Go's \<open>panic\<close> is an \<open>Inl\<close> value of \<open>panic\<close>.  The message counter
  \<open>rankedLogMessages\<close> is a Go map, so the order in which \<open>getTopFiveLogMessages\<close>
  ranges over it is a parameter \<open>rk\<close> of the model (see \<open>Prelude\<close>); the
  \<open>sort.SliceStable\<close> call is \<open>sort_key\<close>, the stable insertion sort, by decreasing
  count.
\<close>

record LogSeverityFrequency =
  debug :: int64
  info :: int64
  warning :: int64
  error :: int64

record LogAnalysis =
  numEntries :: int64
  logSeverityFrequency :: LogSeverityFrequency
  topFiveLogMessages :: "string list"
  topFiveLogMessageFrequencies :: "int64 list"
  startTime :: gotime
  endTime :: gotime

datatype panic = StartTimePanic | EndTimePanic | NoAnalysisPanic | IndexOutOfRange

type_synonym filesystem = "string \<Rightarrow> string option"

definition parseLogFile :: "filesystem \<Rightarrow> string \<Rightarrow> LogMessage list" where
  "parseLogFile fs logPath =
     (case fs logPath of
        None \<Rightarrow> []
      | Some data \<Rightarrow>
          fold (\<lambda>logRow logMessages.
                  case parseLogMessage logRow of
                    Inl _ \<Rightarrow> logMessages
                  | Inr logMessage \<Rightarrow> logMessages @ [logMessage])
            (Split data CHR ''\<newline>'') [])"

definition getNumEntries :: "LogMessage list \<Rightarrow> int64" where
  "getNumEntries logMessages = of_nat (length logMessages)"

definition noSeverities :: LogSeverityFrequency where
  "noSeverities = \<lparr>debug = 0, info = 0, warning = 0, error = 0\<rparr>"

text \<open>One iteration of the \<open>switch\<close> in \<open>getLogSeverityFrequency\<close>.\<close>

definition severity_step :: "LogMessage \<Rightarrow> LogSeverityFrequency \<Rightarrow> LogSeverityFrequency" where
  "severity_step logMessage f =
     (if severity logMessage = ''DEBUG'' then f\<lparr>debug := debug f + 1\<rparr>
      else if severity logMessage = ''INFO'' then f\<lparr>info := info f + 1\<rparr>
      else if severity logMessage = ''WARNING'' then f\<lparr>warning := warning f + 1\<rparr>
      else if severity logMessage = ''ERROR'' then f\<lparr>error := error f + 1\<rparr>
      else f)"

definition getLogSeverityFrequency :: "LogMessage list \<Rightarrow> LogSeverityFrequency" where
  "getLogSeverityFrequency logMessages = fold severity_step logMessages noSeverities"

text \<open>The counting loop of \<open>getTopFiveLogMessages\<close> (lines 115 and 118--120).\<close>

definition countMessages :: "LogMessage list \<Rightarrow> int64 gomap" where
  "countMessages logMessages = fold (\<lambda>m ranked. gomap_add ranked (message m) 1) logMessages []"

text \<open>Collecting the keys in map order and \<open>sort.SliceStable\<close> by decreasing count (121--127).\<close>

definition rankMessages :: "rank \<Rightarrow> int64 gomap \<Rightarrow> string list" where
  "rankMessages rk ranked = sort_key (\<lambda>msg. - sint (gomap_get ranked msg)) (gomap_range rk ranked)"

definition getTopFiveLogMessages :: "rank \<Rightarrow> LogMessage list \<Rightarrow> string list \<times> int64 list" where
  "getTopFiveLogMessages rk logMessages =
     (let ranked = countMessages logMessages;
          slots = (replicate 5 [], replicate 5 0);
          messages = rankMessages rk ranked
      in if length messages = 0 then slots
         else
           let maxMessages = (if 5 \<le> length messages then 5 else length messages)
           in fold (\<lambda>index (ts, fs). (ts[index := messages ! index],
                                       fs[index := gomap_get ranked (messages ! index)]))
                [0..<maxMessages] slots)"

definition getStartTime :: "LogMessage list \<Rightarrow> panic + gotime" where
  "getStartTime logMessages =
     (if length logMessages = 0 then Inr zeroTime
      else case timeParse (timestamp (logMessages ! 0)) of
             None \<Rightarrow> Inl StartTimePanic
           | Some t \<Rightarrow> Inr t)"

definition getEndTime :: "LogMessage list \<Rightarrow> panic + gotime" where
  "getEndTime logMessages =
     (if length logMessages = 0 then Inr zeroTime
      else case timeParse (timestamp (logMessages ! (length logMessages - 1))) of
             None \<Rightarrow> Inl EndTimePanic
           | Some t \<Rightarrow> Inr t)"

definition analyzeLogFile :: "filesystem \<Rightarrow> rank \<Rightarrow> string \<Rightarrow> panic + LogAnalysis" where
  "analyzeLogFile fs rk logPath =
     (let logMessages = parseLogFile fs logPath;
          (tops, freqs) = getTopFiveLogMessages rk logMessages
      in case getStartTime logMessages of
           Inl p \<Rightarrow> Inl p
         | Inr st \<Rightarrow>
             (case getEndTime logMessages of
                Inl p \<Rightarrow> Inl p
              | Inr et \<Rightarrow>
                  Inr \<lparr>numEntries = getNumEntries logMessages,
                       logSeverityFrequency = getLogSeverityFrequency logMessages,
                       topFiveLogMessages = tops, topFiveLogMessageFrequencies = freqs,
                       startTime = st, endTime = et\<rparr>))"

text \<open>
  The specification's reference for the ranking: the distinct messages in the order they
  are first met, stably sorted by decreasing number of occurrences.
\<close>

definition msg_count :: "LogMessage list \<Rightarrow> string \<Rightarrow> nat" where
  "msg_count ms x = count_list (map message ms) x"

definition spec_ranking :: "LogMessage list \<Rightarrow> string list" where
  "spec_ranking ms = sort_key (\<lambda>x. - int (msg_count ms x)) (first_seen (map message ms))"

text \<open>Number of records with a given severity, and the shape of a summary that the
  reducer indexes: five message slots and five counts.\<close>

definition sev_count :: "string \<Rightarrow> LogMessage list \<Rightarrow> nat" where
  "sev_count s ms = length (filter (\<lambda>m. severity m = s) ms)"

definition wf_LogAnalysis :: "LogAnalysis \<Rightarrow> bool" where
  "wf_LogAnalysis la \<longleftrightarrow> length (topFiveLogMessages la) = 5 \<and> length (topFiveLogMessageFrequencies la) = 5"

text \<open>The fixtures of \<open>src/main-tests.go\<close>: records with only some fields set
  (\<open>TestGetLogSeverityFrequency\<close>, \<open>TestGetTopFiveLogMessages\<close>,
  \<open>TestGetStartEndTime\<close>), and the three-line file of \<open>TestAnalyzeLogFile\<close>.\<close>

definition logMsg :: "string \<Rightarrow> string \<Rightarrow> string \<Rightarrow> LogMessage" where
  "logMsg ts sev msg = \<lparr>timestamp = ts, severity = sev, module = [], function' = [], lineNumber = 0, message = msg\<rparr>"

definition test_top_five_logs :: "LogMessage list" where
  "test_top_five_logs = map (logMsg [] []) [''Error 1'', ''Error 1'', ''Error 2'', ''Error 3'', ''Error 3'', ''Error 3'', ''Error 4'', ''Error 5'', ''Error 6'']"

definition test_log_file :: string where
  "test_log_file =
     ''2024-01-01 00:00:00.000 | INFO | app.module: function: 123 - User logged in'' @ CHR ''\<newline>'' #
     ''2024-01-01 00:01:00.000 | ERROR | app.module: function: 124 - Database connection failed'' @ CHR ''\<newline>'' #
     ''2024-01-01 00:02:00.000 | ERROR | app.module: function: 125 - Database connection failed''"

subsection \<open>Lemmas\<close>

lemma count_fold_add:
  "gomap_get (fold (\<lambda>m ranked. gomap_add ranked (message m) 1) ms acc) x =
     gomap_get acc x + of_nat (count_list (map message ms) x)"
  by (induction ms arbitrary: acc) (auto simp: algebra_simps)

lemma countMessages_pairs:
  "countMessages ms = fold (\<lambda>(k, v) m. gomap_add m k v) (map (\<lambda>m. (message m, 1)) ms) []"
  by (simp add: countMessages_def fold_map comp_def)

lemma gomap_get_countMessages: "gomap_get (countMessages ms) x = of_nat (msg_count ms x)"
  by (simp add: countMessages_def count_fold_add msg_count_def)

lemma keys_countMessages: "map fst (countMessages ms) = first_seen (map message ms)"
  by (simp add: countMessages_pairs keys_fold_add_pairs comp_def)

lemma getTopFiveLogMessages_eq:
  "getTopFiveLogMessages rk ms =
     (let ranked = countMessages ms; messages = rankMessages rk ranked in
      (take 5 messages @ replicate (5 - length messages) [],
       take 5 (map (gomap_get ranked) messages) @ replicate (5 - length messages) 0))"
proof -
  define ranked where "ranked = countMessages ms"
  define messages where "messages = rankMessages rk ranked"
  define n where "n = (if 5 \<le> length messages then 5 else length messages)"
  have n: "n = min 5 (length messages)" by (simp add: n_def)
  have upd: "fold (\<lambda>i fs. fs[i := gomap_get ranked (messages ! i)]) [0..<n] (replicate 5 0)
      = fill_slots n (map (gomap_get ranked) messages) (replicate 5 0)"
    unfolding fill_slots_def by (rule fold_cong) (auto simp: n)
  have "getTopFiveLogMessages rk ms =
      (if length messages = 0 then (replicate 5 [], replicate 5 0)
       else (fill_slots n messages (replicate 5 []),
             fold (\<lambda>i fs. fs[i := gomap_get ranked (messages ! i)]) [0..<n] (replicate 5 0)))"
    by (simp add: getTopFiveLogMessages_def ranked_def messages_def n_def Let_def fold_pair
        fill_slots_def)
  also have "\<dots> = (take 5 messages @ replicate (5 - length messages) [],
       take 5 (map (gomap_get ranked) messages) @ replicate (5 - length messages) 0)"
    using upd n by (simp add: fill_slots_replicate)
  finally show ?thesis by (simp add: ranked_def messages_def Let_def)
qed

lemma rankMessages_keys:
  "map (\<lambda>x. - sint (gomap_get ranked x)) (rankMessages rk ranked) =
     sort (map (\<lambda>x. - sint (gomap_get ranked x)) (map fst ranked))"
  unfolding rankMessages_def map_key_sort_key
  by (rule sort_mset_eq) (simp add: mset_map multiset.map_comp)

lemma rankMessages_counts:
  "map (gomap_get ranked) (rankMessages rk ranked) =
     map (\<lambda>k. word_of_int (- k)) (sort (map (\<lambda>x. - sint (gomap_get ranked x)) (map fst ranked)))"
proof -
  have "map (gomap_get ranked) (rankMessages rk ranked) =
      map (\<lambda>k. word_of_int (- k)) (map (\<lambda>x. - sint (gomap_get ranked x)) (rankMessages rk ranked))"
    by simp
  then show ?thesis by (simp only: rankMessages_keys)
qed

lemma length_rankMessages [simp]: "length (rankMessages rk ranked) = length ranked"
  by (simp add: rankMessages_def)

text \<open>
  C11:  The five counts \<open>getTopFiveLogMessages\<close> reports do not depend on the
  order in which the Go runtime ranges over the message map.
\<close>

theorem getTopFiveLogMessages_freqs_indep:
  "snd (getTopFiveLogMessages rk ms) = snd (getTopFiveLogMessages rk' ms)"
  by (simp add: getTopFiveLogMessages_eq Let_def rankMessages_counts)

lemma msg_count_le: "msg_count ms x \<le> length ms"
  using count_le_length [of "map message ms" x] by (simp add: msg_count_def)

lemma sint_count:
  "length ms < 2 ^ 63 \<Longrightarrow> sint (gomap_get (countMessages ms) x) = int (msg_count ms x)"
  using msg_count_le [of ms x] by (simp add: gomap_get_countMessages sint_int64_of_nat)

lemma set_rankMessages_count [simp]:
  "set (rankMessages rk (countMessages ms)) = set (map message ms)"
proof -
  have "set (map fst (countMessages ms)) = set (map message ms)"
    by (simp only: keys_countMessages set_first_seen)
  then show ?thesis by (simp add: rankMessages_def)
qed

lemma distinct_rankMessages_count [simp]: "distinct (rankMessages rk (countMessages ms))"
  by (simp add: rankMessages_def keys_countMessages)

lemma length_rankMessages_count:
  "length (rankMessages rk (countMessages ms)) = card (set (map message ms))"
  by (metis distinct_card distinct_rankMessages_count set_rankMessages_count)

lemma rankMessages_nonincreasing:
  assumes "length ms < 2 ^ 63" and "i \<le> j" and "j < length (rankMessages rk (countMessages ms))"
  shows "msg_count ms (rankMessages rk (countMessages ms) ! j) \<le>
         msg_count ms (rankMessages rk (countMessages ms) ! i)"
proof -
  let ?S = "rankMessages rk (countMessages ms)"
  let ?k = "\<lambda>x. - sint (gomap_get (countMessages ms) x)"
  have "sorted (map ?k ?S)" by (simp add: rankMessages_def)
  then have "?k (?S ! i) \<le> ?k (?S ! j)"
    using assms(2,3) by (auto dest: sorted_nth_mono)
  then show ?thesis using assms(1) by (simp add: sint_count)
qed

text \<open>
  C5:  On fewer than \<open>2^63\<close> records, \<open>getTopFiveLogMessages\<close> fills
  exactly five slots: the first \<open>min 5 d\<close> (\<open>d\<close> the number of distinct messages) hold
  distinct messages of the input with their exact counts, the rest are \<open>""\<close> with count
  0, and the counts never increase along the slots.
\<close>

theorem getTopFiveLogMessages_ranked:
  assumes "length ms < 2 ^ 63" and "getTopFiveLogMessages rk ms = (tops, fs)"
  shows "length tops = 5 \<and> length fs = 5 \<and>
    distinct (take (card (set (map message ms))) tops) \<and>
    (\<forall>i < 5. (i < card (set (map message ms)) \<longrightarrow>
                 tops ! i \<in> set (map message ms) \<and> sint (fs ! i) = int (msg_count ms (tops ! i))) \<and>
             (card (set (map message ms)) \<le> i \<longrightarrow> tops ! i = [] \<and> fs ! i = 0)) \<and>
    (\<forall>i j. i \<le> j \<longrightarrow> j < 5 \<longrightarrow> sint (fs ! j) \<le> sint (fs ! i))"
proof -
  let ?S = "rankMessages rk (countMessages ms)"
  let ?d = "card (set (map message ms))"
  have d: "length ?S = ?d" by (rule length_rankMessages_count)
  have tops: "tops = take 5 ?S @ replicate (5 - ?d) []"
    and fs: "fs = take 5 (map (gomap_get (countMessages ms)) ?S) @ replicate (5 - ?d) 0"
    using assms(2) d by (simp_all add: getTopFiveLogMessages_eq Let_def)
  have len: "length tops = 5" "length fs = 5" using tops fs d by simp_all
  have in_top: "tops ! i = ?S ! i" "fs ! i = gomap_get (countMessages ms) (?S ! i)"
    if "i < 5" "i < ?d" for i
    using that tops fs d by (simp_all add: nth_append)
  have in_pad: "tops ! i = []" "fs ! i = 0" if "i < 5" "?d \<le> i" for i
    using that tops fs d by (simp_all add: nth_append min_def)
  have slot: "\<forall>i < 5. (i < ?d \<longrightarrow> tops ! i \<in> set (map message ms) \<and>
                 sint (fs ! i) = int (msg_count ms (tops ! i))) \<and>
             (?d \<le> i \<longrightarrow> tops ! i = [] \<and> fs ! i = 0)"
  proof (intro allI impI conjI)
    fix i assume "i < 5" "i < ?d"
    then show "tops ! i \<in> set (map message ms)"
      using in_top d by (metis nth_mem set_rankMessages_count)
    show "sint (fs ! i) = int (msg_count ms (tops ! i))"
      using \<open>i < 5\<close> \<open>i < ?d\<close> in_top assms(1) by (simp add: sint_count)
  qed (use in_pad in auto)
  have dist: "distinct (take ?d tops)"
    using tops d by (simp add: min_def)
  have mono: "sint (fs ! j) \<le> sint (fs ! i)" if "i \<le> j" "j < 5" for i j
  proof (cases "j < ?d")
    case True
    then show ?thesis
      using that in_top assms(1) rankMessages_nonincreasing [OF assms(1) that(1), of rk] d
      by (simp add: sint_count)
  next
    case False
    then have "fs ! j = 0" using that in_pad by simp
    moreover have "0 \<le> sint (fs ! i)"
      using that in_top in_pad assms(1) by (cases "i < ?d") (simp_all add: sint_count)
    ultimately show ?thesis by simp
  qed
  show ?thesis using len dist slot mono by blast
qed

text \<open>
  C6:  Top five: a message that occurs in the input but is not reported occurs at
  most as often as every reported one.
\<close>

theorem getTopFiveLogMessages_top:
  assumes "length ms < 2 ^ 63" and "getTopFiveLogMessages rk ms = (tops, fs)"
    and "y \<in> set (map message ms)" and "y \<notin> set tops" and "i < 5"
  shows "msg_count ms y \<le> msg_count ms (tops ! i)"
proof -
  let ?S = "rankMessages rk (countMessages ms)"
  have d: "length ?S = card (set (map message ms))" by (rule length_rankMessages_count)
  have tops: "tops = take 5 ?S @ replicate (5 - length ?S) []"
    using assms(2) by (simp add: getTopFiveLogMessages_eq Let_def)
  from assms(3) obtain j where j: "j < length ?S" "?S ! j = y"
    by (metis in_set_conv_nth set_rankMessages_count)
  have "5 \<le> j"
  proof (rule ccontr)
    assume "\<not> 5 \<le> j"
    then have "y \<in> set (take 5 ?S)" using j by (metis in_set_conv_nth length_take min_less_iff_conj nth_take not_le)
    then show False using assms(4) tops by simp
  qed
  then have "i < length ?S" "tops ! i = ?S ! i" using j assms(5) tops by (simp_all add: nth_append)
  with rankMessages_nonincreasing [OF assms(1), of i j rk] \<open>5 \<le> j\<close> assms(5) j
  show ?thesis by simp
qed

text \<open>
  C7:  Refinement: when the map is ranged in insertion order, the result is the
  specification's ranking (distinct messages in first-seen order, stably sorted by
  decreasing count), padded to five slots.
\<close>

theorem getTopFiveLogMessages_first_seen:
  assumes "length ms < 2 ^ 63"
  shows "getTopFiveLogMessages (\<lambda>_. 0) ms =
    (take 5 (spec_ranking ms) @ replicate (5 - length (spec_ranking ms)) [],
     map (\<lambda>x. of_nat (msg_count ms x)) (take 5 (spec_ranking ms)) @
       replicate (5 - length (spec_ranking ms)) 0)"
proof -
  have r: "rankMessages (\<lambda>_. 0) (countMessages ms) = spec_ranking ms"
    unfolding rankMessages_def spec_ranking_def gomap_range_const keys_countMessages
    by (rule sort_key_cong) (simp add: sint_count [OF assms])
  moreover have "length (countMessages ms) = length (spec_ranking ms)"
    using length_rankMessages [of "\<lambda>_. 0" "countMessages ms"] r by simp
  ultimately show ?thesis
    by (simp add: getTopFiveLogMessages_eq Let_def gomap_get_countMessages take_map)
qed

lemma fold_severity_step:
  "fold severity_step ms f =
     \<lparr>debug = debug f + of_nat (sev_count ''DEBUG'' ms), info = info f + of_nat (sev_count ''INFO'' ms),
      warning = warning f + of_nat (sev_count ''WARNING'' ms),
      error = error f + of_nat (sev_count ''ERROR'' ms)\<rparr>"
proof (induction ms arbitrary: f)
  case Nil
  then show ?case by (simp add: sev_count_def)
next
  case (Cons m ms)
  then show ?case
    by (simp add: severity_step_def sev_count_def algebra_simps split: if_splits)
qed

text \<open>
  C8:  \<open>getLogSeverityFrequency\<close> counts the records of each of the four
  severities (modulo \<open>2^64\<close>); records of any other severity are ignored.
\<close>

theorem getLogSeverityFrequency_counts:
  "getLogSeverityFrequency ms =
     \<lparr>debug = of_nat (sev_count ''DEBUG'' ms), info = of_nat (sev_count ''INFO'' ms),
      warning = of_nat (sev_count ''WARNING'' ms), error = of_nat (sev_count ''ERROR'' ms)\<rparr>"
  by (simp add: getLogSeverityFrequency_def fold_severity_step noSeverities_def)

lemma sev_count_mset: "mset ms = mset ms' \<Longrightarrow> sev_count s ms = sev_count s ms'"
  unfolding sev_count_def by (metis mset_filter size_mset)

lemma parseLogFile_fold:
  "fold (\<lambda>logRow logMessages. case parseLogMessage logRow of
            Inl _ \<Rightarrow> logMessages | Inr logMessage \<Rightarrow> logMessages @ [logMessage]) rows acc =
   acc @ concat (map (\<lambda>row. case parseLogMessage row of Inl _ \<Rightarrow> [] | Inr m \<Rightarrow> [m]) rows)"
  by (induction rows arbitrary: acc) (auto split: sum.splits)

text \<open>
  \<open>parseLogFile\<close>'s accumulating loop equals the map-and-concat
  of \<open>parseLogMessage\<close> over the newline-separated rows: the records of the lines that
  parse, in file order; an unreadable file gives no records.
\<close>

lemma parseLogFile_eq:
  "parseLogFile fs p =
     (case fs p of
        None \<Rightarrow> []
      | Some data \<Rightarrow> concat (map (\<lambda>row. case parseLogMessage row of Inl _ \<Rightarrow> [] | Inr m \<Rightarrow> [m])
                                (Split data CHR ''\<newline>'')))"
  by (simp add: parseLogFile_def parseLogFile_fold split: option.splits)

text \<open>
  C10:  A file with no parseable line (empty, unreadable or all malformed) is
  summarised with zero counts, five empty slots and the zero time as start and end.
\<close>

theorem analyzeLogFile_empty:
  assumes "parseLogFile fs p = []"
  shows "analyzeLogFile fs rk p =
    Inr \<lparr>numEntries = 0, logSeverityFrequency = noSeverities,
         topFiveLogMessages = replicate 5 [], topFiveLogMessageFrequencies = replicate 5 0,
         startTime = zeroTime, endTime = zeroTime\<rparr>"
  using assms
  by (simp add: analyzeLogFile_def getStartTime_def getEndTime_def getNumEntries_def
      getLogSeverityFrequency_def getTopFiveLogMessages_def countMessages_def rankMessages_def
      gomap_range_def)

theorem analyzeLogFile_unreadable:
  "fs p = None \<Longrightarrow> analyzeLogFile fs rk p =
    Inr \<lparr>numEntries = 0, logSeverityFrequency = noSeverities,
         topFiveLogMessages = replicate 5 [], topFiveLogMessageFrequencies = replicate 5 0,
         startTime = zeroTime, endTime = zeroTime\<rparr>"
  by (simp add: parseLogFile_def analyzeLogFile_def getStartTime_def getEndTime_def
      getNumEntries_def getLogSeverityFrequency_def getTopFiveLogMessages_def countMessages_def
      rankMessages_def gomap_range_def)

lemma top_five_lengths:
  "length (fst (getTopFiveLogMessages rk ms)) = 5 \<and> length (snd (getTopFiveLogMessages rk ms)) = 5"
  by (simp add: getTopFiveLogMessages_eq Let_def)

text \<open>
  C9:  \<open>analyzeLogFile\<close> panics exactly when the file has parsed records
  and the timestamp of the first or of the last one is not accepted by \<open>time.Parse\<close>.
\<close>

theorem analyzeLogFile_panics:
  "(\<exists>e. analyzeLogFile fs rk p = Inl e) \<longleftrightarrow>
     parseLogFile fs p \<noteq> [] \<and>
     (timeParse (timestamp (hd (parseLogFile fs p))) = None \<or>
      timeParse (timestamp (last (parseLogFile fs p))) = None)"
  by (auto simp: analyzeLogFile_def getStartTime_def getEndTime_def Let_def hd_conv_nth last_conv_nth
      split: prod.splits sum.splits option.splits)

lemmas agg_eval = getTopFiveLogMessages_eq Let_def countMessages_def rankMessages_def gomap_range_def logMsg_def

lemma test_severity_frequency:
  "getLogSeverityFrequency (map (\<lambda>s. logMsg [] s []) [''DEBUG'', ''INFO'', ''INFO'', ''WARNING'', ''ERROR'', ''ERROR'', ''INVALID''])
   = \<lparr>debug = 1, info = 2, warning = 1, error = 2\<rparr>"
  by (simp add: getLogSeverityFrequency_def severity_step_def noSeverities_def logMsg_def)

lemma test_top_five_first_seen:
  "getTopFiveLogMessages (\<lambda>_. 0) test_top_five_logs =
     ([''Error 3'', ''Error 1'', ''Error 2'', ''Error 4'', ''Error 5''], [3, 2, 1, 1, 1])"
  by (simp add: agg_eval test_top_five_logs_def)

lemma test_top_five_other_order:
  "getTopFiveLogMessages (position [''Error 6'', ''Error 5'', ''Error 4'', ''Error 3'', ''Error 2'', ''Error 1''])
     test_top_five_logs =
     ([''Error 3'', ''Error 1'', ''Error 6'', ''Error 5'', ''Error 4''], [3, 2, 1, 1, 1])"
  by (simp add: agg_eval test_top_five_logs_def)

text \<open>
  The messages reported in tied slots depend on the map's iteration
  order: on the fixture of \<open>TestGetTopFiveLogMessages\<close>, two iteration orders give
  different top-five lists, so the test's fixed expectation can fail.
\<close>

lemma getTopFiveLogMessages_order_dependent:
  "\<exists>rk rk'. fst (getTopFiveLogMessages rk test_top_five_logs) \<noteq> fst (getTopFiveLogMessages rk' test_top_five_logs)"
  by (rule exI [of _ "\<lambda>_. 0"], rule exI [of _ "position [''Error 6'', ''Error 5'', ''Error 4'', ''Error 3'', ''Error 2'', ''Error 1'']"])
    (simp add: agg_eval test_top_five_logs_def)

lemma test_start_end_time:
  "getStartTime (map (\<lambda>t. logMsg t [] []) [''2024-01-01 00:00:00.000'', ''2024-01-01 12:00:00.000'', ''2024-01-02 00:00:00.000''])
     = Inr (Date 2024 1 1 0 0 0 0) \<and>
   getEndTime (map (\<lambda>t. logMsg t [] []) [''2024-01-01 00:00:00.000'', ''2024-01-01 12:00:00.000'', ''2024-01-02 00:00:00.000''])
     = Inr (Date 2024 1 2 0 0 0 0)"
  by (simp add: getStartTime_def getEndTime_def logMsg_def timeParse_def longYear_def getnum_def
      fracSecond9_def daysIn_def isLeap_def daysBefore_def isDigit_def dec_acc_def digit_def
      Date_def daysSinceEpoch_def)

lemma test_analyze_log_file_parse:
  "parseLogFile (\<lambda>p. if p = ''f'' then Some test_log_file else None) ''f'' =
     [\<lparr>timestamp = ''2024-01-01 00:00:00.000'', severity = ''INFO'', module = ''app.module'', function' = ''function'', lineNumber = 123, message = ''User logged in''\<rparr>,
      \<lparr>timestamp = ''2024-01-01 00:01:00.000'', severity = ''ERROR'', module = ''app.module'', function' = ''function'', lineNumber = 124, message = ''Database connection failed''\<rparr>,
      \<lparr>timestamp = ''2024-01-01 00:02:00.000'', severity = ''ERROR'', module = ''app.module'', function' = ''function'', lineNumber = 125, message = ''Database connection failed''\<rparr>]"
  by (simp add: parseLogFile_eq test_log_file_def Split_append_nosep lp_eval)

text \<open>
  \<open>TestAnalyzeLogFile\<close>: on its three-line file the summary is the
  expected one, whatever the map iteration order.
\<close>

lemma analyzeLogFile_test_file:
  "analyzeLogFile (\<lambda>p. if p = ''f'' then Some test_log_file else None) rk ''f'' =
     Inr \<lparr>numEntries = 3, logSeverityFrequency = \<lparr>debug = 0, info = 1, warning = 0, error = 2\<rparr>,
          topFiveLogMessages = [''Database connection failed'', ''User logged in'', [], [], []],
          topFiveLogMessageFrequencies = [2, 1, 0, 0, 0],
          startTime = Date 2024 1 1 0 0 0 0, endTime = Date 2024 1 1 0 2 0 0\<rparr>"
proof -
  have "rankMessages rk [(''User logged in'', 1), (''Database connection failed'', 2)] =
        [''Database connection failed'', ''User logged in'']"
    by (cases "rk ''User logged in'' \<le> rk ''Database connection failed''")
      (simp_all add: rankMessages_def gomap_range_def)
  then show ?thesis
    by (simp add: analyzeLogFile_def test_analyze_log_file_parse getNumEntries_def
      getLogSeverityFrequency_def severity_step_def noSeverities_def getTopFiveLogMessages_eq countMessages_def
      getStartTime_def getEndTime_def time_eval numeral_3_eq_3)
qed

text \<open>Instances of the claims above at the test fixtures.\<close>

theorem getTopFiveLogMessages_ranked_witness:
  "length test_top_five_logs < 2 ^ 63 \<and>
   getTopFiveLogMessages (\<lambda>_. 0) test_top_five_logs =
     ([''Error 3'', ''Error 1'', ''Error 2'', ''Error 4'', ''Error 5''], [3, 2, 1, 1, 1]) \<and>
   card (set (map message test_top_five_logs)) = 6 \<and>
   sint ([3, 2, 1, 1, 1 :: int64] ! 2) = int (msg_count test_top_five_logs ''Error 2'')"
proof -
  have h: "length test_top_five_logs < 2 ^ 63" by (simp add: test_top_five_logs_def)
  have c: "card (set (map message test_top_five_logs)) = 6"
    by (simp add: test_top_five_logs_def logMsg_def)
  from getTopFiveLogMessages_ranked [OF h test_top_five_first_seen]
  have "\<forall>i < 5. i < card (set (map message test_top_five_logs)) \<longrightarrow>
          sint ([3, 2, 1, 1, 1 :: int64] ! i) =
          int (msg_count test_top_five_logs ([''Error 3'', ''Error 1'', ''Error 2'', ''Error 4'', ''Error 5''] ! i))"
    by blast
  from this [rule_format, of 2] c
  have "sint ([3, 2, 1, 1, 1 :: int64] ! 2) = int (msg_count test_top_five_logs ''Error 2'')"
    by simp
  with h c test_top_five_first_seen show ?thesis by simp
qed

theorem getTopFiveLogMessages_top_witness:
  "length test_top_five_logs < 2 ^ 63 \<and>
   getTopFiveLogMessages (\<lambda>_. 0) test_top_five_logs =
     ([''Error 3'', ''Error 1'', ''Error 2'', ''Error 4'', ''Error 5''], [3, 2, 1, 1, 1]) \<and>
   ''Error 6'' \<in> set (map message test_top_five_logs) \<and>
   ''Error 6'' \<notin> set [''Error 3'', ''Error 1'', ''Error 2'', ''Error 4'', ''Error 5''] \<and>
   msg_count test_top_five_logs ''Error 6'' \<le> msg_count test_top_five_logs ''Error 5''"
proof -
  have h: "length test_top_five_logs < 2 ^ 63" by (simp add: test_top_five_logs_def)
  have m: "''Error 6'' \<in> set (map message test_top_five_logs)"
    by (simp add: test_top_five_logs_def logMsg_def)
  have n: "''Error 6'' \<notin> set [''Error 3'', ''Error 1'', ''Error 2'', ''Error 4'', ''Error 5'']"
    by simp
  from getTopFiveLogMessages_top [OF h test_top_five_first_seen m n, of 4]
  have "msg_count test_top_five_logs ''Error 6'' \<le> msg_count test_top_five_logs ''Error 5''"
    by simp
  with h m n test_top_five_first_seen show ?thesis by simp
qed

theorem getTopFiveLogMessages_first_seen_witness:
  "length test_top_five_logs < 2 ^ 63 \<and>
   spec_ranking test_top_five_logs = [''Error 3'', ''Error 1'', ''Error 2'', ''Error 4'', ''Error 5'', ''Error 6''] \<and>
   getTopFiveLogMessages (\<lambda>_. 0) test_top_five_logs =
     ([''Error 3'', ''Error 1'', ''Error 2'', ''Error 4'', ''Error 5''], [3, 2, 1, 1, 1])"
proof -
  have h: "length test_top_five_logs < 2 ^ 63" by (simp add: test_top_five_logs_def)
  have r: "spec_ranking test_top_five_logs = [''Error 3'', ''Error 1'', ''Error 2'', ''Error 4'', ''Error 5'', ''Error 6'']"
    by (simp add: spec_ranking_def msg_count_def test_top_five_logs_def logMsg_def)
  have "msg_count test_top_five_logs ''Error 3'' = 3" "msg_count test_top_five_logs ''Error 1'' = 2"
    "msg_count test_top_five_logs ''Error 2'' = 1" "msg_count test_top_five_logs ''Error 4'' = 1"
    "msg_count test_top_five_logs ''Error 5'' = 1"
    by (simp_all add: msg_count_def test_top_five_logs_def logMsg_def)
  with getTopFiveLogMessages_first_seen [OF h] r h show ?thesis by simp
qed

theorem analyzeLogFile_empty_witness:
  "parseLogFile (\<lambda>_. Some []) ''empty.log'' = [] \<and>
   analyzeLogFile (\<lambda>_. Some []) (\<lambda>_. 0) ''empty.log'' =
    Inr \<lparr>numEntries = 0, logSeverityFrequency = noSeverities,
         topFiveLogMessages = replicate 5 [], topFiveLogMessageFrequencies = replicate 5 0,
         startTime = zeroTime, endTime = zeroTime\<rparr>"
proof -
  have h: "parseLogFile (\<lambda>_. Some []) ''empty.log'' = []"
    by (simp add: parseLogFile_def parseLogMessage_def)
  with analyzeLogFile_empty [OF h, of "\<lambda>_. 0"] show ?thesis by simp
qed

end
