(* ===== verification/Reducer.thy ===== *)
theory Reducer
  imports FileAggregator
begin

text \<open>
  The cross-file reducer of \<open>src/main.go\<close>: \<open>analyzeTopFiveLogMessages\<close> (lines 199--232),
  which re-ranks the messages of all per-file top-five slots, and \<open>analyzelogAnalyses\<close>
  (234--267), which sums the counts, keeps the earliest start and the latest end time and
  copies the re-ranked messages.  The \<open>fmt.Println\<close> of line 230 is output only.  Reading
  \<open>topFiveLogMessageFrequencies[index]\<close> past the end of that slice is Go's run-time
  panic, \<open>Inl IndexOutOfRange\<close>; \<open>panic("No analysis found")\<close> is
  \<open>Inl NoAnalysisPanic\<close>.
\<close>

text \<open>The bound \<open>if len(xs) >= 5 { 5 } else { len(xs) }\<close> the code computes four times.\<close>

definition maxMessages :: "nat \<Rightarrow> nat" where
  "maxMessages n = (if 5 \<le> n then 5 else n)"

text \<open>\<open>for index := 0; index < maxMessages; index++ { out = append(out, xs[index]) }\<close>
  starting from a nil slice (lines 221--229 and 242--250).\<close>

definition appendFirst :: "'a list \<Rightarrow> 'a list" where
  "appendFirst xs = fold (\<lambda>index out. out @ [xs ! index]) [0..<maxMessages (length xs)] []"

text \<open>The inner loop of lines 208--210 over the indices of one summary's slots.\<close>

fun addSlots :: "string list \<Rightarrow> int64 list \<Rightarrow> nat list \<Rightarrow> int64 gomap \<Rightarrow> panic + int64 gomap" where
  "addSlots tops freqs [] ranked = Inr ranked"
| "addSlots tops freqs (index # indices) ranked =
     (if length freqs \<le> index then Inl IndexOutOfRange
      else addSlots tops freqs indices (gomap_add ranked (tops ! index) (freqs ! index)))"

definition addAnalysis :: "int64 gomap \<Rightarrow> LogAnalysis \<Rightarrow> panic + int64 gomap" where
  "addAnalysis ranked logAnalysis =
     addSlots (topFiveLogMessages logAnalysis) (topFiveLogMessageFrequencies logAnalysis)
       [0..<maxMessages (length (topFiveLogMessages logAnalysis))] ranked"

text \<open>The outer loop of lines 201--211; a panic stops it.\<close>

fun rankAnalyses :: "int64 gomap \<Rightarrow> LogAnalysis list \<Rightarrow> panic + int64 gomap" where
  "rankAnalyses ranked [] = Inr ranked"
| "rankAnalyses ranked (logAnalysis # logAnalyses) =
     (case addAnalysis ranked logAnalysis of
        Inl p \<Rightarrow> Inl p
      | Inr ranked' \<Rightarrow> rankAnalyses ranked' logAnalyses)"

text \<open>Lines 214--220 are the key collection and stable sort of the per-file ranking, so
  they are \<open>rankMessages\<close> again.\<close>

definition analyzeTopFiveLogMessages :: "rank \<Rightarrow> LogAnalysis list \<Rightarrow> panic + string list" where
  "analyzeTopFiveLogMessages rk logAnalyses =
     (case rankAnalyses [] logAnalyses of
        Inl p \<Rightarrow> Inl p
      | Inr ranked \<Rightarrow> Inr (appendFirst (rankMessages rk ranked)))"

text \<open>One iteration of the loop of lines 252--264.\<close>

definition mergeAnalysis :: "LogAnalysis \<Rightarrow> LogAnalysis \<Rightarrow> LogAnalysis" where
  "mergeAnalysis logAnalysis final =
     final\<lparr>numEntries := numEntries final + numEntries logAnalysis,
           logSeverityFrequency :=
             \<lparr>debug = debug (logSeverityFrequency final) + debug (logSeverityFrequency logAnalysis),
              info = info (logSeverityFrequency final) + info (logSeverityFrequency logAnalysis),
              warning = warning (logSeverityFrequency final) + warning (logSeverityFrequency logAnalysis),
              error = error (logSeverityFrequency final) + error (logSeverityFrequency logAnalysis)\<rparr>,
           startTime := (if After (startTime final) (startTime logAnalysis)
                         then startTime logAnalysis else startTime final),
           endTime := (if Before (endTime final) (endTime logAnalysis)
                       then endTime logAnalysis else endTime final)\<rparr>"

definition analyzelogAnalyses :: "rank \<Rightarrow> LogAnalysis list \<Rightarrow> panic + LogAnalysis" where
  "analyzelogAnalyses rk logAnalyses =
     (if length logAnalyses = 0 then Inl NoAnalysisPanic
      else case analyzeTopFiveLogMessages rk logAnalyses of
        Inl p \<Rightarrow> Inl p
      | Inr topFive \<Rightarrow>
          Inr (fold mergeAnalysis logAnalyses
                \<lparr>numEntries = 0, logSeverityFrequency = noSeverities,
                 topFiveLogMessages = appendFirst topFive, topFiveLogMessageFrequencies = [],
                 startTime = startTime (logAnalyses ! 0), endTime = endTime (logAnalyses ! 0)\<rparr>))"

text \<open>
  What the reducer sums: the (message, count) pairs of the first five slots of every
  summary, in the order the summaries are given, and the resulting count of a message.
\<close>

definition slots :: "LogAnalysis \<Rightarrow> (string \<times> int64) list" where
  "slots la = take 5 (zip (topFiveLogMessages la) (topFiveLogMessageFrequencies la))"

definition global_count :: "LogAnalysis list \<Rightarrow> string \<Rightarrow> int64" where
  "global_count las x = sum_list (map snd (filter (\<lambda>kv. fst kv = x) (concat (map slots las))))"

text \<open>The reducer's precondition on a summary: no slot it reads lacks a count.  Every
  summary \<open>analyzeLogFile\<close> returns meets it.\<close>

definition slots_ok :: "LogAnalysis \<Rightarrow> bool" where
  "slots_ok la \<longleftrightarrow> maxMessages (length (topFiveLogMessages la)) \<le> length (topFiveLogMessageFrequencies la)"

definition global_ranked :: "LogAnalysis list \<Rightarrow> int64 gomap" where
  "global_ranked las = fold (\<lambda>(k, v) m. gomap_add m k v) (concat (map slots las)) []"

text \<open>The two per-file summaries of the specification's reduction example and of
  \<open>TestAnalyzeLogFiles\<close> (\<open>src/main-tests.go\<close> lines 185--189): two entries each,
  ``Database error'' once in each file.\<close>

definition summaryA :: LogAnalysis where
  "summaryA = \<lparr>numEntries = 2, logSeverityFrequency = \<lparr>debug = 0, info = 1, warning = 0, error = 1\<rparr>,
     topFiveLogMessages = [''User logged in'', ''Database error'', [], [], []],
     topFiveLogMessageFrequencies = [1, 1, 0, 0, 0],
     startTime = Date 2024 1 1 0 0 0 0, endTime = Date 2024 1 1 0 1 0 0\<rparr>"

definition summaryB :: LogAnalysis where
  "summaryB = \<lparr>numEntries = 2, logSeverityFrequency = \<lparr>debug = 0, info = 0, warning = 1, error = 1\<rparr>,
     topFiveLogMessages = [''Low memory'', ''Database error'', [], [], []],
     topFiveLogMessageFrequencies = [1, 1, 0, 0, 0],
     startTime = Date 2024 1 1 0 2 0 0, endTime = Date 2024 1 1 0 3 0 0\<rparr>"

text \<open>A summary with five distinct messages, and the summary \<open>analyzeLogFile\<close> gives a
  file without records.\<close>

definition summaryC :: LogAnalysis where
  "summaryC = \<lparr>numEntries = 15, logSeverityFrequency = \<lparr>debug = 0, info = 15, warning = 0, error = 0\<rparr>,
     topFiveLogMessages = [''m1'', ''m2'', ''m3'', ''m4'', ''m5''],
     topFiveLogMessageFrequencies = [5, 4, 3, 2, 1],
     startTime = Date 2024 1 2 0 0 0 0, endTime = Date 2024 1 2 0 1 0 0\<rparr>"

definition noRecordsSummary :: LogAnalysis where
  "noRecordsSummary = \<lparr>numEntries = 0, logSeverityFrequency = noSeverities,
     topFiveLogMessages = replicate 5 [], topFiveLogMessageFrequencies = replicate 5 0,
     startTime = zeroTime, endTime = zeroTime\<rparr>"

subsection \<open>Lemmas\<close>

lemma appendFirst_eq [simp]: "appendFirst xs = take 5 xs"
proof -
  have "fold (\<lambda>index out. out @ [xs ! index]) [0..<n] acc = acc @ take n xs"
    if "n \<le> length xs" for n acc
    using that by (induction n) (auto simp: take_Suc_conv_app_nth)
  then show ?thesis by (simp add: appendFirst_def maxMessages_def min_def)
qed

lemma addSlots_ok:
  "\<forall>i \<in> set indices. i < length freqs \<Longrightarrow>
   addSlots tops freqs indices ranked =
     Inr (fold (\<lambda>(k, v) m. gomap_add m k v) (map (\<lambda>i. (tops ! i, freqs ! i)) indices) ranked)"
  by (induction tops freqs indices ranked rule: addSlots.induct) auto

lemma addSlots_fail:
  "\<exists>i \<in> set indices. length freqs \<le> i \<Longrightarrow> addSlots tops freqs indices ranked = Inl IndexOutOfRange"
  by (induction tops freqs indices ranked rule: addSlots.induct) auto

lemma map_nth_zip_upt:
  "n \<le> length xs \<Longrightarrow> n \<le> length ys \<Longrightarrow> map (\<lambda>i. (xs ! i, ys ! i)) [0..<n] = take n (zip xs ys)"
  by (rule nth_equalityI) auto

lemma addAnalysis_ok:
  "maxMessages (length (topFiveLogMessages la)) \<le> length (topFiveLogMessageFrequencies la) \<Longrightarrow>
   addAnalysis ranked la = Inr (fold (\<lambda>(k, v) m. gomap_add m k v) (slots la) ranked)"
  by (simp add: addAnalysis_def addSlots_ok map_nth_zip_upt maxMessages_def slots_def min_def)

lemma addAnalysis_fail:
  "length (topFiveLogMessageFrequencies la) < maxMessages (length (topFiveLogMessages la)) \<Longrightarrow>
   addAnalysis ranked la = Inl IndexOutOfRange"
  by (auto simp: addAnalysis_def intro!: addSlots_fail)

lemma addAnalysis_Inl: "addAnalysis ranked la = Inl p \<Longrightarrow> p = IndexOutOfRange"
proof -
  have "addSlots tops freqs indices r = Inl p \<Longrightarrow> p = IndexOutOfRange" for tops freqs indices r
    by (induction tops freqs indices r rule: addSlots.induct) (auto split: if_splits)
  then show "addAnalysis ranked la = Inl p \<Longrightarrow> p = IndexOutOfRange"
    by (simp add: addAnalysis_def)
qed

lemma wf_slots_ok: "wf_LogAnalysis la \<Longrightarrow> slots_ok la"
  by (simp add: wf_LogAnalysis_def slots_ok_def maxMessages_def)

lemma rankAnalyses_ok:
  "\<forall>la \<in> set las. slots_ok la \<Longrightarrow>
   rankAnalyses ranked las = Inr (fold (\<lambda>(k, v) m. gomap_add m k v) (concat (map slots las)) ranked)"
  by (induction ranked las rule: rankAnalyses.induct) (simp_all add: addAnalysis_ok slots_ok_def)

lemma rankAnalyses_fail:
  "\<exists>la \<in> set las. \<not> slots_ok la \<Longrightarrow> rankAnalyses ranked las = Inl IndexOutOfRange"
  by (induction ranked las rule: rankAnalyses.induct)
    (auto simp: addAnalysis_ok addAnalysis_fail slots_ok_def not_le dest: addAnalysis_Inl split: sum.splits)

lemma gomap_get_global_ranked: "gomap_get (global_ranked las) x = global_count las x"
  by (simp add: global_ranked_def global_count_def gomap_get_fold_add)

lemma keys_global_ranked: "map fst (global_ranked las) = first_seen (map fst (concat (map slots las)))"
  by (simp add: global_ranked_def keys_fold_add_pairs)

lemma fold_mergeAnalysis:
  "fold mergeAnalysis las init =
     init\<lparr>numEntries := numEntries init + sum_list (map numEntries las),
          logSeverityFrequency :=
            \<lparr>debug = debug (logSeverityFrequency init) + sum_list (map (\<lambda>la. debug (logSeverityFrequency la)) las),
             info = info (logSeverityFrequency init) + sum_list (map (\<lambda>la. info (logSeverityFrequency la)) las),
             warning = warning (logSeverityFrequency init) + sum_list (map (\<lambda>la. warning (logSeverityFrequency la)) las),
             error = error (logSeverityFrequency init) + sum_list (map (\<lambda>la. error (logSeverityFrequency la)) las)\<rparr>,
          startTime := fold min (map startTime las) (startTime init),
          endTime := fold max (map endTime las) (endTime init)\<rparr>"
  by (induction las arbitrary: init)
    (simp_all add: mergeAnalysis_def After_def Before_def algebra_simps min_def max_def)

lemma fold_min_Min: "fold min (map f xs) (f x) = Min (set (map f (x # xs)))"
  using Min.set_eq_fold [of "f x" "map f xs"] by simp

lemma fold_max_Max: "fold max (map f xs) (f x) = Max (set (map f (x # xs)))"
  using Max.set_eq_fold [of "f x" "map f xs"] by simp

lemma analyzelogAnalyses_Inr:
  assumes "las \<noteq> []" and "\<forall>la \<in> set las. slots_ok la"
  shows "analyzelogAnalyses rk las =
    Inr \<lparr>numEntries = sum_list (map numEntries las),
         logSeverityFrequency =
           \<lparr>debug = sum_list (map (\<lambda>la. debug (logSeverityFrequency la)) las),
            info = sum_list (map (\<lambda>la. info (logSeverityFrequency la)) las),
            warning = sum_list (map (\<lambda>la. warning (logSeverityFrequency la)) las),
            error = sum_list (map (\<lambda>la. error (logSeverityFrequency la)) las)\<rparr>,
         topFiveLogMessages = take 5 (rankMessages rk (global_ranked las)),
         topFiveLogMessageFrequencies = [],
         startTime = Min (set (map startTime las)), endTime = Max (set (map endTime las))\<rparr>"
proof -
  obtain la rest where las: "las = la # rest" using assms(1) by (cases las) auto
  have "fold min (map startTime las) (startTime (las ! 0)) = Min (set (map startTime las))"
    "fold max (map endTime las) (endTime (las ! 0)) = Max (set (map endTime las))"
    using fold_min_Min [of startTime rest la] fold_max_Max [of endTime rest la] by (simp_all add: las)
  moreover have "length las \<noteq> 0" using assms(1) by simp
  ultimately show ?thesis
    using assms(2)
    by (simp add: analyzelogAnalyses_def analyzeTopFiveLogMessages_def rankAnalyses_ok
        global_ranked_def fold_mergeAnalysis noSeverities_def)
qed

lemma analyzelogAnalyses_InrD:
  "analyzelogAnalyses rk las = Inr fin \<Longrightarrow> las \<noteq> [] \<and> (\<forall>la \<in> set las. slots_ok la)"
  by (cases "\<exists>la \<in> set las. \<not> slots_ok la")
    (auto simp: analyzelogAnalyses_def analyzeTopFiveLogMessages_def rankAnalyses_fail split: if_splits)

lemma analyzelogAnalyses_topFive:
  "analyzelogAnalyses rk las = Inr fin \<Longrightarrow>
   topFiveLogMessages fin = take 5 (rankMessages rk (global_ranked las))"
  using analyzelogAnalyses_InrD [of rk las fin] analyzelogAnalyses_Inr [of las rk] by auto

lemma set_rankMessages [simp]: "set (rankMessages rk ranked) = fst ` set ranked"
  by (simp add: rankMessages_def)

lemma distinct_rankMessages: "distinct (map fst ranked) \<Longrightarrow> distinct (rankMessages rk ranked)"
  by (simp add: rankMessages_def)

lemma sorted_rankMessages: "sorted (map (\<lambda>x. - sint (gomap_get ranked x)) (rankMessages rk ranked))"
  by (simp add: rankMessages_def)

lemma rankMessages_nth_mono:
  "i \<le> j \<Longrightarrow> j < length (rankMessages rk ranked) \<Longrightarrow>
   sint (gomap_get ranked (rankMessages rk ranked ! j)) \<le> sint (gomap_get ranked (rankMessages rk ranked ! i))"
  using sorted_nth_mono [OF sorted_rankMessages [of ranked rk], of i j] by simp

lemma keys_global_ranked_set [simp]: "fst ` set (global_ranked las) = fst ` set (concat (map slots las))"
proof -
  have "set (map fst (global_ranked las)) = set (map fst (concat (map slots las)))"
    by (simp only: keys_global_ranked set_first_seen)
  then show ?thesis by simp
qed

lemma distinct_global_ranked: "distinct (rankMessages rk (global_ranked las))"
  by (rule distinct_rankMessages) (simp add: keys_global_ranked)

lemma length_rankMessages_global:
  "length (rankMessages rk (global_ranked las)) = card (fst ` set (concat (map slots las)))"
proof -
  have "card (set (rankMessages rk (global_ranked las))) = length (rankMessages rk (global_ranked las))"
    by (rule distinct_card [OF distinct_global_ranked])
  then show ?thesis by simp
qed

lemma rankMessages_first:
  assumes "x \<in> fst ` set m" and "\<forall>y \<in> fst ` set m. y \<noteq> x \<longrightarrow> sint (gomap_get m y) < sint (gomap_get m x)"
  shows "rankMessages rk m ! 0 = x"
proof (rule ccontr)
  let ?R = "rankMessages rk m"
  assume ne: "?R ! 0 \<noteq> x"
  from assms(1) obtain j where j: "j < length ?R" "?R ! j = x"
    by (metis in_set_conv_nth set_rankMessages)
  then have "?R ! 0 \<in> fst ` set m" by (metis gr_zeroI less_nat_zero_code nth_mem set_rankMessages)
  with assms(2) ne have "sint (gomap_get m (?R ! 0)) < sint (gomap_get m x)" by blast
  moreover have "sint (gomap_get m (?R ! j)) \<le> sint (gomap_get m (?R ! 0))"
    using rankMessages_nth_mono [of 0 j rk m] j(1) by simp
  ultimately show False using j(2) by simp
qed

lemma sum_list_mset_eq:
  fixes f :: "'a \<Rightarrow> 'b::comm_monoid_add"
  assumes "mset xs = mset ys"
  shows "sum_list (map f xs) = sum_list (map f ys)"
proof -
  from assms have "sum_mset (mset (map f xs)) = sum_mset (mset (map f ys))" by simp
  then show ?thesis by (simp only: sum_mset_sum_list)
qed

subsection \<open>Properties of the reducer\<close>

text \<open>
  C12:  On a non-empty list of well-formed summaries the reducer does not
  panic; its entry count and its four severity counts are the sums (modulo \<open>2^64\<close>) of
  those of the summaries, and it reports no message counts at all: the global
  \<open>topFiveLogMessageFrequencies\<close> is the nil slice.
\<close>

theorem analyzelogAnalyses_totals:
  assumes "las \<noteq> []" and "\<forall>la \<in> set las. wf_LogAnalysis la"
  shows "\<exists>fin. analyzelogAnalyses rk las = Inr fin \<and>
    numEntries fin = sum_list (map numEntries las) \<and>
    debug (logSeverityFrequency fin) = sum_list (map (\<lambda>la. debug (logSeverityFrequency la)) las) \<and>
    info (logSeverityFrequency fin) = sum_list (map (\<lambda>la. info (logSeverityFrequency la)) las) \<and>
    warning (logSeverityFrequency fin) = sum_list (map (\<lambda>la. warning (logSeverityFrequency la)) las) \<and>
    error (logSeverityFrequency fin) = sum_list (map (\<lambda>la. error (logSeverityFrequency la)) las) \<and>
    topFiveLogMessageFrequencies fin = []"
  using analyzelogAnalyses_Inr [OF assms(1), of rk] assms(2) wf_slots_ok by simp

text \<open>
  C13:  The global start time is the earliest start time and the global end
  time the latest end time of the summaries, whatever their order.
\<close>

theorem analyzelogAnalyses_time_span:
  assumes "las \<noteq> []" and "\<forall>la \<in> set las. wf_LogAnalysis la"
  shows "\<exists>fin. analyzelogAnalyses rk las = Inr fin \<and>
    startTime fin = Min (startTime ` set las) \<and> endTime fin = Max (endTime ` set las)"
  using analyzelogAnalyses_Inr [OF assms(1), of rk] assms(2) wf_slots_ok by simp

text \<open>
  C14:  The reducer panics exactly in two cases: with \<open>"No analysis found"\<close> on
  an empty list, and with an index-out-of-range error when some summary has fewer counts
  than the message slots it reads.
\<close>

theorem analyzelogAnalyses_fails:
  "analyzelogAnalyses rk las = Inl p \<longleftrightarrow>
     (las = [] \<and> p = NoAnalysisPanic) \<or>
     (las \<noteq> [] \<and> (\<exists>la \<in> set las. \<not> slots_ok la) \<and> p = IndexOutOfRange)"
proof (cases "las = []")
  case True
  then show ?thesis by (auto simp: analyzelogAnalyses_def)
next
  case False
  show ?thesis
  proof (cases "\<exists>la \<in> set las. \<not> slots_ok la")
    case True
    with False show ?thesis
      by (auto simp: analyzelogAnalyses_def analyzeTopFiveLogMessages_def rankAnalyses_fail)
  next
    case ok: False
    with False analyzelogAnalyses_Inr [of las rk] show ?thesis by auto
  qed
qed

text \<open>
  C15:  The totals and the time span of the global summary do not depend on the
  order of the summaries nor on the map iteration order: a permutation of a list the
  reducer accepts is accepted and gives the same counts and times.
\<close>

theorem analyzelogAnalyses_order_independent:
  assumes "mset las' = mset las" and "analyzelogAnalyses rk las = Inr fin"
  shows "\<exists>fin'. analyzelogAnalyses rk' las' = Inr fin' \<and>
    numEntries fin' = numEntries fin \<and> logSeverityFrequency fin' = logSeverityFrequency fin \<and>
    startTime fin' = startTime fin \<and> endTime fin' = endTime fin"
proof -
  have las: "las \<noteq> []" "\<forall>la \<in> set las. slots_ok la"
    using analyzelogAnalyses_InrD [OF assms(2)] by auto
  have set_eq: "set las' = set las" using assms(1) by (metis set_mset_mset)
  then have las': "las' \<noteq> []" "\<forall>la \<in> set las'. slots_ok la" using las by auto
  have sums: "sum_list (map f las') = sum_list (map f las)" for f :: "LogAnalysis \<Rightarrow> int64"
    by (rule sum_list_mset_eq [OF assms(1)])
  show ?thesis
    using analyzelogAnalyses_Inr [OF las'(1) las'(2), of rk'] analyzelogAnalyses_Inr [OF las(1) las(2), of rk]
      assms(2) set_eq sums by simp
qed

text \<open>
  C16:  The global top five lists at most five distinct messages, all taken from
  the summaries' slots, as many as there are distinct slot messages up to five, in
  non-increasing order of their summed slot counts.
\<close>

theorem analyzelogAnalyses_top_five:
  assumes "analyzelogAnalyses rk las = Inr fin"
  shows "length (topFiveLogMessages fin) = min 5 (card (fst ` set (concat (map slots las)))) \<and>
    distinct (topFiveLogMessages fin) \<and>
    set (topFiveLogMessages fin) \<subseteq> fst ` set (concat (map slots las)) \<and>
    (\<forall>i j. i \<le> j \<longrightarrow> j < length (topFiveLogMessages fin) \<longrightarrow>
       sint (global_count las (topFiveLogMessages fin ! j)) \<le>
       sint (global_count las (topFiveLogMessages fin ! i)))"
proof -
  let ?R = "rankMessages rk (global_ranked las)"
  have tops: "topFiveLogMessages fin = take 5 ?R" by (rule analyzelogAnalyses_topFive [OF assms])
  have mono: "sint (global_count las (take 5 ?R ! j)) \<le> sint (global_count las (take 5 ?R ! i))"
    if "i \<le> j" "j < length (take 5 ?R)" for i j
    using that rankMessages_nth_mono [of i j rk "global_ranked las"]
    by (simp add: gomap_get_global_ranked)
  have "set (take 5 ?R) \<subseteq> set ?R" by (rule set_take_subset)
  then show ?thesis
    using tops mono distinct_global_ranked [of rk las] length_rankMessages_global [of rk las]
    by simp
qed

text \<open>
  C17:  A slot message that does not make the global top five has a summed
  count no larger than that of any message that does.
\<close>

theorem analyzelogAnalyses_top_five_best:
  assumes "analyzelogAnalyses rk las = Inr fin" and "y \<in> fst ` set (concat (map slots las))"
    and "y \<notin> set (topFiveLogMessages fin)" and "i < length (topFiveLogMessages fin)"
  shows "sint (global_count las y) \<le> sint (global_count las (topFiveLogMessages fin ! i))"
proof -
  let ?R = "rankMessages rk (global_ranked las)"
  have tops: "topFiveLogMessages fin = take 5 ?R" by (rule analyzelogAnalyses_topFive [OF assms(1)])
  from assms(2) obtain j where j: "j < length ?R" "?R ! j = y"
    by (metis in_set_conv_nth set_rankMessages keys_global_ranked_set)
  have "5 \<le> j"
  proof (rule ccontr)
    assume "\<not> 5 \<le> j"
    then have "y \<in> set (take 5 ?R)" using j by (metis in_set_conv_nth length_take min_less_iff_conj nth_take not_le)
    with assms(3) tops show False by simp
  qed
  then have "i \<le> j" "topFiveLogMessages fin ! i = ?R ! i" using assms(4) tops by simp_all
  with rankMessages_nth_mono [of i j rk "global_ranked las"] j show ?thesis
    by (simp add: gomap_get_global_ranked)
qed

text \<open>
  C18:  The empty placeholder slots of the per-file summaries are counted
  as a message: when the summaries hold at most five distinct slot messages and one of
  them is the placeholder \<open>""\<close>, the global top five lists \<open>""\<close>.
\<close>

theorem analyzelogAnalyses_placeholder:
  assumes "analyzelogAnalyses rk las = Inr fin"
    and "card (fst ` set (concat (map slots las))) \<le> 5"
    and "[] \<in> fst ` set (concat (map slots las))"
  shows "[] \<in> set (topFiveLogMessages fin)"
proof -
  let ?R = "rankMessages rk (global_ranked las)"
  have "topFiveLogMessages fin = take 5 ?R" by (rule analyzelogAnalyses_topFive [OF assms(1)])
  moreover have "length ?R \<le> 5" using assms(2) length_rankMessages_global [of rk las] by simp
  ultimately show ?thesis using assms(3) by simp
qed

text \<open>
  C19:  A summary of a file without records carries the zero time, and the
  reducer takes it as the earliest start: the global start time becomes 0001-01-01
  whenever such a summary is reduced with summaries of real (non-negative) times.
\<close>

theorem analyzelogAnalyses_zero_start:
  assumes "analyzelogAnalyses rk las = Inr fin" and "la \<in> set las" and "startTime la = zeroTime"
    and "\<forall>la' \<in> set las. zeroTime \<le> startTime la'"
  shows "startTime fin = zeroTime"
proof -
  have las: "las \<noteq> []" "\<forall>la \<in> set las. slots_ok la"
    using analyzelogAnalyses_InrD [OF assms(1)] by auto
  then have "startTime fin = Min (startTime ` set las)"
    using analyzelogAnalyses_Inr [OF las, of rk] assms(1) by simp
  also have "\<dots> = zeroTime"
    using assms(2-4) by (intro Min_eqI) (auto simp: image_iff intro: bexI [of _ la])
  finally show ?thesis .
qed

subsection \<open>The reduction example\<close>

lemmas summary_eval = summaryA_def summaryB_def summaryC_def noRecordsSummary_def slots_def global_ranked_def rankMessages_def
  gomap_range_def Date_def daysSinceEpoch_def isLeap_def daysBefore_def

lemma reduce_example:
  "analyzelogAnalyses (\<lambda>_. 0) [summaryA, summaryB] =
     Inr \<lparr>numEntries = 4, logSeverityFrequency = \<lparr>debug = 0, info = 1, warning = 1, error = 2\<rparr>,
          topFiveLogMessages = [''Database error'', ''User logged in'', ''Low memory'', []],
          topFiveLogMessageFrequencies = [],
          startTime = Date 2024 1 1 0 0 0 0, endTime = Date 2024 1 1 0 3 0 0\<rparr>"
proof -
  have ok: "\<forall>la \<in> set [summaryA, summaryB]. slots_ok la"
    by (simp add: summaryA_def summaryB_def slots_ok_def maxMessages_def)
  show ?thesis
    using analyzelogAnalyses_Inr [OF _ ok, of "\<lambda>_. 0"] by (simp add: summary_eval)
qed

text \<open>Instances of the reducer's claims at the example summaries.\<close>

theorem analyzelogAnalyses_totals_witness:
  "[summaryA, summaryB] \<noteq> [] \<and> wf_LogAnalysis summaryA \<and> wf_LogAnalysis summaryB \<and>
   (\<exists>fin. analyzelogAnalyses (\<lambda>_. 0) [summaryA, summaryB] = Inr fin \<and> numEntries fin = 4 \<and>
     debug (logSeverityFrequency fin) = 0 \<and> info (logSeverityFrequency fin) = 1 \<and> warning (logSeverityFrequency fin) = 1 \<and>
     error (logSeverityFrequency fin) = 2 \<and> topFiveLogMessageFrequencies fin = [])"
proof -
  have h: "[summaryA, summaryB] \<noteq> []" "\<forall>la \<in> set [summaryA, summaryB]. wf_LogAnalysis la"
    by (simp_all add: summaryA_def summaryB_def wf_LogAnalysis_def)
  from analyzelogAnalyses_totals [OF h, of "\<lambda>_. 0"] h show ?thesis
    by (simp add: summaryA_def summaryB_def)
qed

theorem analyzelogAnalyses_time_span_witness:
  "[summaryB, summaryA] \<noteq> [] \<and> wf_LogAnalysis summaryB \<and> wf_LogAnalysis summaryA \<and>
   (\<exists>fin. analyzelogAnalyses (\<lambda>_. 0) [summaryB, summaryA] = Inr fin \<and>
     startTime fin = Date 2024 1 1 0 0 0 0 \<and> endTime fin = Date 2024 1 1 0 3 0 0)"
proof -
  have h: "[summaryB, summaryA] \<noteq> []" "\<forall>la \<in> set [summaryB, summaryA]. wf_LogAnalysis la"
    by (simp_all add: summaryA_def summaryB_def wf_LogAnalysis_def)
  from analyzelogAnalyses_time_span [OF h, of "\<lambda>_. 0"] h show ?thesis
    by (simp add: summaryA_def summaryB_def Date_def daysSinceEpoch_def isLeap_def daysBefore_def)
qed

theorem analyzelogAnalyses_fails_witness:
  "analyzelogAnalyses (\<lambda>_. 0) [] = Inl NoAnalysisPanic"
  using analyzelogAnalyses_fails [of "\<lambda>_. 0" "[]" NoAnalysisPanic] by simp

theorem analyzelogAnalyses_order_independent_witness:
  "mset [summaryB, summaryA] = mset [summaryA, summaryB] \<and>
   analyzelogAnalyses (\<lambda>_. 0) [summaryA, summaryB] =
     Inr \<lparr>numEntries = 4, logSeverityFrequency = \<lparr>debug = 0, info = 1, warning = 1, error = 2\<rparr>,
          topFiveLogMessages = [''Database error'', ''User logged in'', ''Low memory'', []],
          topFiveLogMessageFrequencies = [],
          startTime = Date 2024 1 1 0 0 0 0, endTime = Date 2024 1 1 0 3 0 0\<rparr> \<and>
   (\<exists>fin'. analyzelogAnalyses (\<lambda>_. 1) [summaryB, summaryA] = Inr fin' \<and> numEntries fin' = 4 \<and>
     logSeverityFrequency fin' = \<lparr>debug = 0, info = 1, warning = 1, error = 2\<rparr> \<and>
     startTime fin' = Date 2024 1 1 0 0 0 0 \<and> endTime fin' = Date 2024 1 1 0 3 0 0)"
proof -
  have p: "mset [summaryB, summaryA] = mset [summaryA, summaryB]" by simp
  from analyzelogAnalyses_order_independent [OF p reduce_example, of "\<lambda>_. 1"] p reduce_example
  show ?thesis by simp
qed

theorem analyzelogAnalyses_top_five_witness:
  "analyzelogAnalyses (\<lambda>_. 0) [summaryA, summaryB] =
     Inr \<lparr>numEntries = 4, logSeverityFrequency = \<lparr>debug = 0, info = 1, warning = 1, error = 2\<rparr>,
          topFiveLogMessages = [''Database error'', ''User logged in'', ''Low memory'', []],
          topFiveLogMessageFrequencies = [],
          startTime = Date 2024 1 1 0 0 0 0, endTime = Date 2024 1 1 0 3 0 0\<rparr> \<and>
   sint (global_count [summaryA, summaryB] ''Low memory'') \<le>
     sint (global_count [summaryA, summaryB] ''Database error'')"
proof -
  let ?X = "\<lparr>numEntries = 4, logSeverityFrequency = \<lparr>debug = 0, info = 1, warning = 1, error = 2\<rparr>,
          topFiveLogMessages = [''Database error'', ''User logged in'', ''Low memory'', []],
          topFiveLogMessageFrequencies = [],
          startTime = Date 2024 1 1 0 0 0 0, endTime = Date 2024 1 1 0 3 0 0\<rparr>"
  have "\<forall>i j. i \<le> j \<longrightarrow> j < length (topFiveLogMessages ?X) \<longrightarrow>
      sint (global_count [summaryA, summaryB] (topFiveLogMessages ?X ! j)) \<le>
      sint (global_count [summaryA, summaryB] (topFiveLogMessages ?X ! i))"
    using analyzelogAnalyses_top_five [OF reduce_example] by blast
  from this [rule_format, of 0 2] reduce_example show ?thesis by simp
qed

lemma reduce_example_C:
  "analyzelogAnalyses (\<lambda>_. 0) [summaryC, summaryA] =
     Inr \<lparr>numEntries = 17, logSeverityFrequency = \<lparr>debug = 0, info = 16, warning = 0, error = 1\<rparr>,
          topFiveLogMessages = [''m1'', ''m2'', ''m3'', ''m4'', ''m5''],
          topFiveLogMessageFrequencies = [],
          startTime = Date 2024 1 1 0 0 0 0, endTime = Date 2024 1 2 0 1 0 0\<rparr>"
proof -
  have ok: "\<forall>la \<in> set [summaryC, summaryA]. slots_ok la"
    by (simp add: summaryA_def summaryC_def slots_ok_def maxMessages_def)
  show ?thesis
    using analyzelogAnalyses_Inr [OF _ ok, of "\<lambda>_. 0"] by (simp add: summary_eval)
qed

theorem analyzelogAnalyses_top_five_best_witness:
  "analyzelogAnalyses (\<lambda>_. 0) [summaryC, summaryA] =
     Inr \<lparr>numEntries = 17, logSeverityFrequency = \<lparr>debug = 0, info = 16, warning = 0, error = 1\<rparr>,
          topFiveLogMessages = [''m1'', ''m2'', ''m3'', ''m4'', ''m5''],
          topFiveLogMessageFrequencies = [],
          startTime = Date 2024 1 1 0 0 0 0, endTime = Date 2024 1 2 0 1 0 0\<rparr> \<and>
   ''User logged in'' \<in> fst ` set (concat (map slots [summaryC, summaryA])) \<and>
   ''User logged in'' \<notin> set [''m1'', ''m2'', ''m3'', ''m4'', ''m5''] \<and>
   sint (global_count [summaryC, summaryA] ''User logged in'') \<le>
     sint (global_count [summaryC, summaryA] ''m5'')"
proof -
  have y: "''User logged in'' \<in> fst ` set (concat (map slots [summaryC, summaryA]))"
    by (simp add: summaryA_def summaryC_def slots_def)
  have n: "''User logged in'' \<notin> set (topFiveLogMessages \<lparr>numEntries = 17,
      logSeverityFrequency = \<lparr>debug = 0, info = 16, warning = 0, error = 1\<rparr>,
      topFiveLogMessages = [''m1'', ''m2'', ''m3'', ''m4'', ''m5''],
      topFiveLogMessageFrequencies = [], startTime = Date 2024 1 1 0 0 0 0,
      endTime = Date 2024 1 2 0 1 0 0\<rparr>)"
    by simp
  from analyzelogAnalyses_top_five_best [OF reduce_example_C y n, of 4] reduce_example_C y
  show ?thesis by simp
qed

theorem analyzelogAnalyses_placeholder_witness:
  "analyzelogAnalyses (\<lambda>_. 0) [summaryA, summaryB] =
     Inr \<lparr>numEntries = 4, logSeverityFrequency = \<lparr>debug = 0, info = 1, warning = 1, error = 2\<rparr>,
          topFiveLogMessages = [''Database error'', ''User logged in'', ''Low memory'', []],
          topFiveLogMessageFrequencies = [],
          startTime = Date 2024 1 1 0 0 0 0, endTime = Date 2024 1 1 0 3 0 0\<rparr> \<and>
   card (fst ` set (concat (map slots [summaryA, summaryB]))) \<le> 5 \<and>
   [] \<in> fst ` set (concat (map slots [summaryA, summaryB])) \<and>
   [] \<in> set [''Database error'', ''User logged in'', ''Low memory'', []]"
proof -
  have c: "card (fst ` set (concat (map slots [summaryA, summaryB]))) \<le> 5"
    and e: "[] \<in> fst ` set (concat (map slots [summaryA, summaryB]))"
    by (simp_all add: summaryA_def summaryB_def slots_def card_insert_if)
  from analyzelogAnalyses_placeholder [OF reduce_example c e] reduce_example c e
  show ?thesis by simp
qed

lemma reduce_example_no_records:
  "analyzelogAnalyses (\<lambda>_. 0) [noRecordsSummary, summaryA] =
     Inr \<lparr>numEntries = 2, logSeverityFrequency = \<lparr>debug = 0, info = 1, warning = 0, error = 1\<rparr>,
          topFiveLogMessages = [''User logged in'', ''Database error'', []],
          topFiveLogMessageFrequencies = [],
          startTime = zeroTime, endTime = Date 2024 1 1 0 1 0 0\<rparr>"
proof -
  have ok: "\<forall>la \<in> set [noRecordsSummary, summaryA]. slots_ok la"
    by (simp add: summaryA_def noRecordsSummary_def slots_ok_def maxMessages_def)
  have r: "replicate 5 ([] :: string) = [[], [], [], [], []]" "replicate 5 (0 :: int64) = [0, 0, 0, 0, 0]"
    by (simp_all add: eval_nat_numeral)
  show ?thesis
    using analyzelogAnalyses_Inr [OF _ ok, of "\<lambda>_. 0"]
    by (simp add: summary_eval noSeverities_def zeroTime_def r)
qed

theorem analyzelogAnalyses_zero_start_witness:
  "analyzelogAnalyses (\<lambda>_. 0) [noRecordsSummary, summaryA] =
     Inr \<lparr>numEntries = 2, logSeverityFrequency = \<lparr>debug = 0, info = 1, warning = 0, error = 1\<rparr>,
          topFiveLogMessages = [''User logged in'', ''Database error'', []],
          topFiveLogMessageFrequencies = [],
          startTime = zeroTime, endTime = Date 2024 1 1 0 1 0 0\<rparr> \<and>
   noRecordsSummary \<in> set [noRecordsSummary, summaryA] \<and> startTime noRecordsSummary = zeroTime \<and>
   zeroTime \<le> startTime summaryA"
proof -
  have m: "noRecordsSummary \<in> set [noRecordsSummary, summaryA]" by simp
  have z: "startTime noRecordsSummary = zeroTime" by (simp add: noRecordsSummary_def)
  have n: "\<forall>la' \<in> set [noRecordsSummary, summaryA]. zeroTime \<le> startTime la'"
    by (simp add: noRecordsSummary_def summaryA_def zeroTime_def Date_def daysSinceEpoch_def
        isLeap_def daysBefore_def)
  from analyzelogAnalyses_zero_start [OF reduce_example_no_records m z n] reduce_example_no_records m z n
  show ?thesis by simp
qed

end
