(* ===== verification/Dispatcher.thy ===== *)
theory Dispatcher
  imports Reducer
begin

text \<open>
  The dispatcher \<open>analyzeLogFiles\<close> of \<open>src/main.go\<close> (lines 269--286) with the
  goroutines it starts, \<open>analyzeLogFile\<close> (166--176).  The main goroutine makes an
  unbuffered channel, and for each path calls \<open>waitGroup.Add(1)\<close> and starts a goroutine;
  it then receives one summary per path, calls \<open>waitGroup.Wait()\<close>, closes the channel and
  reduces the summaries in the order they arrived.  Goroutine \<open>i\<close> computes the summary of
  path \<open>i\<close>, sends it on the channel (a rendezvous with the main goroutine's receive, the
  channel having no buffer) and calls \<open>waitGroup.Done()\<close>.

  The state is a record of the goroutines' statuses, the wait-group counter, the received
  summaries, whether the channel is closed, the main goroutine's program counter and the
  failure that stopped the program, if any (a panic in any goroutine ends the process).
  An \<open>event\<close> is one atomic step of one goroutine, chosen by the scheduler: \<open>dstep\<close>
  gives its effect, or \<open>None\<close> when it is not enabled.  The map iteration order of each
  call to \<open>getTopFiveLogMessages\<close> and \<open>analyzeTopFiveLogMessages\<close> is part of the
  event that runs it.  \<open>waitGroup.Add(1)\<close> and the \<open>go\<close> statement form one step: no
  other goroutine can observe the state between them.
\<close>

datatype gstatus = Computing | Sending LogAnalysis | Finishing LogAnalysis | Exited LogAnalysis

datatype mainpc = Spawning | Receiving | Waiting | Closing | Reducing | Returned LogAnalysis

datatype failure = Panicked panic | SendOnClosedChannel | NegativeWaitGroupCounter

record dstate =
  goroutines :: "gstatus list"
  wg :: int
  logAnalyses :: "LogAnalysis list"
  chClosed :: bool
  pc :: mainpc
  crashed :: "failure option"

datatype event =
    Spawn
  | Compute nat rank
  | Send nat
  | Done nat
  | Wait
  | Close
  | Reduce rank

definition initState :: dstate where
  "initState = \<lparr>goroutines = [], wg = 0, logAnalyses = [], chClosed = False, pc = Spawning,
     crashed = None\<rparr>"

text \<open>
  One step.  \<open>Spawn\<close> is one iteration of the loop of lines 272--275, or its exit;
  while the main goroutine is \<open>Receiving\<close> it is blocked in \<open><- logAnalysisChan\<close>
  (line 278), or leaves the loop of lines 277--280 after \<open>len(logPaths)\<close> receives.
  \<open>Compute i rk\<close> runs lines 167--173 in goroutine \<open>i\<close>; a panic there ends the program.
  \<open>Send i\<close> is line 174: on an open channel it completes only together with the main
  goroutine's receive, on a closed channel it panics.  \<open>Done i\<close> is line 175, which
  panics if the counter would become negative.  \<open>Wait\<close>, \<open>Close\<close> and \<open>Reduce rk\<close>
  are lines 281, 282 and 283.
\<close>

fun dstep :: "filesystem \<Rightarrow> string list \<Rightarrow> event \<Rightarrow> dstate \<Rightarrow> dstate option" where
  "dstep fs logPaths Spawn s =
     (if crashed s \<noteq> None \<or> pc s \<noteq> Spawning then None
      else if length (goroutines s) < length logPaths
      then Some (s\<lparr>wg := wg s + 1, goroutines := goroutines s @ [Computing]\<rparr>)
      else Some (s\<lparr>pc := Receiving\<rparr>))"
| "dstep fs logPaths (Compute i rk) s =
     (if crashed s \<noteq> None \<or> length (goroutines s) \<le> i \<or> goroutines s ! i \<noteq> Computing then None
      else case analyzeLogFile fs rk (logPaths ! i) of
        Inl p \<Rightarrow> Some (s\<lparr>crashed := Some (Panicked p)\<rparr>)
      | Inr la \<Rightarrow> Some (s\<lparr>goroutines := (goroutines s)[i := Sending la]\<rparr>))"
| "dstep fs logPaths (Send i) s =
     (if crashed s \<noteq> None \<or> length (goroutines s) \<le> i then None
      else case goroutines s ! i of
        Sending la \<Rightarrow>
          (if chClosed s then Some (s\<lparr>crashed := Some SendOnClosedChannel\<rparr>)
           else if pc s = Receiving \<and> length (logAnalyses s) < length logPaths
           then Some (s\<lparr>goroutines := (goroutines s)[i := Finishing la],
                       logAnalyses := logAnalyses s @ [la]\<rparr>)
           else None)
      | _ \<Rightarrow> None)"
| "dstep fs logPaths (Done i) s =
     (if crashed s \<noteq> None \<or> length (goroutines s) \<le> i then None
      else case goroutines s ! i of
        Finishing la \<Rightarrow>
          (if wg s - 1 < 0 then Some (s\<lparr>crashed := Some NegativeWaitGroupCounter\<rparr>)
           else Some (s\<lparr>goroutines := (goroutines s)[i := Exited la], wg := wg s - 1\<rparr>))
      | _ \<Rightarrow> None)"
| "dstep fs logPaths Wait s =
     (if crashed s \<noteq> None then None
      else if pc s = Receiving \<and> length (logAnalyses s) = length logPaths then Some (s\<lparr>pc := Waiting\<rparr>)
      else if pc s = Waiting \<and> wg s = 0 then Some (s\<lparr>pc := Closing\<rparr>)
      else None)"
| "dstep fs logPaths Close s =
     (if crashed s \<noteq> None \<or> pc s \<noteq> Closing then None
      else Some (s\<lparr>chClosed := True, pc := Reducing\<rparr>))"
| "dstep fs logPaths (Reduce rk) s =
     (if crashed s \<noteq> None \<or> pc s \<noteq> Reducing then None
      else case analyzelogAnalyses rk (logAnalyses s) of
        Inl p \<Rightarrow> Some (s\<lparr>crashed := Some (Panicked p)\<rparr>)
      | Inr r \<Rightarrow> Some (s\<lparr>pc := Returned r\<rparr>))"

text \<open>A schedule: a sequence of events, run from a state.\<close>

fun run :: "filesystem \<Rightarrow> string list \<Rightarrow> event list \<Rightarrow> dstate \<Rightarrow> dstate option" where
  "run fs logPaths [] s = Some s"
| "run fs logPaths (e # es) s =
     (case dstep fs logPaths e s of None \<Rightarrow> None | Some s' \<Rightarrow> run fs logPaths es s')"

text \<open>The states the program can reach from its start under some schedule.\<close>

inductive reachable :: "filesystem \<Rightarrow> string list \<Rightarrow> dstate \<Rightarrow> bool" for fs logPaths where
  init: "reachable fs logPaths initState"
| step: "reachable fs logPaths s \<Longrightarrow> dstep fs logPaths e s = Some s' \<Longrightarrow> reachable fs logPaths s'"

text \<open>
  The invariant of the reachable states.  \<open>phase\<close> orders the main goroutine's program
  points; \<open>summaryOf\<close> is the summary a goroutine holds once it has computed it;
  \<open>sentOf\<close> is that summary once it has been received; \<open>activeCount\<close> counts the
  goroutines that have not yet called \<open>Done\<close>.
\<close>

fun phase :: "mainpc \<Rightarrow> nat" where
  "phase Spawning = 0"
| "phase Receiving = 1"
| "phase Waiting = 2"
| "phase Closing = 3"
| "phase Reducing = 4"
| "phase (Returned r) = 5"

fun summaryOf :: "gstatus \<Rightarrow> LogAnalysis option" where
  "summaryOf Computing = None"
| "summaryOf (Sending la) = Some la"
| "summaryOf (Finishing la) = Some la"
| "summaryOf (Exited la) = Some la"

fun sentOf :: "gstatus \<Rightarrow> LogAnalysis list" where
  "sentOf (Finishing la) = [la]"
| "sentOf (Exited la) = [la]"
| "sentOf _ = []"

fun activeOf :: "gstatus \<Rightarrow> int" where
  "activeOf (Exited la) = 0"
| "activeOf _ = 1"

definition sentAnalyses :: "gstatus list \<Rightarrow> LogAnalysis list" where
  "sentAnalyses gs = concat (map sentOf gs)"

definition activeCount :: "gstatus list \<Rightarrow> int" where
  "activeCount gs = sum_list (map activeOf gs)"

definition dinv :: "filesystem \<Rightarrow> string list \<Rightarrow> dstate \<Rightarrow> bool" where
  "dinv fs logPaths s \<longleftrightarrow>
     length (goroutines s) \<le> length logPaths \<and>
     (pc s \<noteq> Spawning \<longrightarrow> length (goroutines s) = length logPaths) \<and>
     wg s = activeCount (goroutines s) \<and>
     mset (logAnalyses s) = mset (sentAnalyses (goroutines s)) \<and>
     (\<forall>i < length (goroutines s). \<forall>la. summaryOf (goroutines s ! i) = Some la \<longrightarrow>
        (\<exists>rk. analyzeLogFile fs rk (logPaths ! i) = Inr la)) \<and>
     (chClosed s \<longleftrightarrow> 4 \<le> phase (pc s)) \<and>
     (2 \<le> phase (pc s) \<longrightarrow> length (logAnalyses s) = length logPaths) \<and>
     (3 \<le> phase (pc s) \<longrightarrow> wg s = 0) \<and>
     (\<forall>r. pc s = Returned r \<longrightarrow> (\<exists>rk. analyzelogAnalyses rk (logAnalyses s) = Inr r)) \<and>
     (\<forall>f. crashed s = Some f \<longrightarrow> (\<exists>p. f = Panicked p))"

text \<open>A bound on the remaining steps: each goroutine still to be started counts 4, a
  computing goroutine 3, a sending one 2, a finishing one 1; the main goroutine counts
  the program points it has left; a live program counts 1 more than a crashed one.\<close>

fun gweight :: "gstatus \<Rightarrow> nat" where
  "gweight Computing = 3"
| "gweight (Sending la) = 2"
| "gweight (Finishing la) = 1"
| "gweight (Exited la) = 0"

definition dmeasure :: "string list \<Rightarrow> dstate \<Rightarrow> nat" where
  "dmeasure logPaths s =
     (if crashed s = None then 1 else 0) + (6 - phase (pc s)) +
     4 * (length logPaths - length (goroutines s)) + sum_list (map gweight (goroutines s))"

subsection \<open>Lemmas on the goroutine table\<close>

lemma mset_sentAnalyses_update:
  "i < length gs \<Longrightarrow>
   mset (sentAnalyses (gs[i := g])) + mset (sentOf (gs ! i)) = mset (sentAnalyses gs) + mset (sentOf g)"
proof (induction gs arbitrary: i)
  case (Cons x xs)
  then show ?case by (cases i) (simp_all add: sentAnalyses_def algebra_simps)
qed simp

lemma activeCount_update:
  "i < length gs \<Longrightarrow> activeCount (gs[i := g]) = activeCount gs - activeOf (gs ! i) + activeOf g"
proof (induction gs arbitrary: i)
  case (Cons x xs)
  then show ?case by (cases i) (simp_all add: activeCount_def)
qed simp

lemma length_sentAnalyses: "length (sentAnalyses gs) \<le> length gs"
proof (induction gs)
  case (Cons g gs)
  then show ?case by (cases g) (simp_all add: sentAnalyses_def)
qed (simp add: sentAnalyses_def)

lemma activeCount_nonneg: "0 \<le> activeCount gs"
proof (induction gs)
  case (Cons g gs)
  then show ?case by (cases g) (simp_all add: activeCount_def)
qed (simp add: activeCount_def)

text \<open>When every goroutine has been received from, each one is finishing or exited.\<close>

lemma all_sent:
  "length (sentAnalyses gs) = length gs \<Longrightarrow> g \<in> set gs \<Longrightarrow> sentOf g \<noteq> []"
proof (induction gs)
  case (Cons x xs)
  have "length (sentAnalyses xs) \<le> length xs" by (rule length_sentAnalyses)
  moreover have "length (sentOf x) \<le> 1" by (cases x) simp_all
  ultimately have "length (sentOf x) = 1" "length (sentAnalyses xs) = length xs"
    using Cons.prems(1) by (simp_all add: sentAnalyses_def)
  with Cons show ?case by auto
qed simp

lemma activeCount_zero: "activeCount gs = 0 \<Longrightarrow> g \<in> set gs \<Longrightarrow> activeOf g = 0"
proof (induction gs)
  case (Cons x xs)
  have "0 \<le> activeCount xs" "0 \<le> activeOf x" by (rule activeCount_nonneg) (cases x; simp)
  with Cons show ?case by (auto simp: activeCount_def)
qed simp

lemma activeOf_le_activeCount: "i < length gs \<Longrightarrow> activeOf (gs ! i) \<le> activeCount gs"
  using activeCount_update [of i gs "Exited undefined"] activeCount_nonneg [of "gs[i := Exited undefined]"]
  by simp

lemma sentAnalyses_snoc [simp]: "sentAnalyses (gs @ [g]) = sentAnalyses gs @ sentOf g"
  by (simp add: sentAnalyses_def)

lemma activeCount_snoc [simp]: "activeCount (gs @ [g]) = activeCount gs + activeOf g"
  by (simp add: activeCount_def)

text \<open>After the wait, every goroutine has exited: none can be sending.\<close>

lemma dinv_closed_no_sender:
  assumes "dinv fs logPaths s" and "3 \<le> phase (pc s)" and "i < length (goroutines s)"
  shows "\<exists>la. goroutines s ! i = Exited la"
proof -
  let ?gs = "goroutines s"
  have "length (logAnalyses s) = length logPaths" "length ?gs = length logPaths" "wg s = 0"
    using assms(1,2) by (auto simp: dinv_def)
  moreover have "mset (logAnalyses s) = mset (sentAnalyses ?gs)" using assms(1) by (simp add: dinv_def)
  ultimately have "length (sentAnalyses ?gs) = length ?gs" by (metis size_mset)
  then have "sentOf (?gs ! i) \<noteq> []" using assms(3) by (simp add: all_sent)
  moreover have "activeOf (?gs ! i) = 0"
    using assms(1,3) \<open>wg s = 0\<close> by (auto simp: dinv_def intro: activeCount_zero)
  ultimately show ?thesis by (cases "?gs ! i") auto
qed

lemma dinv_running_early:
  assumes "dinv fs logPaths s" and "i < length (goroutines s)" and "\<And>la. goroutines s ! i \<noteq> Exited la"
  shows "phase (pc s) < 3"
  using dinv_closed_no_sender [OF assms(1) _ assms(2)] assms(3) by force

lemma dinv_init: "dinv fs logPaths initState"
  by (simp add: dinv_def initState_def sentAnalyses_def activeCount_def)

subsection \<open>Preservation of the invariant\<close>

lemma dinv_Spawn:
  assumes "dinv fs logPaths s" and "dstep fs logPaths Spawn s = Some s'"
  shows "dinv fs logPaths s'"
proof (cases "length (goroutines s) < length logPaths")
  case True
  with assms show ?thesis
    by (auto simp: dinv_def nth_append split: if_splits)
next
  case False
  with assms show ?thesis by (auto simp: dinv_def split: if_splits)
qed

lemma dinv_Compute:
  assumes "dinv fs logPaths s" and "dstep fs logPaths (Compute i rk) s = Some s'"
  shows "dinv fs logPaths s'"
proof (cases "analyzeLogFile fs rk (logPaths ! i)")
  case (Inl p)
  with assms show ?thesis by (auto simp: dinv_def split: if_splits)
next
  case (Inr la)
  let ?gs = "goroutines s"
  from assms(2) Inr have i: "i < length ?gs" "?gs ! i = Computing" "crashed s = None"
    and s': "s' = s\<lparr>goroutines := ?gs[i := Sending la]\<rparr>"
    by (auto split: if_splits)
  have "phase (pc s) < 3" using dinv_running_early [OF assms(1) i(1)] i(2) by simp
  moreover have "mset (sentAnalyses (?gs[i := Sending la])) = mset (sentAnalyses ?gs)"
    using mset_sentAnalyses_update [OF i(1), of "Sending la"] i(2) by simp
  moreover have "activeCount (?gs[i := Sending la]) = activeCount ?gs"
    using activeCount_update [OF i(1), of "Sending la"] i(2) by simp
  moreover have "summaryOf (?gs[i := Sending la] ! j) = Some la' \<Longrightarrow>
      \<exists>rk. analyzeLogFile fs rk (logPaths ! j) = Inr la'" if "j < length ?gs" for j la'
    using assms(1) Inr that by (cases "j = i") (auto simp: dinv_def)
  ultimately show ?thesis using assms(1) s' by (simp add: dinv_def)
qed

lemma dinv_Send:
  assumes "dinv fs logPaths s" and "dstep fs logPaths (Send i) s = Some s'"
  shows "dinv fs logPaths s'"
proof -
  let ?gs = "goroutines s"
  from assms(2) obtain la where i: "i < length ?gs" "?gs ! i = Sending la" "crashed s = None"
    by (auto split: if_splits gstatus.splits)
  have open_ch: "\<not> chClosed s"
  proof
    assume "chClosed s"
    then have "3 \<le> phase (pc s)" using assms(1) by (simp add: dinv_def)
    from dinv_closed_no_sender [OF assms(1) this i(1)] i(2) show False by simp
  qed
  with assms(2) i have recv: "pc s = Receiving" "length (logAnalyses s) < length logPaths"
    and s': "s' = s\<lparr>goroutines := ?gs[i := Finishing la], logAnalyses := logAnalyses s @ [la]\<rparr>"
    by (auto split: if_splits)
  have "mset (sentAnalyses (?gs[i := Finishing la])) = mset (sentAnalyses ?gs) + {#la#}"
    using mset_sentAnalyses_update [OF i(1), of "Finishing la"] i(2) by simp
  moreover have "activeCount (?gs[i := Finishing la]) = activeCount ?gs"
    using activeCount_update [OF i(1), of "Finishing la"] i(2) by simp
  moreover have "summaryOf (?gs[i := Finishing la] ! j) = Some la' \<Longrightarrow>
      \<exists>rk. analyzeLogFile fs rk (logPaths ! j) = Inr la'" if "j < length ?gs" for j la'
    using assms(1) i that by (cases "j = i") (fastforce simp: dinv_def)+
  ultimately show ?thesis using assms(1) s' recv open_ch by (simp add: dinv_def)
qed

lemma dinv_Done:
  assumes "dinv fs logPaths s" and "dstep fs logPaths (Done i) s = Some s'"
  shows "dinv fs logPaths s'"
proof -
  let ?gs = "goroutines s"
  from assms(2) obtain la where i: "i < length ?gs" "?gs ! i = Finishing la" "crashed s = None"
    by (auto split: if_splits gstatus.splits)
  have "1 \<le> wg s"
    using activeOf_le_activeCount [OF i(1)] i(2) assms(1) by (simp add: dinv_def)
  with assms(2) i have s': "s' = s\<lparr>goroutines := ?gs[i := Exited la], wg := wg s - 1\<rparr>"
    by auto
  have "phase (pc s) < 3" using dinv_running_early [OF assms(1) i(1)] i(2) by simp
  moreover have "mset (sentAnalyses (?gs[i := Exited la])) = mset (sentAnalyses ?gs)"
    using mset_sentAnalyses_update [OF i(1), of "Exited la"] i(2) by simp
  moreover have "activeCount (?gs[i := Exited la]) = activeCount ?gs - 1"
    using activeCount_update [OF i(1), of "Exited la"] i(2) by simp
  moreover have "summaryOf (?gs[i := Exited la] ! j) = Some la' \<Longrightarrow>
      \<exists>rk. analyzeLogFile fs rk (logPaths ! j) = Inr la'" if "j < length ?gs" for j la'
    using assms(1) i that by (cases "j = i") (fastforce simp: dinv_def)+
  ultimately show ?thesis using assms(1) s' by (simp add: dinv_def)
qed

lemma dinv_Wait:
  assumes "dinv fs logPaths s" and "dstep fs logPaths Wait s = Some s'"
  shows "dinv fs logPaths s'"
  using assms by (auto simp: dinv_def split: if_splits)

lemma dinv_Close:
  assumes "dinv fs logPaths s" and "dstep fs logPaths Close s = Some s'"
  shows "dinv fs logPaths s'"
  using assms by (auto simp: dinv_def split: if_splits)

lemma dinv_Reduce:
  assumes "dinv fs logPaths s" and "dstep fs logPaths (Reduce rk) s = Some s'"
  shows "dinv fs logPaths s'"
  using assms by (auto simp: dinv_def split: if_splits sum.splits)

lemma dinv_step: "dinv fs logPaths s \<Longrightarrow> dstep fs logPaths e s = Some s' \<Longrightarrow> dinv fs logPaths s'"
  by (cases e) (auto intro: dinv_Spawn dinv_Compute dinv_Send dinv_Done dinv_Wait dinv_Close dinv_Reduce)

lemma reachable_dinv: "reachable fs logPaths s \<Longrightarrow> dinv fs logPaths s"
  by (induction rule: reachable.induct) (auto intro: dinv_init dinv_step)

subsection \<open>Termination and progress\<close>

lemma sum_list_map_update:
  "i < length xs \<Longrightarrow> sum_list (map f (xs[i := x])) + f (xs ! i) = sum_list (map f xs) + (f x :: nat)"
proof (induction xs arbitrary: i)
  case (Cons y ys)
  then show ?case by (cases i) simp_all
qed simp

lemma gweight_update_less:
  "i < length gs \<Longrightarrow> gweight g < gweight (gs ! i) \<Longrightarrow>
   sum_list (map gweight (gs[i := g])) < sum_list (map gweight gs)"
  using sum_list_map_update [of i gs gweight g] by linarith

lemma dstep_decreases:
  assumes "dstep fs logPaths e s = Some s'"
  shows "dmeasure logPaths s' < dmeasure logPaths s"
  using assms
  by (cases e) (auto simp: dmeasure_def intro!: gweight_update_less split: if_splits sum.splits gstatus.splits)

lemma run_length_le: "run fs logPaths es s = Some s' \<Longrightarrow> length es \<le> dmeasure logPaths s"
proof (induction es arbitrary: s)
  case (Cons e es)
  then obtain s'' where "dstep fs logPaths e s = Some s''" "run fs logPaths es s'' = Some s'"
    by (auto split: option.splits)
  with Cons.IH dstep_decreases [of fs logPaths e s s''] show ?case by fastforce
qed simp

lemma not_all_sent:
  "length (sentAnalyses gs) < length gs \<Longrightarrow> \<exists>i < length gs. sentOf (gs ! i) = []"
proof (induction gs)
  case (Cons g gs)
  show ?case
  proof (cases "sentOf g = []")
    case False
    then have "length (sentOf g) = 1" by (cases g) simp_all
    with Cons.prems have "length (sentAnalyses gs) < length gs" by (simp add: sentAnalyses_def)
    with Cons.IH show ?thesis by auto
  qed auto
qed simp

lemma active_exists: "0 < activeCount gs \<Longrightarrow> \<exists>i < length gs. activeOf (gs ! i) \<noteq> 0"
proof (induction gs)
  case (Cons g gs)
  show ?case
  proof (cases "activeOf g = 0")
    case True
    with Cons.prems have "0 < activeCount gs" by (simp add: activeCount_def)
    with Cons.IH obtain i where "i < length gs" "activeOf (gs ! i) \<noteq> 0" by blast
    then show ?thesis by (intro exI [of _ "Suc i"]) simp
  qed (intro exI [of _ 0]; simp)
qed (simp add: activeCount_def)

lemma dinv_progress:
  assumes "dinv fs logPaths s" and "crashed s = None" and "\<And>r. pc s \<noteq> Returned r"
  shows "\<exists>e s'. dstep fs logPaths e s = Some s'"
proof -
  let ?gs = "goroutines s"
  have len: "length (logAnalyses s) = length (sentAnalyses ?gs)"
    using assms(1) by (metis dinv_def size_mset)
  show ?thesis
  proof (cases "pc s")
    case Spawning
    then show ?thesis using assms(2) by (intro exI [of _ Spawn]) simp
  next
    case Receiving
    show ?thesis
    proof (cases "length (logAnalyses s) = length logPaths")
      case True
      with Receiving assms(2) show ?thesis by (intro exI [of _ Wait]) simp
    next
      case False
      have n: "length ?gs = length logPaths" "\<not> chClosed s"
        using assms(1) Receiving by (auto simp: dinv_def)
      with False len length_sentAnalyses [of ?gs]
      have lt: "length (logAnalyses s) < length logPaths" "length (sentAnalyses ?gs) < length ?gs"
        by linarith+
      then obtain i where i: "i < length ?gs" "sentOf (?gs ! i) = []" using not_all_sent by blast
      show ?thesis
      proof (cases "?gs ! i")
        case Computing
        with i assms(2) show ?thesis
          by (intro exI [of _ "Compute i (\<lambda>_. 0)"]) (auto split: sum.splits)
      next
        case (Sending la)
        with i assms(2) n lt Receiving show ?thesis by (intro exI [of _ "Send i"]) auto
      qed (use i in auto)
    qed
  next
    case Waiting
    show ?thesis
    proof (cases "wg s = 0")
      case True
      with Waiting assms(2) show ?thesis by (intro exI [of _ Wait]) simp
    next
      case False
      have all: "length (sentAnalyses ?gs) = length ?gs" "wg s = activeCount ?gs"
        using assms(1) Waiting len by (auto simp: dinv_def)
      with False activeCount_nonneg [of ?gs] obtain i where i: "i < length ?gs" "activeOf (?gs ! i) \<noteq> 0"
        using active_exists by force
      have "sentOf (?gs ! i) \<noteq> []" using all_sent [OF all(1)] i(1) by simp
      with i obtain la where "?gs ! i = Finishing la" by (cases "?gs ! i") auto
      with i assms(2) show ?thesis by (intro exI [of _ "Done i"]) auto
    qed
  next
    case Closing
    with assms(2) show ?thesis by (intro exI [of _ Close]) simp
  next
    case Reducing
    with assms(2) show ?thesis by (intro exI [of _ "Reduce (\<lambda>_. 0)"]) (auto split: sum.splits)
  qed (use assms(3) in auto)
qed

text \<open>When every goroutine has been received from, the sent summaries are the goroutines'
  summaries in goroutine order.\<close>

lemma sentAnalyses_map:
  "\<forall>g \<in> set gs. sentOf g \<noteq> [] \<Longrightarrow> sentAnalyses gs = map (\<lambda>g. the (summaryOf g)) gs"
proof (induction gs)
  case (Cons g gs)
  then have "sentOf g = [the (summaryOf g)]" by (cases g) auto
  with Cons show ?case by (simp add: sentAnalyses_def)
qed (simp add: sentAnalyses_def)

lemma summaryOf_sent: "sentOf g \<noteq> [] \<Longrightarrow> summaryOf g = Some (the (summaryOf g))"
  by (cases g) auto

lemma dinv_returned:
  assumes "dinv fs logPaths s" and "pc s = Returned r"
  shows "\<exists>las rk. length las = length logPaths \<and>
    (\<forall>i < length logPaths. \<exists>rk'. analyzeLogFile fs rk' (logPaths ! i) = Inr (las ! i)) \<and>
    mset (logAnalyses s) = mset las \<and> analyzelogAnalyses rk (logAnalyses s) = Inr r"
proof -
  let ?gs = "goroutines s"
  have d: "length ?gs = length logPaths" "length (logAnalyses s) = length logPaths"
    "mset (logAnalyses s) = mset (sentAnalyses ?gs)"
    "\<exists>rk. analyzelogAnalyses rk (logAnalyses s) = Inr r"
    using assms by (auto simp: dinv_def)
  then have "length (sentAnalyses ?gs) = length ?gs" by (metis size_mset)
  then have sent: "\<forall>g \<in> set ?gs. sentOf g \<noteq> []" using all_sent by blast
  then have map: "sentAnalyses ?gs = map (\<lambda>g. the (summaryOf g)) ?gs" by (rule sentAnalyses_map)
  have "\<exists>rk'. analyzeLogFile fs rk' (logPaths ! i) = Inr (sentAnalyses ?gs ! i)"
    if "i < length logPaths" for i
  proof -
    have "summaryOf (?gs ! i) = Some (sentAnalyses ?gs ! i)"
      using summaryOf_sent [of "?gs ! i"] sent that d(1) map by simp
    moreover have "i < length ?gs" using that d(1) by simp
    ultimately show ?thesis using assms(1) unfolding dinv_def by blast
  qed
  moreover have "length (sentAnalyses ?gs) = length logPaths" using map d(1) by simp
  ultimately show ?thesis using d(3,4) by blast
qed

lemma run_reachable:
  "reachable fs logPaths s \<Longrightarrow> run fs logPaths es s = Some s' \<Longrightarrow> reachable fs logPaths s'"
proof (induction es arbitrary: s)
  case (Cons e es)
  then show ?case by (auto intro: reachable.step split: option.splits)
qed simp

lemma analyzeLogFile_wf: "analyzeLogFile fs rk p = Inr la \<Longrightarrow> wf_LogAnalysis la"
  using top_five_lengths [of rk "parseLogFile fs p"]
  by (auto simp: analyzeLogFile_def wf_LogAnalysis_def Let_def split: prod.splits sum.splits)

text \<open>Everything in a file's summary except the order of tied messages is independent of the
  map iteration order.\<close>

lemma analyzeLogFile_rank_indep:
  "analyzeLogFile fs rk p = Inr la \<Longrightarrow> analyzeLogFile fs rk' p = Inr la' \<Longrightarrow>
   numEntries la' = numEntries la \<and> logSeverityFrequency la' = logSeverityFrequency la \<and>
   startTime la' = startTime la \<and> endTime la' = endTime la"
  by (auto simp: analyzeLogFile_def Let_def split: prod.splits sum.splits)

lemma activeCount_le_length: "activeCount gs \<le> int (length gs)"
proof (induction gs)
  case (Cons g gs)
  then show ?case by (cases g) (simp_all add: activeCount_def)
qed (simp add: activeCount_def)

lemma dinv_stuck_final:
  assumes "dinv fs logPaths s" and "\<And>e. dstep fs logPaths e s = None"
  shows "(\<exists>r. pc s = Returned r) \<or> (\<exists>p. crashed s = Some (Panicked p))"
proof (cases "crashed s")
  case None
  show ?thesis
  proof (rule ccontr)
    assume "\<not> ?thesis"
    then have "\<And>r. pc s \<noteq> Returned r" by blast
    from dinv_progress [OF assms(1) None this] assms(2) show False by simp
  qed
next
  case (Some f)
  then show ?thesis using assms(1) by (auto simp: dinv_def)
qed

lemma run_append:
  "run fs logPaths (es @ es') s = (case run fs logPaths es s of None \<Rightarrow> None | Some s' \<Rightarrow> run fs logPaths es' s')"
  by (induction es arbitrary: s) (simp_all split: option.split)

lemma dinv_reaches_final:
  assumes "dinv fs logPaths s"
  shows "\<exists>es s'. run fs logPaths es s = Some s' \<and>
    ((\<exists>r. pc s' = Returned r) \<or> (\<exists>p. crashed s' = Some (Panicked p)))"
  using assms
proof (induction "dmeasure logPaths s" arbitrary: s rule: less_induct)
  case less
  show ?case
  proof (cases "\<exists>e s'. dstep fs logPaths e s = Some s'")
    case True
    then obtain e s' where st: "dstep fs logPaths e s = Some s'" by blast
    have "dmeasure logPaths s' < dmeasure logPaths s" by (rule dstep_decreases [OF st])
    moreover have "dinv fs logPaths s'" by (rule dinv_step [OF less.prems st])
    ultimately obtain es s'' where "run fs logPaths es s' = Some s''"
      and "(\<exists>r. pc s'' = Returned r) \<or> (\<exists>p. crashed s'' = Some (Panicked p))"
      using less.hyps by blast
    with st show ?thesis by (intro exI [of _ "e # es"] exI [of _ s'']) simp
  next
    case False
    then have "dstep fs logPaths e s = None" for e by (cases "dstep fs logPaths e s") auto
    then have "(\<exists>r. pc s = Returned r) \<or> (\<exists>p. crashed s = Some (Panicked p))"
      by (rule dinv_stuck_final [OF less.prems])
    then show ?thesis by (intro exI [of _ "[]"] exI [of _ s]) simp
  qed
qed

text \<open>Every result the program returns: the summaries of the paths, one per path, each
  computed under some map order, reduced in some arrival order.\<close>

lemma returned_reduction:
  assumes "reachable fs logPaths s" and "pc s = Returned r"
  shows "\<exists>las las' rk. length las = length logPaths \<and>
    (\<forall>i < length logPaths. \<exists>rk'. analyzeLogFile fs rk' (logPaths ! i) = Inr (las ! i)) \<and>
    mset las' = mset las \<and> las' \<noteq> [] \<and> (\<forall>la \<in> set las'. slots_ok la) \<and>
    analyzelogAnalyses rk las' = Inr r"
proof -
  from dinv_returned [OF reachable_dinv [OF assms(1)] assms(2)] obtain las rk where
    las: "length las = length logPaths"
      "\<forall>i < length logPaths. \<exists>rk'. analyzeLogFile fs rk' (logPaths ! i) = Inr (las ! i)"
      "mset (logAnalyses s) = mset las" "analyzelogAnalyses rk (logAnalyses s) = Inr r"
    by blast
  have "logAnalyses s \<noteq> [] \<and> (\<forall>la \<in> set (logAnalyses s). slots_ok la)"
    using analyzelogAnalyses_InrD [OF las(4)] .
  with las show ?thesis by blast
qed

subsection \<open>Properties of the dispatcher\<close>

text \<open>
  C20:  No run of \<open>analyzeLogFiles\<close> sends on the closed channel or drives the
  wait-group counter negative; once the channel is closed every goroutine has exited.
\<close>

theorem reachable_runtime_safe:
  assumes "reachable fs logPaths s"
  shows "crashed s \<noteq> Some SendOnClosedChannel \<and> crashed s \<noteq> Some NegativeWaitGroupCounter \<and>
    (chClosed s \<longrightarrow> (\<forall>g \<in> set (goroutines s). \<exists>la. g = Exited la))"
proof -
  have inv: "dinv fs logPaths s" by (rule reachable_dinv [OF assms])
  have "\<forall>g \<in> set (goroutines s). \<exists>la. g = Exited la" if "chClosed s"
  proof -
    from inv that have "3 \<le> phase (pc s)" by (simp add: dinv_def)
    then show ?thesis using dinv_closed_no_sender [OF inv] by (metis in_set_conv_nth)
  qed
  with inv show ?thesis by (auto simp: dinv_def)
qed

text \<open>
  C21:  The wait-group counter always equals the number of goroutines that have not
  yet called \<open>Done\<close>; it stays between 0 and the number of paths.
\<close>

theorem reachable_wait_group:
  assumes "reachable fs logPaths s"
  shows "wg s = activeCount (goroutines s) \<and> 0 \<le> wg s \<and> wg s \<le> int (length logPaths)"
proof -
  have inv: "dinv fs logPaths s" by (rule reachable_dinv [OF assms])
  then have "wg s = activeCount (goroutines s)" "length (goroutines s) \<le> length logPaths"
    by (simp_all add: dinv_def)
  moreover have "activeCount (goroutines s) \<le> int (length (goroutines s))" by (rule activeCount_le_length)
  ultimately show ?thesis using activeCount_nonneg [of "goroutines s"] by simp
qed

text \<open>
  C22:  The main goroutine has received exactly the summaries that goroutines have
  sent, each once, and the summary goroutine \<open>i\<close> holds is the one \<open>analyzeLogFile\<close>
  computes for path \<open>i\<close> under some map order.
\<close>

theorem reachable_received:
  assumes "reachable fs logPaths s"
  shows "mset (logAnalyses s) = mset (sentAnalyses (goroutines s)) \<and>
    (\<forall>i < length (goroutines s). \<forall>la. summaryOf (goroutines s ! i) = Some la \<longrightarrow>
       (\<exists>rk. analyzeLogFile fs rk (logPaths ! i) = Inr la))"
  using reachable_dinv [OF assms] by (simp add: dinv_def)

text \<open>
  C23:  Total correctness of the dispatcher's scheduling: every partial run of
  \<open>analyzeLogFiles\<close> from its start can be continued to a final state, one that has
  returned its result or panicked, and the whole run has at most \<open>4 n + 7\<close> steps for
  \<open>n\<close> paths.  A deadlock is not final, so a program that can block forever fails it.
\<close>

theorem run_terminates:
  assumes "run fs logPaths es initState = Some s"
  shows "\<exists>es' s'. run fs logPaths es' s = Some s' \<and> length (es @ es') \<le> 4 * length logPaths + 7 \<and>
    ((\<exists>r. pc s' = Returned r) \<or> (\<exists>p. crashed s' = Some (Panicked p)))"
proof -
  have "dinv fs logPaths s"
    using reachable_dinv [OF run_reachable [OF reachable.init assms]] .
  then obtain es' s' where run': "run fs logPaths es' s = Some s'"
    and fin: "(\<exists>r. pc s' = Returned r) \<or> (\<exists>p. crashed s' = Some (Panicked p))"
    using dinv_reaches_final by blast
  have "run fs logPaths (es @ es') initState = Some s'" using assms run' by (simp add: run_append)
  then have "length (es @ es') \<le> dmeasure logPaths initState" by (rule run_length_le)
  then have "length (es @ es') \<le> 4 * length logPaths + 7" by (simp add: dmeasure_def initState_def)
  with run' fin show ?thesis by blast
qed

text \<open>
  C24:  Deadlock freedom: a reachable state in which no goroutine can move is a
  final one: the program has returned its result or panicked in a file analysis or the
  reducer.  With the bound on schedules, every run ends in such a state.
\<close>

theorem reachable_stuck_final:
  assumes "reachable fs logPaths s" and "\<forall>e. dstep fs logPaths e s = None"
  shows "(\<exists>r. pc s = Returned r) \<or> (\<exists>p. crashed s = Some (Panicked p))"
  using dinv_stuck_final [OF reachable_dinv [OF assms(1)]] assms(2) by blast

text \<open>
  C25:  Refinement of the specification's \<open>analyzeFiles\<close>: a returned result
  is the reduction of one summary per path, each the summary \<open>analyzeLogFile\<close> computes
  for that path, taken in some arrival order.
\<close>

theorem analyzeLogFiles_result:
  assumes "reachable fs logPaths s" and "pc s = Returned r"
  shows "\<exists>las las' rk. length las = length logPaths \<and>
    (\<forall>i < length logPaths. \<exists>rk'. analyzeLogFile fs rk' (logPaths ! i) = Inr (las ! i)) \<and>
    mset las' = mset las \<and> analyzelogAnalyses rk las' = Inr r"
  using returned_reduction [OF assms] by blast

text \<open>
  C26:  The entry count, the severity counts and the time span of the result do
  not depend on the schedule (goroutine interleaving and arrival order) nor on any map
  iteration order: any two runs that return give the same values.
\<close>

theorem analyzeLogFiles_totals_deterministic:
  assumes "reachable fs logPaths s1" and "pc s1 = Returned r1"
    and "reachable fs logPaths s2" and "pc s2 = Returned r2"
  shows "numEntries r1 = numEntries r2 \<and> logSeverityFrequency r1 = logSeverityFrequency r2 \<and>
    startTime r1 = startTime r2 \<and> endTime r1 = endTime r2"
proof -
  obtain las1 las1' rk1 where l1: "length las1 = length logPaths"
      "\<forall>i < length logPaths. \<exists>rk'. analyzeLogFile fs rk' (logPaths ! i) = Inr (las1 ! i)"
      "mset las1' = mset las1" "las1' \<noteq> []" "\<forall>la \<in> set las1'. slots_ok la"
      "analyzelogAnalyses rk1 las1' = Inr r1"
    using returned_reduction [OF assms(1,2)] by blast
  obtain las2 las2' rk2 where l2: "length las2 = length logPaths"
      "\<forall>i < length logPaths. \<exists>rk'. analyzeLogFile fs rk' (logPaths ! i) = Inr (las2 ! i)"
      "mset las2' = mset las2" "las2' \<noteq> []" "\<forall>la \<in> set las2'. slots_ok la"
      "analyzelogAnalyses rk2 las2' = Inr r2"
    using returned_reduction [OF assms(3,4)] by blast
  have same: "map f las1 = map f las2"
    if "\<And>la la'. (\<exists>p rk rk'. analyzeLogFile fs rk p = Inr la \<and> analyzeLogFile fs rk' p = Inr la') \<Longrightarrow> f la = f la'"
    for f :: "LogAnalysis \<Rightarrow> 'b"
  proof (rule nth_equalityI)
    fix i assume "i < length (map f las1)"
    then have "i < length logPaths" using l1(1) by simp
    with l1(2) l2(2) that show "map f las1 ! i = map f las2 ! i" using l1(1) l2(1) by fastforce
  qed (simp add: l1(1) l2(1))
  have eqs: "map numEntries las1 = map numEntries las2"
    "map logSeverityFrequency las1 = map logSeverityFrequency las2"
    "map startTime las1 = map startTime las2" "map endTime las1 = map endTime las2"
    by (rule same; metis analyzeLogFile_rank_indep)+
  have sums: "sum_list (map f las1') = sum_list (map f las2')" if "map f las1 = map f las2"
    for f :: "LogAnalysis \<Rightarrow> int64"
    using sum_list_mset_eq [OF l1(3), of f] sum_list_mset_eq [OF l2(3), of f] that by simp
  have sets: "set (map f las1') = set (map f las2')" if "map f las1 = map f las2" for f :: "LogAnalysis \<Rightarrow> gotime"
    using that l1(3) l2(3) by (metis mset_map set_mset_mset)
  have sevs: "map (\<lambda>la. g (logSeverityFrequency la)) las1 = map (\<lambda>la. g (logSeverityFrequency la)) las2"
    for g :: "LogSeverityFrequency \<Rightarrow> int64"
    using arg_cong [OF eqs(2), of "map g"] by (simp add: comp_def)
  have r1: "r1 = \<lparr>numEntries = sum_list (map numEntries las1'),
         logSeverityFrequency =
           \<lparr>debug = sum_list (map (\<lambda>la. debug (logSeverityFrequency la)) las1'),
            info = sum_list (map (\<lambda>la. info (logSeverityFrequency la)) las1'),
            warning = sum_list (map (\<lambda>la. warning (logSeverityFrequency la)) las1'),
            error = sum_list (map (\<lambda>la. error (logSeverityFrequency la)) las1')\<rparr>,
         topFiveLogMessages = take 5 (rankMessages rk1 (global_ranked las1')),
         topFiveLogMessageFrequencies = [],
         startTime = Min (set (map startTime las1')), endTime = Max (set (map endTime las1'))\<rparr>"
    using analyzelogAnalyses_Inr [OF l1(4,5), of rk1] l1(6) by simp
  have r2: "r2 = \<lparr>numEntries = sum_list (map numEntries las2'),
         logSeverityFrequency =
           \<lparr>debug = sum_list (map (\<lambda>la. debug (logSeverityFrequency la)) las2'),
            info = sum_list (map (\<lambda>la. info (logSeverityFrequency la)) las2'),
            warning = sum_list (map (\<lambda>la. warning (logSeverityFrequency la)) las2'),
            error = sum_list (map (\<lambda>la. error (logSeverityFrequency la)) las2')\<rparr>,
         topFiveLogMessages = take 5 (rankMessages rk2 (global_ranked las2')),
         topFiveLogMessageFrequencies = [],
         startTime = Min (set (map startTime las2')), endTime = Max (set (map endTime las2'))\<rparr>"
    using analyzelogAnalyses_Inr [OF l2(4,5), of rk2] l2(6) by simp
  show ?thesis
    unfolding r1 r2
    using sums [OF eqs(1)] sums [OF sevs] sets [OF eqs(3)] sets [OF eqs(4)]
    by (simp only: LogAnalysis.select_convs)
qed



text \<open>
  C27:  If the analysis of one file panics (a first or last record whose timestamp
  \<open>time.Parse\<close> rejects), no run returns a result: the panic ends the whole program and
  the other files' summaries are lost.
\<close>

theorem analyzeLogFiles_file_panics:
  assumes "i < length logPaths" and "\<forall>rk. \<exists>p. analyzeLogFile fs rk (logPaths ! i) = Inl p"
    and "reachable fs logPaths s"
  shows "\<forall>r. pc s \<noteq> Returned r"
proof (intro allI notI)
  fix r assume "pc s = Returned r"
  from returned_reduction [OF assms(3) this] obtain las :: "LogAnalysis list" where
    "\<forall>i < length logPaths. \<exists>rk'. analyzeLogFile fs rk' (logPaths ! i) = Inr (las ! i)"
    by blast
  then obtain rk' where "analyzeLogFile fs rk' (logPaths ! i) = Inr (las ! i)" using assms(1) by blast
  moreover obtain p where "analyzeLogFile fs rk' (logPaths ! i) = Inl p" using assms(2) by blast
  ultimately show False by simp
qed

text \<open>
  C28:  With no paths the program never returns: the reducer's
  \<open>"No analysis found"\<close> panic is the only way a run ends.
\<close>

theorem analyzeLogFiles_no_paths:
  assumes "reachable fs [] s"
  shows "\<forall>r. pc s \<noteq> Returned r"
proof (intro allI notI)
  fix r assume "pc s = Returned r"
  from returned_reduction [OF assms this] obtain las las' :: "LogAnalysis list"
    where "length las = 0" and "mset las' = mset las" and "las' \<noteq> []" by auto
  then show False by simp
qed

end
