(* ===== verification/UnitTests.thy ===== *)
theory UnitTests
  imports Reducer
begin

text \<open>
  The unit tests of \<open>src/main-tests.go\<close>: their tables and fixtures as definitions and
  their assertions as predicates, each test being the statement that its assertions hold.
  \<open>TestParseLogMessage\<close> (lines 10--62) runs a table of cases through
  \<open>parseLogMessage\<close>; \<open>TestGetLogSeverityFrequency\<close> (64--86),
  \<open>TestGetTopFiveLogMessages\<close> (88--112) and \<open>TestGetStartAndEndTime\<close> (114--133)
  compare one function's result with an expected value; the assertions of
  \<open>TestAnalyzeLogFiles\<close> (199--220) are a predicate on the returned summary, used by the
  end-to-end theorem of \<open>Spec2Isabelle\<close>.  \<open>t.Run\<close>, \<open>t.Errorf\<close> and the temporary
  files are the test harness and are not modelled.  The fixtures of
  \<open>TestGetTopFiveLogMessages\<close> and \<open>TestAnalyzeLogFile\<close> are in \<open>FileAggregator\<close>.
\<close>

record parseTest =
  name :: string
  input :: string
  want :: LogMessage
  wantErr :: bool

text \<open>\<open>LogMessage{}\<close>, the zero value.\<close>

definition zeroLogMessage :: LogMessage where
  "zeroLogMessage = \<lparr>timestamp = [], severity = [], module = [], function' = [], lineNumber = 0,
     message = []\<rparr>"

definition parseTests :: "parseTest list" where
  "parseTests =
    [\<lparr>name = ''valid log message'',
      input = ''2024-01-02 15:04:05.999 | INFO | app.module: function: 123 - User logged in'',
      want = \<lparr>timestamp = ''2024-01-02 15:04:05.999'', severity = ''INFO'', module = ''app.module'',
              function' = ''function'', lineNumber = 123, message = ''User logged in''\<rparr>,
      wantErr = False\<rparr>,
     \<lparr>name = ''empty message'', input = [], want = zeroLogMessage, wantErr = True\<rparr>,
     \<lparr>name = ''malformed message - missing severity'',
      input = ''2024-01-02 15:04:05.999 | | app.module: function: 123 - User logged in'',
      want = zeroLogMessage, wantErr = True\<rparr>,
     \<lparr>name = ''malformed message - missing line number'',
      input = ''2024-01-02 15:04:05.999 | INFO | app.module: function: - User logged in'',
      want = zeroLogMessage, wantErr = True\<rparr>]"

text \<open>The body of the \<open>t.Run\<close> closure (lines 52--59): the error must be present exactly
  when one is wanted, and without an error the record must be the wanted one.\<close>

definition parseTestPasses :: "parseTest \<Rightarrow> bool" where
  "parseTestPasses tt =
     (case parseLogMessage (input tt) of
        Inl err \<Rightarrow> wantErr tt
      | Inr got \<Rightarrow> \<not> wantErr tt \<and> got = want tt)"

definition TestParseLogMessage :: bool where
  "TestParseLogMessage \<longleftrightarrow> list_all parseTestPasses parseTests"

definition severityTestLogs :: "LogMessage list" where
  "severityTestLogs =
     map (\<lambda>s. logMsg [] s []) [''DEBUG'', ''INFO'', ''INFO'', ''WARNING'', ''ERROR'', ''ERROR'', ''INVALID'']"

definition TestGetLogSeverityFrequency :: bool where
  "TestGetLogSeverityFrequency \<longleftrightarrow>
     getLogSeverityFrequency severityTestLogs = \<lparr>debug = 1, info = 2, warning = 1, error = 2\<rparr>"

text \<open>\<open>TestGetTopFiveLogMessages\<close> under a given iteration order of the message map.\<close>

definition TestGetTopFiveLogMessages :: "rank \<Rightarrow> bool" where
  "TestGetTopFiveLogMessages rk \<longleftrightarrow>
     fst (getTopFiveLogMessages rk test_top_five_logs) = [''Error 3'', ''Error 1'', ''Error 2'', ''Error 4'', ''Error 5''] \<and>
     snd (getTopFiveLogMessages rk test_top_five_logs) = [3, 2, 1, 1, 1]"

definition timeTestLogs :: "LogMessage list" where
  "timeTestLogs =
     map (\<lambda>t. logMsg t [] []) [''2024-01-01 00:00:00.000'', ''2024-01-01 12:00:00.000'', ''2024-01-02 00:00:00.000'']"

text \<open>\<open>expected, _ := time.Parse(layout, s)\<close>: the error is dropped, leaving the zero time.\<close>

definition parseIgnoringError :: "string \<Rightarrow> gotime" where
  "parseIgnoringError s = (case timeParse s of Some t \<Rightarrow> t | None \<Rightarrow> zeroTime)"

definition TestGetStartAndEndTime :: bool where
  "TestGetStartAndEndTime \<longleftrightarrow>
     getStartTime timeTestLogs = Inr (parseIgnoringError ''2024-01-01 00:00:00.000'') \<and>
     getEndTime timeTestLogs = Inr (parseIgnoringError ''2024-01-02 00:00:00.000'')"

text \<open>The assertions of \<open>TestAnalyzeLogFiles\<close> on the returned summary.\<close>

definition analyzeLogFilesChecks :: "LogAnalysis \<Rightarrow> bool" where
  "analyzeLogFilesChecks analysis \<longleftrightarrow>
     numEntries analysis = 4 \<and>
     logSeverityFrequency analysis = \<lparr>debug = 0, info = 1, warning = 1, error = 2\<rparr> \<and>
     topFiveLogMessages analysis \<noteq> [] \<and> topFiveLogMessages analysis ! 0 = ''Database error''"

text \<open>The two files of \<open>TestAnalyzeLogFiles\<close> (lines 185--189) and a file system holding
  them under the paths the test passes (lines 191--196).\<close>

definition log1Content :: string where
  "log1Content =
     ''2024-01-01 00:00:00.000 | INFO | app.module: function: 123 - User logged in'' @ CHR ''\<newline>'' #
     ''2024-01-01 00:01:00.000 | ERROR | app.module: function: 124 - Database error''"

definition log2Content :: string where
  "log2Content =
     ''2024-01-01 00:02:00.000 | WARNING | app.module: function: 125 - Low memory'' @ CHR ''\<newline>'' #
     ''2024-01-01 00:03:00.000 | ERROR | app.module: function: 126 - Database error''"

definition testFiles :: filesystem where
  "testFiles p = (if p = ''a.log'' then Some log1Content else if p = ''b.log'' then Some log2Content else None)"

subsection \<open>The tests pass\<close>

lemma TestParseLogMessage_passes: "TestParseLogMessage"
  by (simp add: TestParseLogMessage_def parseTests_def parseTestPasses_def test_parse_valid
      test_parse_empty test_parse_missing_severity test_parse_missing_line_number)

lemma TestGetLogSeverityFrequency_passes: "TestGetLogSeverityFrequency"
  using test_severity_frequency by (simp add: TestGetLogSeverityFrequency_def severityTestLogs_def)

lemma TestGetTopFiveLogMessages_insertion_order: "TestGetTopFiveLogMessages (\<lambda>_. 0)"
  using test_top_five_first_seen by (simp add: TestGetTopFiveLogMessages_def)

lemma TestGetTopFiveLogMessages_other_order:
  "\<not> TestGetTopFiveLogMessages (position [''Error 6'', ''Error 5'', ''Error 4'', ''Error 3'', ''Error 2'', ''Error 1''])"
  using test_top_five_other_order by (simp add: TestGetTopFiveLogMessages_def)

lemma TestGetStartAndEndTime_passes: "TestGetStartAndEndTime"
proof -
  have "parseIgnoringError ''2024-01-01 00:00:00.000'' = Date 2024 1 1 0 0 0 0"
    "parseIgnoringError ''2024-01-02 00:00:00.000'' = Date 2024 1 2 0 0 0 0"
    by (simp_all add: parseIgnoringError_def time_eval)
  with test_start_end_time show ?thesis by (simp add: TestGetStartAndEndTime_def timeTestLogs_def)
qed

end
