(* ===== verification/Spec2Isabelle.thy ===== *)
theory Spec2Isabelle
  imports Dispatcher UnitTests
begin

text \<open>
  \<^bold>\<open>A verification library for the concurrent log analyzer\<close>
  (\<open>src/main.go\<close>, with its unit tests in \<open>src/main-tests.go\<close>).

  \<^bold>\<open>The program.\<close>  \<open>analyzeLogFiles\<close> starts one goroutine per path.  Each runs
  \<open>analyzeLogFile\<close>: it reads the file, splits it at newlines, parses every line with
  \<open>parseLogMessage\<close>, drops the lines that fail, and summarises the parsed records in a
  \<open>LogAnalysis\<close> (entry count, severity counts, the five most frequent messages with
  their counts, the timestamps of the first and last record).  The goroutines send their
  summaries over one unbuffered channel and signal a global \<open>sync.WaitGroup\<close>; the main
  goroutine receives one summary per path, waits, and merges them with
  \<open>analyzelogAnalyses\<close>, which sums the counts, takes the earliest start and latest end,
  and re-ranks the messages with \<open>analyzeTopFiveLogMessages\<close>.

  \<^bold>\<open>Theories.\<close>
  \<^item> \<open>Prelude\<close>: \<open>int64\<close> as \<open>64 word\<close>; Go's \<open>map[string]V\<close> as an insertion-ordered
    association list whose \<open>range\<close> order is a parameter (a ranking of the keys), so
    that theorems quantified over rankings cover every iteration order the Go runtime may
    choose (\<open>gomap_range_realises\<close>); the slice-filling index loop.
  \<^item> \<open>GoStrings\<close>, \<open>GoStrconv\<close>: the library functions the parser calls, modelled from
    the Go library: \<open>strings.Split\<close> (one-byte separator), \<open>strings.TrimSpace\<close> (ASCII
    white space), \<open>strconv.ParseInt\<close> and \<open>ParseUint\<close> with base prefixes, underscores,
    overflow checks and bit sizes.
  \<^item> \<open>LineParser\<close>: \<open>LogMessage\<close> (main.go 17--24) and \<open>parseLogMessage\<close> (42--72).
  \<^item> \<open>GoTime\<close>: \<open>time.Parse\<close> for the layout of main.go line 14, a \<open>time.Time\<close> as
    nanoseconds since 0001-01-01 UTC (the zero \<open>Time\<close> is 0), \<open>After\<close>/\<open>Before\<close>.
  \<^item> \<open>FileAggregator\<close>: the structs \<open>LogAnalysis\<close> and \<open>LogSeverityFrequency\<close>
    (26--40) and the per-file pipeline \<open>parseLogFile\<close>, \<open>getNumEntries\<close>,
    \<open>getLogSeverityFrequency\<close>, \<open>getTopFiveLogMessages\<close>, \<open>getStartTime\<close>,
    \<open>getEndTime\<close> and \<open>analyzeLogFile\<close> (74--173).  The file system is a map from
    paths to contents; a panic is an \<open>Inl\<close> value.  Loops are folds; counters are
    \<open>64 word\<close>s, so a count wraps at \<open>2^64\<close> exactly as Go's \<open>int64\<close>, and the
    theorems that read counts as numbers assume fewer than \<open>2^63\<close> records.
  \<^item> \<open>Reducer\<close>: \<open>analyzeTopFiveLogMessages\<close> (199--232) and \<open>analyzelogAnalyses\<close>
    (234--267), loop by loop: the slot loop (\<open>addSlots\<close>, \<open>addAnalysis\<close>,
    \<open>rankAnalyses\<close>) with Go's index-out-of-range panic, the re-ranking through the
    per-file \<open>rankMessages\<close>, the truncating append loops (\<open>appendFirst\<close>) and the
    merge loop (\<open>mergeAnalysis\<close>).  \<open>slots\<close>, \<open>global_ranked\<close> and
    \<open>global_count\<close> describe what the reducer sums.
  \<^item> \<open>Dispatcher\<close>: \<open>analyzeLogFiles\<close> (269--286) with the goroutines' channel send
    and \<open>waitGroup.Done()\<close> (174--175).  The state (\<open>dstate\<close>) holds each goroutine's
    status (\<open>gstatus\<close>: computing, sending its summary, finishing, exited), the wait-group
    counter, the received summaries, whether the channel is closed, the main goroutine's
    program point (\<open>mainpc\<close>) and the failure that ended the program.  A step is one
    scheduler \<open>event\<close>; \<open>dstep\<close> returns \<open>None\<close> when the event is not enabled.  The
    unbuffered channel is a rendezvous of \<open>Send\<close> with the main goroutine's receive; a
    send on a closed channel and a negative counter are run-time failures of the model, so
    that their absence is a theorem.  \<open>reachable\<close> is the inductive set of states some
    schedule reaches; \<open>run\<close> executes a schedule.  Each \<open>Compute\<close> and \<open>Reduce\<close>
    event carries the map iteration order of the call it runs.
  \<^item> \<open>UnitTests\<close>: the tables, fixtures and assertions of \<open>src/main-tests.go\<close>, with
    the lemmas that \<open>TestParseLogMessage\<close>, \<open>TestGetLogSeverityFrequency\<close> and
    \<open>TestGetStartAndEndTime\<close> pass, and that \<open>TestGetTopFiveLogMessages\<close> passes under
    the insertion order of the map but fails under another order the runtime may choose.
  \<^item> This theory: two schedules over the files of \<open>TestAnalyzeLogFiles\<close>, a file that
    panics, and the properties that span all components.

  \<^bold>\<open>What is proved.\<close>
  \<^item> Parser round trip: a line written in the README's log format with well-formed fields
    parses back to those fields (\<open>LineParser.parseLogMessage_logLine\<close>).
  \<^item> Parser invariant: every parsed record is well formed, with a line number in
    \<open>[0, 2^15)\<close> (\<open>LineParser.parseLogMessage_wf\<close>).
  \<^item> The exact rejection condition of the parser (\<open>LineParser.parseLogMessage_fails_iff\<close>)
    and the truncation of messages at their first \<open>:\<close> or \<open>-\<close>
    (\<open>LineParser.parseLogMessage_truncates_message\<close>).
  \<^item> \<open>ParseInt\<close>: decimal round trip with \<open>Itoa\<close> and the signed range of a successful
    result (\<open>GoStrconv.ParseInt_Itoa\<close>, \<open>GoStrconv.ParseInt_bounds\<close>).

  \<^item> Per-file top five (\<open>FileAggregator.getTopFiveLogMessages_ranked\<close>,
    \<open>_top\<close>): five slots, distinct messages with exact counts, non-increasing counts,
    and no unreported message more frequent than a reported one, for every map iteration
    order; refinement of the specification's first-seen ranking when the map is ranged
    in insertion order (\<open>_first_seen\<close>); the counts do not depend on the order
    (\<open>_freqs_indep\<close>) but the tied messages do (lemma \<open>_order_dependent\<close>, on the
    test fixture).
  \<^item> Severity counts (\<open>getLogSeverityFrequency_counts\<close>), the exact panic condition
    of \<open>analyzeLogFile\<close> (\<open>analyzeLogFile_panics\<close>), the summary of a file without
    records (\<open>analyzeLogFile_empty\<close>), and \<open>TestAnalyzeLogFile\<close> for every iteration
    order (lemma \<open>analyzeLogFile_test_file\<close>).

  \<^item> Reducer: totals are sums and the time span is min/max
    (\<open>Reducer.analyzelogAnalyses_totals\<close>, \<open>_time_span\<close>), independent of the order
    of the summaries and of the map (\<open>_order_independent\<close>); the exact panic condition
    (\<open>_fails\<close>); the global top five is ranked by summed slot counts (\<open>_top_five\<close>,
    \<open>_top_five_best\<close>); and two departures from the specification: the placeholder
    \<open>""\<close> is ranked as a message (\<open>_placeholder\<close>) and a file without records pulls
    the start time to the zero time (\<open>_zero_start\<close>).

  \<^item> Dispatcher: an invariant of the reachable states (\<open>dinv\<close>, by rule induction) gives
    the absence of sends on the closed channel and of a negative counter
    (\<open>Dispatcher.reachable_runtime_safe\<close>), the counter's meaning
    (\<open>reachable_wait_group\<close>) and the received summaries (\<open>reachable_received\<close>).
    The measure \<open>dmeasure\<close> (4 per goroutine still to start, 3/2/1 per goroutine
    computing/sending/finishing, the main goroutine's remaining program points, 1 while no
    failure) decreases at every step, so a schedule over \<open>n\<close> paths has at most
    \<open>4 n + 7\<close> steps, and every partial run can be continued to a state that has returned
    or panicked (\<open>run_terminates\<close>, total correctness: a deadlock is not final); a state
    where nothing can move is final (\<open>reachable_stuck_final\<close>).  A returned result reduces one \<open>analyzeLogFile\<close>
    summary per path in arrival order (\<open>analyzeLogFiles_result\<close>); its totals and time
    span are the same on every run (\<open>analyzeLogFiles_totals_deterministic\<close>); a
    panicking file or an empty path list means no result (\<open>analyzeLogFiles_file_panics\<close>,
    \<open>analyzeLogFiles_no_paths\<close>).
  \<^item> End to end: \<open>TestAnalyzeLogFiles\<close> passes on every run
    (\<open>analyzeLogFiles_two_files\<close>), while the order of tied messages depends on the order
    the goroutines' sends complete (lemma \<open>analyzeLogFiles_arrival_order\<close>: two schedules
    that differ only in the order of the two sends).

  \<^bold>\<open>Bounds.\<close>  No fuel is used: every loop of the program is a fold or structural
  recursion, and the dispatcher's schedules are bounded by \<open>dmeasure\<close>.

  \<^bold>\<open>Not modelled.\<close>  \<open>printLogAnalysis\<close> and the \<open>fmt.Println\<close> calls (console
  output only), \<open>main\<close>'s argument handling (\<open>os.Args[1:]\<close> is the list of paths the
  dispatcher takes), the multi-byte Unicode spaces that \<open>strings.TrimSpace\<close> also
  removes, the error message \<open>parseLogFile\<close> prints for an unreadable file (the model
  returns no records, as the code does).  The global \<open>waitGroup\<close> is modelled for one
  call of \<open>analyzeLogFiles\<close>, as \<open>main\<close> makes.
\<close>

subsection \<open>The end-to-end scenario of \<open>TestAnalyzeLogFiles\<close>\<close>

text \<open>For the files of \<open>TestAnalyzeLogFiles\<close> (\<open>UnitTests.testFiles\<close>): a file whose timestamp \<open>time.Parse\<close> rejects, two complete
  schedules that differ only in the order of the two sends, and the states they reach.\<close>

definition schedA :: "event list" where
  "schedA = [Spawn, Spawn, Spawn, Compute 0 (\<lambda>_. 0), Compute 1 (\<lambda>_. 0), Send 0, Send 1, Wait,
     Done 0, Done 1, Wait, Close, Reduce (\<lambda>_. 0)]"

definition schedB :: "event list" where
  "schedB = [Spawn, Spawn, Spawn, Compute 0 (\<lambda>_. 0), Compute 1 (\<lambda>_. 0), Send 1, Send 0, Wait,
     Done 0, Done 1, Wait, Close, Reduce (\<lambda>_. 0)]"

definition badFiles :: filesystem where
  "badFiles p = Some ''yesterday | INFO | app: main: 1 - started''"

definition resultA :: LogAnalysis where
  "resultA = \<lparr>numEntries = 4, logSeverityFrequency = \<lparr>debug = 0, info = 1, warning = 1, error = 2\<rparr>,
     topFiveLogMessages = [''Database error'', ''User logged in'', ''Low memory'', []],
     topFiveLogMessageFrequencies = [],
     startTime = Date 2024 1 1 0 0 0 0, endTime = Date 2024 1 1 0 3 0 0\<rparr>"

definition resultB :: LogAnalysis where
  "resultB = resultA\<lparr>topFiveLogMessages := [''Database error'', ''Low memory'', ''User logged in'', []]\<rparr>"

definition stateMid :: dstate where
  "stateMid = \<lparr>goroutines = [Finishing summaryA, Sending summaryB], wg = 2, logAnalyses = [summaryA],
     chClosed = False, pc = Receiving, crashed = None\<rparr>"

definition stateA :: dstate where
  "stateA = \<lparr>goroutines = [Exited summaryA, Exited summaryB], wg = 0, logAnalyses = [summaryA, summaryB],
     chClosed = True, pc = Returned resultA, crashed = None\<rparr>"

definition stateB :: dstate where
  "stateB = stateA\<lparr>logAnalyses := [summaryB, summaryA], pc := Returned resultB\<rparr>"

subsection \<open>Evaluation of the scenario\<close>

lemma parse_log1:
  "parseLogFile testFiles ''a.log'' =
     [\<lparr>timestamp = ''2024-01-01 00:00:00.000'', severity = ''INFO'', module = ''app.module'', function' = ''function'', lineNumber = 123, message = ''User logged in''\<rparr>,
      \<lparr>timestamp = ''2024-01-01 00:01:00.000'', severity = ''ERROR'', module = ''app.module'', function' = ''function'', lineNumber = 124, message = ''Database error''\<rparr>]"
  by (simp add: parseLogFile_eq testFiles_def log1Content_def Split_append_nosep lp_eval)

lemma parse_log2:
  "parseLogFile testFiles ''b.log'' =
     [\<lparr>timestamp = ''2024-01-01 00:02:00.000'', severity = ''WARNING'', module = ''app.module'', function' = ''function'', lineNumber = 125, message = ''Low memory''\<rparr>,
      \<lparr>timestamp = ''2024-01-01 00:03:00.000'', severity = ''ERROR'', module = ''app.module'', function' = ''function'', lineNumber = 126, message = ''Database error''\<rparr>]"
  by (simp add: parseLogFile_eq testFiles_def log2Content_def Split_append_nosep lp_eval)

lemma analyze_log1: "analyzeLogFile testFiles (\<lambda>_. 0) ''a.log'' = Inr summaryA"
  by (simp add: analyzeLogFile_def parse_log1 getNumEntries_def getLogSeverityFrequency_def
      severity_step_def noSeverities_def getTopFiveLogMessages_eq countMessages_def rankMessages_def
      gomap_range_def getStartTime_def getEndTime_def time_eval summaryA_def eval_nat_numeral)

lemma analyze_log2: "analyzeLogFile testFiles (\<lambda>_. 0) ''b.log'' = Inr summaryB"
  by (simp add: analyzeLogFile_def parse_log2 getNumEntries_def getLogSeverityFrequency_def
      severity_step_def noSeverities_def getTopFiveLogMessages_eq countMessages_def rankMessages_def
      gomap_range_def getStartTime_def getEndTime_def time_eval summaryB_def eval_nat_numeral)

lemma reduce_example_BA:
  "analyzelogAnalyses (\<lambda>_. 0) [summaryB, summaryA] =
     Inr \<lparr>numEntries = 4, logSeverityFrequency = \<lparr>debug = 0, info = 1, warning = 1, error = 2\<rparr>,
          topFiveLogMessages = [''Database error'', ''Low memory'', ''User logged in'', []],
          topFiveLogMessageFrequencies = [],
          startTime = Date 2024 1 1 0 0 0 0, endTime = Date 2024 1 1 0 3 0 0\<rparr>"
proof -
  have ok: "\<forall>la \<in> set [summaryB, summaryA]. slots_ok la"
    by (simp add: summaryA_def summaryB_def slots_ok_def maxMessages_def)
  show ?thesis
    using analyzelogAnalyses_Inr [OF _ ok, of "\<lambda>_. 0"] by (simp add: summary_eval)
qed

lemma run_schedA: "run testFiles [''a.log'', ''b.log''] schedA initState = Some stateA"
  by (simp add: schedA_def initState_def analyze_log1 analyze_log2 reduce_example stateA_def resultA_def)

lemma run_schedB: "run testFiles [''a.log'', ''b.log''] schedB initState = Some stateB"
  by (simp add: schedB_def initState_def analyze_log1 analyze_log2 reduce_example_BA stateB_def
      stateA_def resultB_def resultA_def)

lemma run_mid: "run testFiles [''a.log'', ''b.log''] (take 6 schedA) initState = Some stateMid"
  by (simp add: schedA_def initState_def analyze_log1 analyze_log2 stateMid_def)

lemma reachable_stateA: "reachable testFiles [''a.log'', ''b.log''] stateA"
  by (rule run_reachable [OF reachable.init run_schedA])

lemma reachable_stateB: "reachable testFiles [''a.log'', ''b.log''] stateB"
  by (rule run_reachable [OF reachable.init run_schedB])

lemma reachable_stateMid: "reachable testFiles [''a.log'', ''b.log''] stateMid"
  by (rule run_reachable [OF reachable.init run_mid])

lemma analyze_log1_any:
  "analyzeLogFile testFiles rk ''a.log'' = Inr summaryA \<or>
   analyzeLogFile testFiles rk ''a.log'' =
     Inr (summaryA\<lparr>topFiveLogMessages := [''Database error'', ''User logged in'', [], [], []]\<rparr>)"
  by (cases "rk ''User logged in'' \<le> rk ''Database error''")
    (simp_all add: analyzeLogFile_def parse_log1 getNumEntries_def getLogSeverityFrequency_def
      severity_step_def noSeverities_def getTopFiveLogMessages_eq countMessages_def rankMessages_def
      gomap_range_def getStartTime_def getEndTime_def time_eval summaryA_def eval_nat_numeral)

lemma analyze_log2_any:
  "analyzeLogFile testFiles rk ''b.log'' = Inr summaryB \<or>
   analyzeLogFile testFiles rk ''b.log'' =
     Inr (summaryB\<lparr>topFiveLogMessages := [''Database error'', ''Low memory'', [], [], []]\<rparr>)"
  by (cases "rk ''Low memory'' \<le> rk ''Database error''")
    (simp_all add: analyzeLogFile_def parse_log2 getNumEntries_def getLogSeverityFrequency_def
      severity_step_def noSeverities_def getTopFiveLogMessages_eq countMessages_def rankMessages_def
      gomap_range_def getStartTime_def getEndTime_def time_eval summaryB_def eval_nat_numeral)

lemma reduce_two_files:
  assumes "l0 = summaryA \<or> l0 = summaryA\<lparr>topFiveLogMessages := [''Database error'', ''User logged in'', [], [], []]\<rparr>"
    and "l1 = summaryB \<or> l1 = summaryB\<lparr>topFiveLogMessages := [''Database error'', ''Low memory'', [], [], []]\<rparr>"
    and "las = [l0, l1] \<or> las = [l1, l0]" and "analyzelogAnalyses rk las = Inr r"
  shows "analyzeLogFilesChecks r"
proof -
  have ok: "las \<noteq> []" "\<forall>la \<in> set las. slots_ok la"
    using assms(1-3) by (auto simp: summaryA_def summaryB_def slots_ok_def maxMessages_def)
  note r = analyzelogAnalyses_Inr [OF ok, of rk]
  have sums: "sum_list (map numEntries las) = 4"
    "sum_list (map (\<lambda>la. debug (logSeverityFrequency la)) las) = 0"
    "sum_list (map (\<lambda>la. info (logSeverityFrequency la)) las) = 1"
    "sum_list (map (\<lambda>la. warning (logSeverityFrequency la)) las) = 1"
    "sum_list (map (\<lambda>la. error (logSeverityFrequency la)) las) = 2"
    using assms(1-3) by (auto simp: summaryA_def summaryB_def)
  have keys: "''Database error'' \<in> fst ` set (global_ranked las)"
    using assms(1-3) by (auto simp: summaryA_def summaryB_def slots_def)
  have cnt: "\<forall>y \<in> fst ` set (global_ranked las). y \<noteq> ''Database error'' \<longrightarrow>
      sint (gomap_get (global_ranked las) y) < sint (gomap_get (global_ranked las) ''Database error'')"
    using assms(1-3) by (auto simp: gomap_get_global_ranked global_count_def summaryA_def summaryB_def slots_def)
  have "rankMessages rk (global_ranked las) ! 0 = ''Database error''"
    by (rule rankMessages_first [OF keys cnt])
  moreover have "rankMessages rk (global_ranked las) \<noteq> []"
    using keys by (metis empty_iff empty_set set_rankMessages)
  ultimately show ?thesis using r assms(4) sums by (auto simp: analyzeLogFilesChecks_def)
qed

subsection \<open>End-to-end properties\<close>

text \<open>
  C29:  \<open>TestAnalyzeLogFiles\<close> passes on every run: whatever the interleaving of
  the two goroutines, the arrival order and the map iteration orders, a returned result
  meets the test's assertions (\<open>analyzeLogFilesChecks\<close>): 4 entries, severities INFO 1,
  WARNING 1, ERROR 2, and ``Database error'' first.
\<close>

theorem analyzeLogFiles_two_files:
  assumes "reachable testFiles [''a.log'', ''b.log''] s" and "pc s = Returned r"
  shows "analyzeLogFilesChecks r"
proof -
  let ?P = "[''a.log'', ''b.log'']"
  obtain las las' rk where l: "length las = length ?P"
      "\<forall>i < length ?P. \<exists>rk'. analyzeLogFile testFiles rk' (?P ! i) = Inr (las ! i)"
      "mset las' = mset las" "analyzelogAnalyses rk las' = Inr r"
    using returned_reduction [OF assms] by blast
  from l(1) obtain l0 l1 where las: "las = [l0, l1]"
    by (cases las rule: list.exhaust[case_product list.exhaust]) (auto simp: length_Suc_conv)
  have "\<exists>rk'. analyzeLogFile testFiles rk' ''a.log'' = Inr l0"
    using l(2) [rule_format, of 0] las by simp
  moreover have "\<exists>rk'. analyzeLogFile testFiles rk' ''b.log'' = Inr l1"
    using l(2) [rule_format, of 1] las by simp
  ultimately
  obtain rk0 rk1 where "analyzeLogFile testFiles rk0 ''a.log'' = Inr l0"
      "analyzeLogFile testFiles rk1 ''b.log'' = Inr l1" by blast
  then have "l0 = summaryA \<or> l0 = summaryA\<lparr>topFiveLogMessages := [''Database error'', ''User logged in'', [], [], []]\<rparr>"
      "l1 = summaryB \<or> l1 = summaryB\<lparr>topFiveLogMessages := [''Database error'', ''Low memory'', [], [], []]\<rparr>"
    using analyze_log1_any [of rk0] analyze_log2_any [of rk1] by auto
  moreover have "las' = [l0, l1] \<or> las' = [l1, l0]" using mset_eq_pair l(3) las by simp
  ultimately show ?thesis using reduce_two_files l(4) by blast
qed

text \<open>
  The reducer scans the summaries in arrival order, not in the order of the paths: the
  two schedules of \<open>TestAnalyzeLogFiles\<close> below differ only in the order of the two
  \<open>Send\<close> steps (the same events, the same map iteration orders) and return different
  top-five lists, the tied messages swapped.
\<close>

lemma analyzeLogFiles_arrival_order:
  "schedB = schedA[5 := schedA ! 6, 6 := schedA ! 5] \<and>
   run testFiles [''a.log'', ''b.log''] schedA initState = Some stateA \<and> pc stateA = Returned resultA \<and>
   run testFiles [''a.log'', ''b.log''] schedB initState = Some stateB \<and> pc stateB = Returned resultB \<and>
   topFiveLogMessages resultA \<noteq> topFiveLogMessages resultB"
  using run_schedA run_schedB
  by (simp add: schedA_def schedB_def stateA_def stateB_def resultA_def resultB_def)

subsection \<open>Instances of the dispatcher's claims\<close>

lemma stateA_stuck: "dstep testFiles [''a.log'', ''b.log''] e stateA = None"
  by (cases e) (auto simp: stateA_def nth_Cons split: nat.splits)

lemma analyze_bad: "analyzeLogFile badFiles rk p = Inl StartTimePanic"
proof -
  have "parseLogFile badFiles p =
      [\<lparr>timestamp = ''yesterday'', severity = ''INFO'', module = ''app'', function' = ''main'',
        lineNumber = 1, message = ''started''\<rparr>]"
    by (simp add: parseLogFile_eq badFiles_def lp_eval)
  then show ?thesis
    by (simp add: analyzeLogFile_def getStartTime_def time_eval Let_def split: prod.splits)
qed

theorem reachable_runtime_safe_witness:
  "reachable testFiles [''a.log'', ''b.log''] stateA \<and> crashed stateA \<noteq> Some SendOnClosedChannel \<and>
   crashed stateA \<noteq> Some NegativeWaitGroupCounter \<and> chClosed stateA"
  using reachable_runtime_safe [OF reachable_stateA] reachable_stateA by (simp add: stateA_def)

theorem reachable_wait_group_witness:
  "reachable testFiles [''a.log'', ''b.log''] stateMid \<and> wg stateMid = 2 \<and>
   activeCount (goroutines stateMid) = 2"
  using reachable_wait_group [OF reachable_stateMid] reachable_stateMid by (simp add: stateMid_def)

theorem reachable_received_witness:
  "reachable testFiles [''a.log'', ''b.log''] stateMid \<and>
   mset (logAnalyses stateMid) = mset (sentAnalyses (goroutines stateMid)) \<and>
   analyzeLogFile testFiles (\<lambda>_. 0) ''b.log'' = Inr summaryB"
  using reachable_received [OF reachable_stateMid] reachable_stateMid analyze_log2 by simp

theorem run_terminates_witness:
  "run testFiles [''a.log'', ''b.log''] (take 6 schedA) initState = Some stateMid \<and>
   (\<exists>es' s'. run testFiles [''a.log'', ''b.log''] es' stateMid = Some s' \<and>
      length (take 6 schedA @ es') \<le> 15 \<and>
      ((\<exists>r. pc s' = Returned r) \<or> (\<exists>p. crashed s' = Some (Panicked p))))"
  using run_terminates [OF run_mid] run_mid by simp

theorem reachable_stuck_final_witness:
  "reachable testFiles [''a.log'', ''b.log''] stateA \<and>
   (\<forall>e. dstep testFiles [''a.log'', ''b.log''] e stateA = None) \<and> pc stateA = Returned resultA"
proof -
  have "\<forall>e. dstep testFiles [''a.log'', ''b.log''] e stateA = None" using stateA_stuck by blast
  with reachable_stuck_final [OF reachable_stateA this] reachable_stateA show ?thesis
    by (simp add: stateA_def)
qed

theorem analyzeLogFiles_result_witness:
  "reachable testFiles [''a.log'', ''b.log''] stateA \<and> pc stateA = Returned resultA \<and>
   (\<exists>las las' rk. length las = length [''a.log'', ''b.log''] \<and> mset las' = mset las \<and>
      analyzelogAnalyses rk las' = Inr resultA)"
proof -
  have p: "pc stateA = Returned resultA" by (simp add: stateA_def)
  from analyzeLogFiles_result [OF reachable_stateA p] reachable_stateA p show ?thesis by blast
qed

theorem analyzeLogFiles_totals_deterministic_witness:
  "reachable testFiles [''a.log'', ''b.log''] stateA \<and> pc stateA = Returned resultA \<and>
   reachable testFiles [''a.log'', ''b.log''] stateB \<and> pc stateB = Returned resultB \<and>
   numEntries resultA = numEntries resultB \<and> startTime resultA = startTime resultB"
proof -
  have p: "pc stateA = Returned resultA" "pc stateB = Returned resultB"
    by (simp_all add: stateA_def stateB_def)
  from analyzeLogFiles_totals_deterministic [OF reachable_stateA p(1) reachable_stateB p(2)]
    reachable_stateA reachable_stateB p
  show ?thesis by simp
qed

theorem analyzeLogFiles_file_panics_witness:
  "0 < length [''bad.log''] \<and> (\<forall>rk. \<exists>p. analyzeLogFile badFiles rk ([''bad.log''] ! 0) = Inl p) \<and>
   run badFiles [''bad.log''] [Spawn, Spawn, Compute 0 (\<lambda>_. 0)] initState =
     Some \<lparr>goroutines = [Computing], wg = 1, logAnalyses = [], chClosed = False, pc = Receiving,
       crashed = Some (Panicked StartTimePanic)\<rparr> \<and>
   (\<forall>r. pc \<lparr>goroutines = [Computing], wg = 1, logAnalyses = [], chClosed = False, pc = Receiving,
       crashed = Some (Panicked StartTimePanic)\<rparr> \<noteq> Returned r)"
proof -
  have h: "\<forall>rk. \<exists>p. analyzeLogFile badFiles rk ([''bad.log''] ! 0) = Inl p" by (simp add: analyze_bad)
  have r: "run badFiles [''bad.log''] [Spawn, Spawn, Compute 0 (\<lambda>_. 0)] initState =
     Some \<lparr>goroutines = [Computing], wg = 1, logAnalyses = [], chClosed = False, pc = Receiving,
       crashed = Some (Panicked StartTimePanic)\<rparr>"
    by (simp add: initState_def analyze_bad)
  from analyzeLogFiles_file_panics [of 0 "[''bad.log'']", OF _ h run_reachable [OF reachable.init r]] h r
  show ?thesis by simp
qed

theorem analyzeLogFiles_no_paths_witness:
  "run testFiles [] [Spawn, Wait, Wait, Close] initState =
     Some \<lparr>goroutines = [], wg = 0, logAnalyses = [], chClosed = True, pc = Reducing, crashed = None\<rparr> \<and>
   (\<forall>r. pc \<lparr>goroutines = [], wg = 0, logAnalyses = [], chClosed = True, pc = Reducing,
     crashed = None\<rparr> \<noteq> Returned r) \<and>
   dstep testFiles [] (Reduce (\<lambda>_. 0))
     \<lparr>goroutines = [], wg = 0, logAnalyses = [], chClosed = True, pc = Reducing, crashed = None\<rparr> =
     Some \<lparr>goroutines = [], wg = 0, logAnalyses = [], chClosed = True, pc = Reducing,
       crashed = Some (Panicked NoAnalysisPanic)\<rparr>"
proof -
  have r: "run testFiles [] [Spawn, Wait, Wait, Close] initState =
     Some \<lparr>goroutines = [], wg = 0, logAnalyses = [], chClosed = True, pc = Reducing, crashed = None\<rparr>"
    by (simp add: initState_def)
  from analyzeLogFiles_no_paths [OF run_reachable [OF reachable.init r]] r show ?thesis
    by (simp add: analyzelogAnalyses_def)
qed

theorem analyzeLogFiles_two_files_witness:
  "reachable testFiles [''a.log'', ''b.log''] stateB \<and> pc stateB = Returned resultB \<and>
   analyzeLogFilesChecks resultB"
proof -
  have p: "pc stateB = Returned resultB" by (simp add: stateB_def)
  from analyzeLogFiles_two_files [OF reachable_stateB p] reachable_stateB p show ?thesis by simp
qed

end
